(* ===== verification/Prelude.thy ===== *)
theory Prelude
  imports
    Main
    "HOL-Library.Multiset"
    "HOL-Library.Sublist"
    "HOL-Library.Char_ord"
    "HOL-Library.List_Lexorder"
begin

text \<open>
  Shared vocabulary of the development: results with errors as values, Rust strings as
  their UTF-8 bytes, checked and saturating 64-bit arithmetic, tables with a primary key,
  stable descending sort (SQL's \<open>ORDER BY ... DESC\<close>) and the generic state machine
  interface that the components interpret.
\<close>

named_theorems res_simps "inversion of successful results"
named_theorems table_simps "laws of tables with a primary key"

section \<open>Results\<close>

text \<open>
  The code reports failures as \<open>anyhow::Error\<close> values that carry a message
  (\<open>bail!\<close>, \<open>ensure!\<close>, \<open>context\<close>). \<open>Bail m\<close> is such a message; \<open>Sql m\<close> is a statement
  that a database constraint refuses; \<open>Decode m\<close> a value that does not decode
  (serde, number conversions, time stamps); \<open>Io m\<close> an error of the operating system.
\<close>

datatype error = Bail string | Sql string | Decode string | Io string

type_synonym 'a res = "error + 'a"

definition rbind :: "'a res \<Rightarrow> ('a \<Rightarrow> 'b res) \<Rightarrow> 'b res" where
  "rbind r k = (case r of Inl e \<Rightarrow> Inl e | Inr x \<Rightarrow> k x)"

definition ensure :: "bool \<Rightarrow> string \<Rightarrow> unit res" where
  "ensure c m = (if c then Inr () else Inl (Bail m))"

definition is_ok :: "'a res \<Rightarrow> bool" where
  "is_ok r = (case r of Inl _ \<Rightarrow> False | Inr _ \<Rightarrow> True)"

definition ok_or :: "'a option \<Rightarrow> error \<Rightarrow> 'a res" where
  "ok_or x e = (case x of None \<Rightarrow> Inl e | Some y \<Rightarrow> Inr y)"

lemma rbind_Inr [simp]: "rbind (Inr x) k = k x"
  by (simp add: rbind_def)

lemma rbind_Inl [simp]: "rbind (Inl e) k = Inl e"
  by (simp add: rbind_def)

lemma rbind_eq_Inr [res_simps]: "rbind r k = Inr y \<longleftrightarrow> (\<exists>x. r = Inr x \<and> k x = Inr y)"
  by (cases r) auto

lemma rbind_split: "P (rbind r k) \<longleftrightarrow> (\<forall>e. r = Inl e \<longrightarrow> P (Inl e)) \<and> (\<forall>x. r = Inr x \<longrightarrow> P (k x))"
  by (cases r) auto

lemma ensure_True [simp]: "ensure True m = Inr ()"
  by (simp add: ensure_def)

lemma ensure_False [simp]: "ensure False m = Inl (Bail m)"
  by (simp add: ensure_def)

lemma ensure_eq_Inr [res_simps]: "ensure c m = Inr u \<longleftrightarrow> c"
  by (simp add: ensure_def)

lemma ok_or_eq_Inr [res_simps]: "ok_or x e = Inr y \<longleftrightarrow> x = Some y"
  by (simp add: ok_or_def split: option.splits)

lemma ok_or_simps [simp]: "ok_or None e = Inl e" "ok_or (Some y) e = Inr y"
  by (simp_all add: ok_or_def)

lemma is_ok_simps [simp]: "is_ok (Inr x)" "\<not> is_ok (Inl e)"
  by (simp_all add: is_ok_def)

text \<open>The first failing element of an iteration aborts it (\<open>collect::<Result<Vec<_>>>()\<close>).\<close>

fun map_res :: "('a \<Rightarrow> 'b res) \<Rightarrow> 'a list \<Rightarrow> 'b list res" where
  "map_res f [] = Inr []"
| "map_res f (x # xs) = rbind (f x) (\<lambda>y. rbind (map_res f xs) (\<lambda>ys. Inr (y # ys)))"

lemma map_res_length: "map_res f xs = Inr ys \<Longrightarrow> length ys = length xs"
  by (induction xs arbitrary: ys) (auto simp: res_simps)

lemma map_res_nth: "map_res f xs = Inr ys \<Longrightarrow> i < length xs \<Longrightarrow> f (xs ! i) = Inr (ys ! i)"
  by (induction xs arbitrary: ys i) (auto simp: res_simps nth_Cons split: nat.splits)

lemma map_res_set: "map_res f xs = Inr ys \<Longrightarrow> y \<in> set ys \<Longrightarrow> \<exists>x \<in> set xs. f x = Inr y"
  by (induction xs arbitrary: ys) (auto simp: res_simps)

section \<open>Strings as UTF-8 bytes\<close>

text \<open>
  A Rust \<open>String\<close> is its UTF-8 byte sequence; a value of type \<open>string\<close> is that
  sequence (one \<open>char\<close> per byte), so \<open>len()\<close>, \<open>bytes()\<close>, comparison and byte searches are
  the list functions. Functions on code points (\<open>trim\<close>, \<open>char::is_control\<close>) decode the
  multi-byte sequences they depend on.
\<close>

abbreviation byte_of :: "char \<Rightarrow> nat" where
  "byte_of c \<equiv> (of_char c :: nat)"

text \<open>\<open>chars().any(char::is_control)\<close>: U+0000--U+001F, U+007F and U+0080--U+009F
  (encoded as \<open>C2 80\<close> to \<open>C2 9F\<close>).\<close>

fun has_control :: "string \<Rightarrow> bool" where
  "has_control [] = False"
| "has_control (c # cs) =
     (byte_of c < 32 \<or> byte_of c = 127
      \<or> (byte_of c = 194 \<and> cs \<noteq> [] \<and> 128 \<le> byte_of (hd cs) \<and> byte_of (hd cs) < 160)
      \<or> has_control cs)"

text \<open>The UTF-8 encodings of the code points with Unicode's White_Space property.\<close>

definition white_space :: "string list" where
  "white_space =
     [[CHR 0x09], [CHR 0x0A], [CHR 0x0B], [CHR 0x0C], [CHR 0x0D], [CHR 0x20],
      [CHR 0xC2, CHR 0x85], [CHR 0xC2, CHR 0xA0],
      [CHR 0xE1, CHR 0x9A, CHR 0x80],
      [CHR 0xE2, CHR 0x80, CHR 0x80], [CHR 0xE2, CHR 0x80, CHR 0x81],
      [CHR 0xE2, CHR 0x80, CHR 0x82], [CHR 0xE2, CHR 0x80, CHR 0x83],
      [CHR 0xE2, CHR 0x80, CHR 0x84], [CHR 0xE2, CHR 0x80, CHR 0x85],
      [CHR 0xE2, CHR 0x80, CHR 0x86], [CHR 0xE2, CHR 0x80, CHR 0x87],
      [CHR 0xE2, CHR 0x80, CHR 0x88], [CHR 0xE2, CHR 0x80, CHR 0x89],
      [CHR 0xE2, CHR 0x80, CHR 0x8A], [CHR 0xE2, CHR 0x80, CHR 0xA8],
      [CHR 0xE2, CHR 0x80, CHR 0xA9], [CHR 0xE2, CHR 0x80, CHR 0xAF],
      [CHR 0xE2, CHR 0x81, CHR 0x9F], [CHR 0xE3, CHR 0x80, CHR 0x80]]"

function strip_with :: "string list \<Rightarrow> string \<Rightarrow> string" where
  "strip_with ws s =
     (case find (\<lambda>w. w \<noteq> [] \<and> prefix w s) ws of
        None \<Rightarrow> s
      | Some w \<Rightarrow> strip_with ws (drop (length w) s))"
  by pat_completeness auto
termination
proof (relation "measure (\<lambda>(ws, s). length s)", goal_cases)
  case 1
  show ?case by simp
next
  case (2 ws s w)
  then have "w \<noteq> [] \<and> prefix w s"
    by (auto simp: find_Some_iff)
  then show ?case by (auto simp: prefix_def)
qed

declare strip_with.simps [simp del]

definition trim_start :: "string \<Rightarrow> string" where
  "trim_start s = strip_with white_space s"

definition trim_end :: "string \<Rightarrow> string" where
  "trim_end s = rev (strip_with (map rev white_space) (rev s))"

definition trim :: "string \<Rightarrow> string" where
  "trim s = trim_end (trim_start s)"

lemma strip_with_suffix: "suffix (strip_with ws s) s"
proof (induction ws s rule: strip_with.induct)
  case (1 ws s)
  show ?case
  proof (cases "find (\<lambda>w. w \<noteq> [] \<and> prefix w s) ws")
    case None
    then show ?thesis by (subst strip_with.simps) simp
  next
    case (Some w)
    with 1 have "suffix (strip_with ws (drop (length w) s)) (drop (length w) s)" by simp
    then have "suffix (strip_with ws (drop (length w) s)) s"
      by (meson suffix_drop suffix_order.trans)
    with Some show ?thesis by (subst strip_with.simps) simp
  qed
qed

lemma strip_with_clean: "w \<in> set ws \<Longrightarrow> w \<noteq> [] \<Longrightarrow> \<not> prefix w (strip_with ws s)"
proof (induction ws s rule: strip_with.induct)
  case (1 ws s)
  show ?case
  proof (cases "find (\<lambda>w. w \<noteq> [] \<and> prefix w s) ws")
    case None
    then have "strip_with ws s = s" by (simp add: strip_with.simps [of ws s])
    with None "1.prems" show ?thesis by (auto simp: find_None_iff)
  next
    case (Some v)
    with 1 show ?thesis by (subst strip_with.simps) simp
  qed
qed

lemma strip_with_id: "(\<And>w. w \<in> set ws \<Longrightarrow> w \<noteq> [] \<Longrightarrow> \<not> prefix w s) \<Longrightarrow> strip_with ws s = s"
  by (subst strip_with.simps) (auto split: option.splits simp: find_Some_iff)

lemma trim_end_prefix: "prefix (trim_end s) s"
  unfolding trim_end_def
  by (metis rev_rev_ident strip_with_suffix suffix_to_prefix)

lemma trim_length: "length (trim s) \<le> length s"
proof -
  have "length (trim_end (trim_start s)) \<le> length (trim_start s)"
    by (rule prefix_length_le [OF trim_end_prefix])
  moreover have "length (trim_start s) \<le> length s"
    unfolding trim_start_def by (rule suffix_length_le [OF strip_with_suffix])
  ultimately show ?thesis by (simp add: trim_def)
qed

lemma trim_start_trim: "trim_start (trim s) = trim s"
  unfolding trim_start_def
proof (rule strip_with_id)
  fix w
  assume w: "w \<in> set white_space" "w \<noteq> []"
  then have "\<not> prefix w (trim_start s)"
    unfolding trim_start_def by (rule strip_with_clean)
  then show "\<not> prefix w (trim s)"
    using trim_end_prefix [of "trim_start s"] unfolding trim_def
    by (meson prefix_order.trans)
qed

lemma trim_end_trim: "trim_end (trim s) = trim s"
proof -
  have "strip_with (map rev white_space) (strip_with (map rev white_space) t)
      = strip_with (map rev white_space) t" for t
    by (rule strip_with_id) (rule strip_with_clean)
  then show ?thesis by (simp add: trim_def trim_end_def)
qed

lemma trim_idem [simp]: "trim (trim s) = trim s"
proof -
  have "trim (trim s) = trim_end (trim_start (trim s))" by (simp add: trim_def)
  then show ?thesis by (simp add: trim_start_trim trim_end_trim)
qed

lemma trim_Nil [simp]: "trim [] = []"
  using trim_length [of "[]"] by simp

text \<open>\<open>str::contains\<close>, \<open>strip_prefix\<close>, \<open>rsplit_once('.')\<close>, \<open>split(',')\<close>, \<open>trim_end_matches(c)\<close>
  and the ASCII classes.\<close>

fun contains :: "string \<Rightarrow> string \<Rightarrow> bool" where
  "contains [] p = (p = [])"
| "contains (c # s) p = (prefix p (c # s) \<or> contains s p)"

lemma contains_sublist: "contains s p \<longleftrightarrow> sublist p s"
  by (induction s p rule: contains.induct) (auto simp: sublist_Cons_right)

definition strip_prefix :: "string \<Rightarrow> string \<Rightarrow> string option" where
  "strip_prefix p s = (if prefix p s then Some (drop (length p) s) else None)"

fun after_last :: "char \<Rightarrow> string \<Rightarrow> string option" where
  "after_last d [] = None"
| "after_last d (c # s) =
     (case after_last d s of
        Some e \<Rightarrow> Some e
      | None \<Rightarrow> if c = d then Some s else None)"

fun split_on :: "char \<Rightarrow> string \<Rightarrow> string list" where
  "split_on d [] = [[]]"
| "split_on d (c # s) =
     (if c = d then [] # split_on d s
      else (case split_on d s of [] \<Rightarrow> [[c]] | w # ws \<Rightarrow> (c # w) # ws))"

definition trim_end_char :: "char \<Rightarrow> string \<Rightarrow> string" where
  "trim_end_char c s = rev (dropWhile (\<lambda>x. x = c) (rev s))"

definition trim_start_char :: "char \<Rightarrow> string \<Rightarrow> string" where
  "trim_start_char c s = dropWhile (\<lambda>x. x = c) s"

definition ascii_digit :: "char \<Rightarrow> bool" where
  "ascii_digit c \<longleftrightarrow> 48 \<le> byte_of c \<and> byte_of c \<le> 57"

definition ascii_upper :: "char \<Rightarrow> bool" where
  "ascii_upper c \<longleftrightarrow> 65 \<le> byte_of c \<and> byte_of c \<le> 90"

definition ascii_lower :: "char \<Rightarrow> bool" where
  "ascii_lower c \<longleftrightarrow> 97 \<le> byte_of c \<and> byte_of c \<le> 122"

definition ascii_alphanumeric :: "char \<Rightarrow> bool" where
  "ascii_alphanumeric c \<longleftrightarrow> ascii_digit c \<or> ascii_upper c \<or> ascii_lower c"

definition ascii_hexdigit :: "char \<Rightarrow> bool" where
  "ascii_hexdigit c \<longleftrightarrow> ascii_digit c \<or> (65 \<le> byte_of c \<and> byte_of c \<le> 70)
     \<or> (97 \<le> byte_of c \<and> byte_of c \<le> 102)"

text \<open>\<open>is_ascii_graphic\<close>: \<open>!\<close> to \<open>~\<close>.\<close>

definition ascii_graphic :: "char \<Rightarrow> bool" where
  "ascii_graphic c \<longleftrightarrow> 33 \<le> byte_of c \<and> byte_of c \<le> 126"

definition ascii_lowercase :: "string \<Rightarrow> string" where
  "ascii_lowercase = map (\<lambda>c. if ascii_upper c then char_of (byte_of c + 32) else c)"

lemma length_ascii_lowercase [simp]: "length (ascii_lowercase s) = length s"
  by (simp add: ascii_lowercase_def)

text \<open>Decimal formatting and parsing of natural numbers.\<close>

fun show_nat :: "nat \<Rightarrow> string" where
  "show_nat n = (if n < 10 then [char_of (48 + n)] else show_nat (n div 10) @ [char_of (48 + n mod 10)])"

declare show_nat.simps [simp del]

definition digits_value :: "string \<Rightarrow> nat" where
  "digits_value s = foldl (\<lambda>a c. 10 * a + (byte_of c - 48)) 0 s"

lemma digits_value_snoc: "digits_value (s @ [c]) = 10 * digits_value s + (byte_of c - 48)"
  by (simp add: digits_value_def)

lemma digits_value_show: "digits_value (show_nat n) = n"
proof (induction n rule: show_nat.induct)
  case (1 n)
  show ?case
  proof (cases "n < 10")
    case True
    then have "digits_value (show_nat n) = digits_value ([] @ [char_of (48 + n)])"
      by (subst show_nat.simps) simp
    with True show ?thesis by (simp only: digits_value_snoc) (simp add: digits_value_def)
  next
    case False
    have "digits_value (show_nat n)
        = 10 * digits_value (show_nat (n div 10)) + (byte_of (char_of (48 + n mod 10) :: char) - 48)"
      using False by (subst show_nat.simps) (simp add: digits_value_snoc)
    also have "\<dots> = 10 * (n div 10) + n mod 10"
      using 1 False by simp
    finally show ?thesis by simp
  qed
qed

section \<open>64-bit arithmetic\<close>

text \<open>
  \<open>u64\<close> and \<open>usize\<close> values are natural numbers with the bound written where the code
  checks or saturates; \<open>i64::MAX\<close> bounds what the database stores.
\<close>

definition u64_max :: nat where "u64_max = 2 ^ 64 - 1"

definition i64_max :: nat where "i64_max = 2 ^ 63 - 1"

definition checked_add :: "nat \<Rightarrow> nat \<Rightarrow> nat option" where
  "checked_add a b = (if a + b \<le> u64_max then Some (a + b) else None)"

definition checked_sub :: "nat \<Rightarrow> nat \<Rightarrow> nat option" where
  "checked_sub a b = (if b \<le> a then Some (a - b) else None)"

definition saturating_add :: "nat \<Rightarrow> nat \<Rightarrow> nat" where
  "saturating_add a b = min (a + b) u64_max"

definition abs_diff :: "nat \<Rightarrow> nat \<Rightarrow> nat" where
  "abs_diff a b = (if a \<le> b then b - a else a - b)"

lemma checked_add_Some: "checked_add a b = Some c \<longleftrightarrow> c = a + b \<and> a + b \<le> u64_max"
  by (auto simp: checked_add_def)

lemma saturating_add_assoc_le:
  "saturating_add (saturating_add a b) c = saturating_add a (b + c)"
  by (auto simp: saturating_add_def)

lemma abs_diff_le: "abs_diff a b \<le> k \<longleftrightarrow> a \<le> b + k \<and> b \<le> a + k"
  by (auto simp: abs_diff_def)

section \<open>Tables with a primary key\<close>

text \<open>
  A table is the list of its rows in insertion order. \<open>key\<close> selects the primary key; an
  insert of a duplicate key is refused, as SQLite refuses it.
\<close>

definition t_find :: "('r \<Rightarrow> 'k) \<Rightarrow> 'k \<Rightarrow> 'r list \<Rightarrow> 'r option" where
  "t_find key k rows = find (\<lambda>r. key r = k) rows"

definition t_insert :: "('r \<Rightarrow> 'k) \<Rightarrow> 'r \<Rightarrow> 'r list \<Rightarrow> 'r list res" where
  "t_insert key r rows =
     (if key r \<in> key ` set rows then Inl (Sql ''UNIQUE constraint failed'') else Inr (rows @ [r]))"

definition t_update :: "('r \<Rightarrow> 'k) \<Rightarrow> 'k \<Rightarrow> ('r \<Rightarrow> 'r) \<Rightarrow> 'r list \<Rightarrow> 'r list" where
  "t_update key k f rows = map (\<lambda>r. if key r = k then f r else r) rows"

definition t_delete :: "('r \<Rightarrow> 'k) \<Rightarrow> 'k \<Rightarrow> 'r list \<Rightarrow> 'r list" where
  "t_delete key k rows = filter (\<lambda>r. key r \<noteq> k) rows"

definition t_keys :: "('r \<Rightarrow> 'k) \<Rightarrow> 'r list \<Rightarrow> 'k set" where
  "t_keys key rows = key ` set rows"

lemma t_find_Some:
  "t_find key k rows = Some r \<Longrightarrow> r \<in> set rows \<and> key r = k"
  by (auto simp: t_find_def find_Some_iff)

lemma t_find_None [table_simps]: "t_find key k rows = None \<longleftrightarrow> k \<notin> key ` set rows"
  by (auto simp: t_find_def find_None_iff)

lemma t_find_unique:
  "distinct (map key rows) \<Longrightarrow> r \<in> set rows \<Longrightarrow> t_find key (key r) rows = Some r"
  unfolding t_find_def by (induction rows) (auto simp: rev_image_eqI)

lemma t_insert_Inr [res_simps]:
  "t_insert key r rows = Inr rows' \<longleftrightarrow> key r \<notin> key ` set rows \<and> rows' = rows @ [r]"
  by (auto simp: t_insert_def)

lemma t_insert_distinct:
  "t_insert key r rows = Inr rows' \<Longrightarrow> distinct (map key rows) \<Longrightarrow> distinct (map key rows')"
  by (auto simp: t_insert_Inr)

lemma t_update_keys [table_simps]:
  "(\<And>r. key (f r) = key r) \<Longrightarrow> map key (t_update key k f rows) = map key rows"
  by (auto simp: t_update_def)

lemma t_update_image:
  "(\<And>r. g (f r) = g r) \<Longrightarrow> map g (t_update key k f rows) = map g rows"
  by (auto simp: t_update_def)

lemma t_delete_distinct:
  "distinct (map key rows) \<Longrightarrow> distinct (map key (t_delete key k rows))"
  unfolding t_delete_def by (rule distinct_map_filter)

lemma set_t_delete [table_simps]: "set (t_delete key k rows) = {r \<in> set rows. key r \<noteq> k}"
  by (auto simp: t_delete_def)

lemma t_find_append_fresh [table_simps]:
  "key r \<notin> key ` set rows \<Longrightarrow>
   t_find key k (rows @ [r]) = (if k = key r then Some r else t_find key k rows)"
  unfolding t_find_def by (induction rows) auto

lemma t_find_update [table_simps]:
  "(\<And>r. key (f r) = key r) \<Longrightarrow>
   t_find key k (t_update key k' f rows) =
     (if k = k' then map_option f (t_find key k rows) else t_find key k rows)"
  unfolding t_find_def t_update_def by (induction rows) auto

lemma t_find_delete [table_simps]:
  "t_find key k (t_delete key k' rows) = (if k = k' then None else t_find key k rows)"
  unfolding t_find_def t_delete_def by (induction rows) auto

lemma find_SomeD: "find p xs = Some x \<Longrightarrow> x \<in> set xs \<and> p x"
  by (auto simp: find_Some_iff)

lemma set_map_filter: "y \<in> set (List.map_filter f xs) \<longleftrightarrow> (\<exists>x \<in> set xs. f x = Some y)"
  by (induction xs) (auto simp: List.map_filter_def)

section \<open>Descending order\<close>

text \<open>
  \<open>ORDER BY k DESC\<close>. Rows with equal keys keep the order in which they are scanned.
  SQLite's BINARY collation compares bytes, which is the order of \<open>List_Lexorder\<close>
  on the byte strings.
\<close>

definition order_desc :: "('r \<Rightarrow> 'k::linorder) \<Rightarrow> 'r list \<Rightarrow> 'r list" where
  "order_desc key rows = rev (sort_key key (rev rows))"

lemma set_order_desc [simp]: "set (order_desc key rows) = set rows"
  by (simp add: order_desc_def)

lemma length_order_desc [simp]: "length (order_desc key rows) = length rows"
  by (simp add: order_desc_def)

lemma distinct_order_desc [simp]: "distinct (order_desc key rows) = distinct rows"
  by (simp add: order_desc_def)

lemma distinct_map_order_desc:
  "distinct (map f (order_desc key rows)) \<longleftrightarrow> distinct (map f rows)"
proof -
  have "mset (map f (order_desc key rows)) = mset (map f rows)"
    by (simp add: order_desc_def)
  then show ?thesis by (rule mset_eq_imp_distinct_iff)
qed

lemma sorted_order_desc: "sorted (rev (map key (order_desc key rows)))"
  by (simp add: order_desc_def rev_map [symmetric])

section \<open>State machines over operations\<close>

text \<open>
  Every component is a state with operations. \<open>run_ops step\<close> performs a list of them; the
  locale below is the contract under which a predicate holds throughout every run. Each
  component interprets it on its own step function.
\<close>

fun run_ops :: "('o \<Rightarrow> 's \<Rightarrow> 's) \<Rightarrow> 'o list \<Rightarrow> 's \<Rightarrow> 's" where
  "run_ops step [] s = s"
| "run_ops step (x # xs) s = run_ops step xs (step x s)"

lemma run_ops_append: "run_ops step (xs @ ys) s = run_ops step ys (run_ops step xs s)"
  by (induction xs arbitrary: s) auto

locale op_invariant =
  fixes step :: "'o \<Rightarrow> 's \<Rightarrow> 's"
    and inv :: "'s \<Rightarrow> bool"
  assumes step_inv: "inv s \<Longrightarrow> inv (step x s)"
begin

lemma run_inv: "inv s \<Longrightarrow> inv (run_ops step xs s)"
  by (induction xs arbitrary: s) (auto intro: step_inv)

lemma run_inv_prefix: "inv s \<Longrightarrow> prefix xs ys \<Longrightarrow> inv (run_ops step xs s)"
  by (rule run_inv)

end

text \<open>A quantity that no operation decreases.\<close>

locale op_monotone =
  fixes step :: "'o \<Rightarrow> 's \<Rightarrow> 's"
    and rel :: "'s \<Rightarrow> 's \<Rightarrow> bool"
  assumes rel_refl: "rel s s"
    and rel_trans: "rel s t \<Longrightarrow> rel t u \<Longrightarrow> rel s u"
    and step_rel: "rel s (step x s)"
begin

lemma run_rel: "rel s (run_ops step xs s)"
proof (induction xs arbitrary: s)
  case Nil
  show ?case by (simp add: rel_refl)
next
  case (Cons x xs)
  have "rel (step x s) (run_ops step xs (step x s))" by (rule Cons.IH)
  with step_rel have "rel s (run_ops step xs (step x s))" by (rule rel_trans)
  then show ?case by simp
qed

end

end
