(* ===== verification/Store.thy ===== *)
theory Store
  imports Prelude Complex_Main
begin

text \<open>
  The data the core keeps: JSON values, the rows of the SQLCipher tables and the database
  as one record, together with the third-party functions the code calls (chrono, sha2,
  serde\_json, regex, url) as the fields of the record \<open>platform\<close>, which every definition
  that relies on one of them takes as an argument.
\<close>

section \<open>JSON values\<close>

text \<open>
  \<open>serde_json::Value\<close>. Objects are kept in the key order of the library's sorted map; a
  floating-point number is opaque (its literal).
\<close>

datatype number = UInt nat | SInt int | Float string

datatype json =
    JNull
  | JBool bool
  | JNum number
  | JStr string
  | JArr "json list"
  | JObj "(string \<times> json) list"

fun j_get :: "string \<Rightarrow> json \<Rightarrow> json option" where
  "j_get k (JObj kvs) = map_of kvs k"
| "j_get k _ = None"

fun as_str :: "json \<Rightarrow> string option" where
  "as_str (JStr s) = Some s"
| "as_str _ = None"

fun as_array :: "json \<Rightarrow> json list option" where
  "as_array (JArr xs) = Some xs"
| "as_array _ = None"

fun as_u64 :: "json \<Rightarrow> nat option" where
  "as_u64 (JNum (UInt n)) = Some n"
| "as_u64 _ = None"

fun as_bool :: "json \<Rightarrow> bool option" where
  "as_bool (JBool b) = Some b"
| "as_bool _ = None"

fun is_object :: "json \<Rightarrow> bool" where
  "is_object (JObj _) = True"
| "is_object _ = False"

fun is_array :: "json \<Rightarrow> bool" where
  "is_array (JArr _) = True"
| "is_array _ = False"

text \<open>\<open>get(k).and_then(Value::as_str)\<close> and its relatives.\<close>

definition get_str :: "string \<Rightarrow> json \<Rightarrow> string option" where
  "get_str k v = Option.bind (j_get k v) as_str"

definition get_array :: "string \<Rightarrow> json \<Rightarrow> json list option" where
  "get_array k v = Option.bind (j_get k v) as_array"

definition get_bool :: "string \<Rightarrow> json \<Rightarrow> bool option" where
  "get_bool k v = Option.bind (j_get k v) as_bool"

text \<open>Assignment to a key of an object, at its place in the key order.\<close>

fun obj_set :: "string \<Rightarrow> json \<Rightarrow> (string \<times> json) list \<Rightarrow> (string \<times> json) list" where
  "obj_set k v [] = [(k, v)]"
| "obj_set k v ((k', v') # kvs) =
     (if k = k' then (k, v) # kvs
      else if k < k' then (k, v) # (k', v') # kvs
      else (k', v') # obj_set k v kvs)"

fun j_set :: "string \<Rightarrow> json \<Rightarrow> json \<Rightarrow> json" where
  "j_set k v (JObj kvs) = JObj (obj_set k v kvs)"
| "j_set k v j = j"

fun j_remove :: "string \<Rightarrow> json \<Rightarrow> json" where
  "j_remove k (JObj kvs) = JObj (filter (\<lambda>kv. fst kv \<noteq> k) kvs)"
| "j_remove k j = j"

lemma map_of_obj_set: "map_of (obj_set k v kvs) = (map_of kvs)(k \<mapsto> v)"
  by (induction k v kvs rule: obj_set.induct) (auto simp: fun_eq_iff)

section \<open>Third-party functions\<close>

text \<open>
  A parsed URL, as far as the code reads it: scheme, user name, whether a password is set,
  host, path, query, fragment and the serialization \<open>as_str\<close>.
\<close>

record url =
  u_scheme :: string
  u_username :: string
  u_password :: bool
  u_host :: "string option"
  u_path :: string
  u_query :: bool
  u_fragment :: bool
  u_text :: string

text \<open>
  Instants are nanoseconds since the Unix epoch. The fields stand for
  \<open>DateTime<Utc>::to_rfc3339\<close>, \<open>to_rfc3339_opts(Millis, true)\<close>,
  \<open>DateTime::parse_from_rfc3339\<close>, \<open>hex::encode(Sha256::digest(_))\<close>, \<open>hex::encode\<close>,
  \<open>hex::decode_to_slice\<close>, \<open>str::to_lowercase\<close> (the
  Unicode tables), \<open>serde_json::to_vec\<close> and \<open>from_str::<Value>\<close>, the construction of a
  bounded regex, its search, \<open>reqwest::Url::parse\<close>, \<open>IpAddr::is_loopback\<close> after parsing,
  and \<open>Uuid::parse_str\<close>.
\<close>

record platform =
  rfc3339 :: "int \<Rightarrow> string"
  rfc3339_ms :: "int \<Rightarrow> string"
  parse_time :: "string \<Rightarrow> int option"
  sha256_hex :: "string \<Rightarrow> string"
  hex_encode :: "string \<Rightarrow> string"
  hex_decode :: "string \<Rightarrow> string option"
  lowercase :: "string \<Rightarrow> string"
  json_text :: "json \<Rightarrow> string"
  json_parse :: "string \<Rightarrow> json option"
  regex_ok :: "string \<Rightarrow> bool"
  regex_match :: "string \<Rightarrow> string \<Rightarrow> bool"
  url_parse :: "string \<Rightarrow> url option"
  ip_loopback :: "string \<Rightarrow> bool"
  uuid_ok :: "string \<Rightarrow> bool"

text \<open>
  What an operation draws from its environment: the clock (one reading serves the whole
  operation), the UUIDs it creates, in order, and random bytes.
\<close>

record draw =
  now_at :: int
  uuid :: "nat \<Rightarrow> string"
  random :: "nat \<Rightarrow> string"

text \<open>A concrete platform for the closed examples: instants print in decimal.\<close>

definition demo_digit :: "nat \<Rightarrow> char" where
  "demo_digit n = char_of (if n < 10 then 48 + n else 87 + n)"

definition demo_platform :: platform where
  "demo_platform =
     \<lparr>rfc3339 = (\<lambda>t. show_nat (nat t)),
      rfc3339_ms = (\<lambda>t. show_nat (nat t)),
      parse_time = (\<lambda>s. Some (int (digits_value s))),
      sha256_hex = (\<lambda>s. ''#'' @ s),
      hex_encode = (\<lambda>s. concat (map (\<lambda>c. [demo_digit (byte_of c div 16), demo_digit (byte_of c mod 16)]) s)),
      hex_decode = (\<lambda>s. if list_all ascii_hexdigit s then Some s else None),
      lowercase = ascii_lowercase,
      json_text = (\<lambda>_. ''{}''),
      json_parse = (\<lambda>_. Some JNull),
      regex_ok = (\<lambda>p. p \<noteq> []),
      regex_match = (\<lambda>p s. contains s p),
      url_parse = (\<lambda>s. Some \<lparr>u_scheme = (if prefix ''https:'' s then ''https''
          else if prefix ''socks5h:'' s then ''socks5h'' else ''http''), u_username = [],
        u_password = False, u_host = Some (if prefix ''https:'' s then ''h'' else ''localhost''),
        u_path = ''/'', u_query = False, u_fragment = False, u_text = s\<rparr>),
      ip_loopback = (\<lambda>_. False),
      uuid_ok = (\<lambda>s. s \<noteq> [])\<rparr>"

definition demo_draw :: "int \<Rightarrow> string \<Rightarrow> draw" where
  "demo_draw t u = \<lparr>now_at = t, uuid = (\<lambda>n. u @ replicate n (CHR ''+'')), random = (\<lambda>_. u)\<rparr>"

section \<open>Rows\<close>

record source_row =
  s_id :: string
  s_kind :: string
  s_content :: string
  s_metadata :: json
  s_created :: string

record memory_row =
  m_id :: string
  m_source :: string
  m_content :: string
  m_status :: string
  m_created :: string
  m_updated :: string

record history_row =
  h_memory :: string
  h_content :: string
  h_status :: string
  h_recorded :: string

text \<open>A JSON column holds its decoded value, \<open>None\<close> where the text does not decode.\<close>

record grant_row =
  gr_id :: string
  gr_destination :: string
  gr_scope :: "string list option"
  gr_expires :: string
  gr_revoked :: "string option"
  gr_created :: string

record receipt_row =
  rc_id :: string
  rc_destination :: string
  rc_memories :: "string list option"
  rc_created :: string
  rc_grant :: "string option"
  rc_status :: string

record interaction_row =
  i_id :: string
  i_week :: string
  i_topic :: nat
  i_latency :: nat
  i_tokens :: nat
  i_success :: bool
  i_created :: string

record report =
  rp_schema :: nat
  rp_id :: string
  rp_week :: string
  rp_epsilon :: rat
  rp_topics :: "rat list"
  rp_latency :: "rat list"
  rp_tokens :: "rat list"

record report_row =
  ar_week :: string
  ar_id :: string
  ar_epsilon :: rat
  ar_payload :: "report option"
  ar_created :: string

datatype rule_action = BlockMatch | RequireMatch

record rule =
  ru_id :: string
  ru_name :: string
  ru_pattern :: string
  ru_action :: rule_action
  ru_enabled :: bool

record policy_spec =
  ps_name :: string
  ps_max_request :: nat
  ps_max_file :: nat
  ps_max_files :: nat
  ps_extensions :: "string list"
  ps_rules :: "rule list"

record policy_row =
  pr_revision :: int
  pr_document :: "policy_spec option"

record decision =
  de_id :: string
  de_created :: string
  de_allowed :: bool
  de_operation :: string
  de_revision :: nat
  de_managed :: "string option"
  de_layer :: string
  de_reason :: string
  de_rule :: "string option"
  de_bytes :: nat
  de_files :: nat

record decision_row =
  dr_seq :: nat
  dr_id :: string
  dr_document :: "decision option"

record audit_details =
  ad_provider :: "string option"
  ad_model :: "string option"
  ad_entity :: "string option"
  ad_count :: "nat option"
  ad_enabled :: "bool option"
  ad_days :: "nat option"
  ad_http :: "nat option"
  ad_error :: "string option"

record audit_row =
  au_id :: string
  au_created :: string
  au_action :: string
  au_level :: string
  au_details :: audit_details

text \<open>\<open>TokenRates\<close> of the journal and \<open>Rates\<close> of the administration (amounts in USD per
  million tokens; the code's \<open>f64\<close> is an exact rational here).\<close>

record rates =
  ra_input :: rat
  ra_output :: rat
  ra_cached :: "rat option"
  ra_written :: "rat option"
  ra_currency :: string

record interaction_record =
  ir_id :: string
  ir_provider :: string
  ir_provider_name :: string
  ir_model :: string
  ir_destination :: string
  ir_operation :: string
  ir_protocol :: string
  ir_streaming :: bool
  ir_grant :: "string option"
  ir_receipt :: "string option"
  ir_started :: string
  ir_finished :: "string option"
  ir_status :: string
  ir_http :: "nat option"
  ir_header_ms :: "nat option"
  ir_total_ms :: "nat option"
  ir_request_bytes :: nat
  ir_response_bytes :: nat
  ir_context_bytes :: nat
  ir_source_bytes :: "nat option"
  ir_context_tokens :: "nat option"
  ir_source_tokens :: "nat option"
  ir_input :: "nat option"
  ir_output :: "nat option"
  ir_cached :: "nat option"
  ir_written :: "nat option"
  ir_total :: "nat option"
  ir_error :: "string option"
  ir_rates :: "rates option"
  ir_cost :: "rat option"
  ir_currency :: "string option"

record journal_row =
  jr_id :: string
  jr_provider :: string
  jr_provider_name :: string
  jr_model :: string
  jr_status :: string
  jr_started :: string
  jr_record :: "interaction_record option"

record instance_row =
  wi_instance :: string
  wi_label :: string
  wi_enabled :: bool

record client_row =
  wc_id :: string
  wc_label :: string
  wc_token_hash :: string
  wc_destinations :: "string list option"
  wc_expires :: string
  wc_revoked :: "string option"
  wc_created :: string

record binding_row =
  wg_grant :: string
  wg_client :: string

record request_row =
  wr_interaction :: string
  wr_principal :: string
  wr_receipt :: "string option"
  wr_preflight :: nat
  wr_policy :: nat
  wr_created :: string

record thread_row =
  th_id :: string
  th_title :: string
  th_scope :: string
  th_provider :: string
  th_destination :: string
  th_model :: string
  th_grant :: "string option"
  th_created :: string
  th_expires :: string
  th_revision :: int
  th_pending :: "string option"

record turn_row =
  tu_thread :: string
  tu_request :: string
  tu_hash :: string
  tu_user :: string
  tu_assistant :: string
  tu_receipt :: "string option"
  tu_interaction :: string
  tu_created :: string
  tu_position :: int

record admin_settings =
  as_history_enabled :: bool
  as_history_days :: nat
  as_extractor_base :: string
  as_extractor_model :: string
  as_primary :: string

record discovery =
  di_status :: string
  di_checked :: "string option"
  di_models :: "string list"
  di_loaded :: "json list option"
  di_error :: "string option"

record provider =
  pv_id :: string
  pv_label :: string
  pv_kind :: string
  pv_base :: string
  pv_model :: string
  pv_enabled :: bool
  pv_key :: string
  pv_rates :: "rates option"
  pv_discovery :: discovery

section \<open>The database\<close>

text \<open>
  One field per table. The single-row tables \<open>request_policy\<close> and \<open>work_instance\<close> are
  optional rows; of \<open>settings\<close> the three keys the code reads are fields (outer \<open>None\<close>: no
  such row; inner \<open>None\<close>: text that does not decode). \<open>d_decision_seq\<close> is the
  AUTOINCREMENT counter of \<open>policy_decisions\<close>.
\<close>

record db =
  d_sources :: "source_row list"
  d_memories :: "memory_row list"
  d_history :: "history_row list"
  d_grants :: "grant_row list"
  d_receipts :: "receipt_row list"
  d_interactions :: "interaction_row list"
  d_reports :: "report_row list"
  d_consent :: "string option"
  d_settings :: "admin_settings option option"
  d_providers :: "provider list option option"
  d_policy :: "policy_row option"
  d_decisions :: "decision_row list"
  d_decision_seq :: nat
  d_journal :: "journal_row list"
  d_audit :: "audit_row list"
  d_instance :: "instance_row option"
  d_clients :: "client_row list"
  d_bindings :: "binding_row list"
  d_requests :: "request_row list"
  d_threads :: "thread_row list"
  d_turns :: "turn_row list"

text \<open>
  A transaction commits with a result or is rolled back with an error; a sequence of
  autocommitted statements may fail after some of them took effect.
\<close>

type_synonym 'a tx = "('a \<times> db) res"
type_synonym 'a stmts = "'a res \<times> db"

definition commit :: "'a tx \<Rightarrow> db \<Rightarrow> 'a stmts" where
  "commit r d = (case r of Inl e \<Rightarrow> (Inl e, d) | Inr (x, d') \<Rightarrow> (Inr x, d'))"

definition then_stmt :: "'a stmts \<Rightarrow> ('a \<Rightarrow> db \<Rightarrow> 'b stmts) \<Rightarrow> 'b stmts" where
  "then_stmt m k = (case m of (Inl e, d) \<Rightarrow> (Inl e, d) | (Inr x, d) \<Rightarrow> k x d)"

lemma commit_simps [simp]:
  "commit (Inl e) d = (Inl e, d)" "commit (Inr (x, d')) d = (Inr x, d')"
  by (simp_all add: commit_def)

lemma commit_cases: "Q d \<Longrightarrow> (\<And>x d'. r = Inr (x, d') \<Longrightarrow> Q d') \<Longrightarrow> Q (snd (commit r d))"
  by (cases r) (auto simp: commit_def)

lemma then_stmt_simps [simp]:
  "then_stmt (Inl e, d) k = (Inl e, d)" "then_stmt (Inr x, d) k = k x d"
  by (simp_all add: then_stmt_def)

lemma then_stmt_Inr [res_simps]:
  "then_stmt m k = (Inr y, d') \<longleftrightarrow> (\<exists>x d. m = (Inr x, d) \<and> k x d = (Inr y, d'))"
  by (auto simp: then_stmt_def split: prod.splits sum.splits)

lemma snd_then_stmt:
  "P (snd m) \<Longrightarrow> (\<And>x d. m = (Inr x, d) \<Longrightarrow> P d \<Longrightarrow> P (snd (k x d))) \<Longrightarrow> P (snd (then_stmt m k))"
  by (cases m; cases "fst m") (auto simp: then_stmt_def)

text \<open>A new database, as \<open>Vault::open\<close> creates it (the initial policy document is given by
  the policy component).\<close>

definition empty_db :: "string \<Rightarrow> policy_spec \<Rightarrow> db" where
  "empty_db instance_id spec =
     \<lparr>d_sources = [], d_memories = [], d_history = [], d_grants = [], d_receipts = [],
      d_interactions = [], d_reports = [], d_consent = None, d_settings = None,
      d_providers = None, d_policy = Some \<lparr>pr_revision = 0, pr_document = Some spec\<rparr>,
      d_decisions = [], d_decision_seq = 0, d_journal = [], d_audit = [],
      d_instance = Some \<lparr>wi_instance = instance_id, wi_label = ''My installation'',
        wi_enabled = False\<rparr>,
      d_clients = [], d_bindings = [], d_requests = [], d_threads = [], d_turns = []\<rparr>"

definition demo_spec :: policy_spec where
  "demo_spec = \<lparr>ps_name = ''p'', ps_max_request = 1024, ps_max_file = 10, ps_max_files = 1,
     ps_extensions = [''txt''], ps_rules = []\<rparr>"

end
