(* ===== verification/AuditTrail.thy ===== *)
theory AuditTrail
  imports Store
begin

text \<open>
  The audit part of \<open>crates/omni-core/src/journal.rs\<close>: the metadata validators, the
  allowlist of actions, the sanitised error codes and \<open>audit_on\<close>, which every transaction of
  the vault calls before it commits.
\<close>

section \<open>Validators\<close>

definition bounded_metadata :: "string \<Rightarrow> nat \<Rightarrow> string \<Rightarrow> unit res" where
  "bounded_metadata value mx name =
     ensure (\<not> (trim value = [] \<or> length value > mx \<or> has_control value))
       (''Invalid '' @ name @ '' metadata'')"

definition valid_identifier :: "string \<Rightarrow> unit res" where
  "valid_identifier value =
     ensure (\<not> (value = [] \<or> length value > 128
        \<or> \<not> list_all (\<lambda>c. ascii_alphanumeric c \<or> List.member ''-_.:'' c) value))
       ''Invalid metadata identifier''"

definition metric :: "nat option \<Rightarrow> unit res" where
  "metric value =
     ensure (case value of None \<Rightarrow> True | Some v \<Rightarrow> v \<le> i64_max)
       ''Metric exceeds the supported range''"

definition error_codes :: "string list" where
  "error_codes =
     [''provider_timeout'', ''provider_unavailable'', ''provider_http_error'',
      ''invalid_response'', ''response_too_large'', ''stream_interrupted'', ''stream_timeout'',
      ''upstream_stream_error'', ''upstream_stream_incomplete'', ''client_disconnected'',
      ''process_restarted'', ''permission_denied'', ''no_text_content'', ''invalid_request'',
      ''extractor_unavailable'', ''extractor_invalid_output'', ''storage_failure'',
      ''unknown_error'']"

definition sanitize_error :: "string \<Rightarrow> string" where
  "sanitize_error value = (if List.member error_codes value then value else ''unknown_error'')"

definition journal_statuses :: "string list" where
  "journal_statuses = [''pending'', ''streaming'', ''succeeded'', ''failed'', ''aborted'']"

definition valid_journal_status :: "string \<Rightarrow> bool" where
  "valid_journal_status status \<longleftrightarrow> List.member journal_statuses status"

definition terminal :: "string \<Rightarrow> bool" where
  "terminal status \<longleftrightarrow> List.member [''succeeded'', ''failed'', ''aborted''] status"

definition audit_actions :: "string list" where
  "audit_actions =
     [''work_enabled'', ''client_approved'', ''client_revoked'', ''conversation_created'',
      ''conversation_deleted'', ''conversation_saved'', ''recovery_exported'',
      ''recovery_restored'', ''memory_created'', ''memory_updated'', ''memory_deleted'',
      ''source_deleted'', ''grant_created'', ''grant_revoked'', ''capture_saved'',
      ''analytics_consent_changed'', ''analytics_report_prepared'', ''analytics_report_sent'',
      ''provider_created'', ''provider_updated'', ''provider_deleted'', ''provider_probed'',
      ''provider_models_refreshed'', ''settings_updated'', ''history_cleared'',
      ''history_pruned'', ''stream_aborted'', ''access_denied'', ''core_started'',
      ''policy_updated'', ''policy_blocked'']"

definition valid_action :: "string \<Rightarrow> bool" where
  "valid_action action \<longleftrightarrow> List.member audit_actions action"

section \<open>Time stamps of the journal\<close>

definition journal_timestamp :: "platform \<Rightarrow> draw \<Rightarrow> string option \<Rightarrow> string res" where
  "journal_timestamp P w value =
     (case value of
        Some v \<Rightarrow> (case parse_time P v of
            None \<Rightarrow> Inl (Decode ''timestamp'')
          | Some t \<Rightarrow> Inr (rfc3339_ms P t))
      | None \<Rightarrow> Inr (rfc3339_ms P (now_at w)))"

section \<open>The audit trail\<close>

definition no_details :: audit_details where
  "no_details = \<lparr>ad_provider = None, ad_model = None, ad_entity = None, ad_count = None,
     ad_enabled = None, ad_days = None, ad_http = None, ad_error = None\<rparr>"

definition entity :: "string \<Rightarrow> audit_details" where
  "entity x = no_details\<lparr>ad_entity := Some x\<rparr>"

definition opt_check :: "('a \<Rightarrow> unit res) \<Rightarrow> 'a option \<Rightarrow> unit res" where
  "opt_check f x = (case x of None \<Rightarrow> Inr () | Some v \<Rightarrow> f v)"

definition opt_all :: "('a \<Rightarrow> bool) \<Rightarrow> 'a option \<Rightarrow> bool" where
  "opt_all p x = (case x of None \<Rightarrow> True | Some v \<Rightarrow> p v)"

definition audit_level :: "string \<Rightarrow> audit_details \<Rightarrow> string" where
  "audit_level action details =
     (if ad_error details \<noteq> None
         \<or> (case ad_http details of None \<Rightarrow> False | Some status \<Rightarrow> 400 \<le> status)
      then ''error''
      else if List.member [''access_denied'', ''stream_aborted'', ''policy_blocked''] action
      then ''warning''
      else ''info'')"

definition audit_checks :: "string \<Rightarrow> audit_details \<Rightarrow> unit res" where
  "audit_checks action details =
     rbind (ensure (valid_action action) ''Audit action is not allowlisted'') (\<lambda>_.
     rbind (opt_check valid_identifier (ad_provider details)) (\<lambda>_.
     rbind (opt_check valid_identifier (ad_entity details)) (\<lambda>_.
     rbind (opt_check (\<lambda>m. bounded_metadata m 200 ''audit model'') (ad_model details)) (\<lambda>_.
     rbind (ensure (opt_all (\<lambda>days. 1 \<le> days \<and> days \<le> 365) (ad_days details))
       ''History retention must be 1-365 days'') (\<lambda>_.
     rbind (ensure (opt_all (\<lambda>v. 100 \<le> v \<and> v \<le> 599) (ad_http details))
       ''Invalid audit HTTP status'') (\<lambda>_.
     metric (ad_count details)))))))"

text \<open>\<open>k\<close> numbers the UUID the record takes from the operation's draw.\<close>

definition audit_on ::
    "platform \<Rightarrow> draw \<Rightarrow> nat \<Rightarrow> string \<Rightarrow> audit_details \<Rightarrow> db \<Rightarrow> db res" where
  "audit_on P w k action details d =
     rbind (audit_checks action details) (\<lambda>_.
     let details = details\<lparr>ad_error := map_option sanitize_error (ad_error details)\<rparr>;
         level = audit_level action details
     in rbind (journal_timestamp P w None) (\<lambda>created.
        rbind (t_insert au_id \<lparr>au_id = uuid w k, au_created = created, au_action = action,
                 au_level = level, au_details = details\<rparr> (d_audit d)) (\<lambda>rows.
        Inr (d\<lparr>d_audit := rows\<rparr>))))"

definition audited ::
    "platform \<Rightarrow> draw \<Rightarrow> nat \<Rightarrow> string \<Rightarrow> audit_details \<Rightarrow> 'a \<Rightarrow> db \<Rightarrow> 'a tx" where
  "audited P w k action details x d =
     rbind (audit_on P w k action details d) (\<lambda>d'. Inr (x, d'))"

section \<open>Laws\<close>

text \<open>An audit touches the audit table only.\<close>

lemma audit_on_Inr:
  "audit_on P w k action details d = Inr d' \<Longrightarrow>
   \<exists>row. d' = d\<lparr>d_audit := d_audit d @ [row]\<rparr> \<and> au_id row = uuid w k
       \<and> au_id row \<notin> au_id ` set (d_audit d) \<and> au_action row = action
       \<and> au_level row = audit_level action details
       \<and> au_details row = details\<lparr>ad_error := map_option sanitize_error (ad_error details)\<rparr>
       \<and> au_created row = rfc3339_ms P (now_at w)
       \<and> audit_checks action details = Inr ()"
  by (auto simp: audit_on_def Let_def journal_timestamp_def res_simps audit_level_def
      split: option.splits)

lemma audited_Inr [res_simps]:
  "audited P w k action details x d = Inr (y, d') \<longleftrightarrow>
   y = x \<and> audit_on P w k action details d = Inr d'"
  by (auto simp: audited_def res_simps)

lemma audit_on_row:
  assumes "audit_on P w k action details d = Inr d'"
  shows "\<exists>row \<in> set (d_audit d'). au_action row = action \<and> ad_entity (au_details row) = ad_entity details"
proof -
  from audit_on_Inr [OF assms] obtain row where "d' = d\<lparr>d_audit := d_audit d @ [row]\<rparr>"
    "au_action row = action" "au_details row = details\<lparr>ad_error := map_option sanitize_error (ad_error details)\<rparr>"
    by blast
  then show ?thesis by (intro bexI [of _ row]) simp_all
qed

lemma audit_on_frame:
  assumes "audit_on P w k action details d = Inr d'"
  shows "d_sources d' = d_sources d" "d_memories d' = d_memories d" "d_history d' = d_history d"
    "d_grants d' = d_grants d" "d_receipts d' = d_receipts d"
    "d_interactions d' = d_interactions d" "d_reports d' = d_reports d"
    "d_consent d' = d_consent d" "d_settings d' = d_settings d" "d_providers d' = d_providers d"
    "d_policy d' = d_policy d" "d_decisions d' = d_decisions d"
    "d_decision_seq d' = d_decision_seq d" "d_journal d' = d_journal d"
    "d_instance d' = d_instance d" "d_clients d' = d_clients d" "d_bindings d' = d_bindings d"
    "d_requests d' = d_requests d" "d_threads d' = d_threads d" "d_turns d' = d_turns d"
  using audit_on_Inr [OF assms] by auto

lemma audit_on_distinct:
  "audit_on P w k action details d = Inr d' \<Longrightarrow> distinct (map au_id (d_audit d)) \<Longrightarrow>
   distinct (map au_id (d_audit d'))"
  by (auto dest!: audit_on_Inr)

lemma sanitize_error_code: "sanitize_error e \<in> set error_codes"
  by (auto simp: sanitize_error_def error_codes_def)

text \<open>Identifiers are short and of the closed alphabet.\<close>

lemma valid_identifier_Inr: "valid_identifier v = Inr u \<longleftrightarrow>
    v \<noteq> [] \<and> length v \<le> 128 \<and> (\<forall>c \<in> set v. ascii_alphanumeric c \<or> c \<in> set ''-_.:'')"
  by (auto simp: valid_identifier_def ensure_def list_all_iff)

text \<open>What closed examples unfold to evaluate an audit.\<close>

lemma i64_max_eq: "i64_max = 9223372036854775807"
  by (simp add: i64_max_def)

lemmas demo_audit =
  audited_def audit_on_def audit_checks_def valid_action_def audit_actions_def valid_identifier_def
  ascii_alphanumeric_def ascii_digit_def ascii_upper_def ascii_lower_def entity_def no_details_def
  opt_check_def opt_all_def metric_def journal_timestamp_def i64_max_eq t_insert_def Let_def
  rbind_def ensure_def is_ok_def List.member_iff

end
