(* ===== verification/Config.thy ===== *)
theory Config
  imports Policy
begin

text \<open>
  \<open>crates/omni-core/src/config.rs\<close>: the pairing gate, provider URLs, secrets on disk and the
  configuration read from the environment.
\<close>

section \<open>Pairing\<close>

text \<open>The gate holds at most one ticket: the digest of the secret and its expiry (a monotonic
  instant in nanoseconds).\<close>

record ticket =
  tk_hash :: string
  tk_expires :: int

type_synonym gate = "ticket option"

definition pairing_lifetime :: int where "pairing_lifetime = 120 * 1000000000"

definition pairing_bytes :: "platform \<Rightarrow> string \<Rightarrow> string option" where
  "pairing_bytes P secret = (if length secret \<noteq> 64 then None else hex_decode P secret)"

definition from_secret :: "platform \<Rightarrow> string option \<Rightarrow> int \<Rightarrow> gate res" where
  "from_secret P secret started =
     (case secret of
        None \<Rightarrow> Inr None
      | Some s \<Rightarrow>
          rbind (ok_or (pairing_bytes P s)
            (Bail ''OMNI_PAIRING_SECRET must encode exactly 32 random bytes as 64 hexadecimal characters'')) (\<lambda>bytes.
          Inr (Some \<lparr>tk_hash = sha256_hex P bytes, tk_expires = started + pairing_lifetime\<rparr>)))"

definition claim :: "platform \<Rightarrow> int \<Rightarrow> string \<Rightarrow> gate \<Rightarrow> bool \<times> gate" where
  "claim P now candidate g =
     (case pairing_bytes P candidate of
        None \<Rightarrow> (False, g)
      | Some bytes \<Rightarrow>
          (case g of
             None \<Rightarrow> (False, None)
           | Some pending \<Rightarrow>
               if tk_expires pending \<le> now then (False, None)
               else if tk_hash pending = sha256_hex P bytes then (True, None)
               else (False, Some pending)))"

section \<open>URLs\<close>

definition url_is_loopback :: "platform \<Rightarrow> url \<Rightarrow> bool" where
  "url_is_loopback P u =
     (case u_host u of
        None \<Rightarrow> False
      | Some h \<Rightarrow>
          (let host = trim_end_char (CHR '']'') (trim_start_char (CHR ''['') h)
           in host = ''localhost'' \<or> ip_loopback P host))"

definition is_loopback_url :: "platform \<Rightarrow> string \<Rightarrow> bool" where
  "is_loopback_url P base = (case url_parse P base of None \<Rightarrow> False | Some u \<Rightarrow> url_is_loopback P u)"

definition normalize_base :: "platform \<Rightarrow> string \<Rightarrow> string res" where
  "normalize_base P raw =
     rbind (ok_or (url_parse P (trim raw)) (Decode ''url'')) (\<lambda>u.
     rbind (ensure (\<not> (u_username u \<noteq> [] \<or> u_password u \<or> u_query u \<or> u_fragment u))
       ''Provider URL cannot contain credentials, query, or fragment'') (\<lambda>_.
     let local = url_is_loopback P u in
     rbind (ensure (\<not> (u_scheme u \<noteq> ''https'' \<and> \<not> (u_scheme u = ''http'' \<and> local)))
       ''Providers require HTTPS; HTTP is allowed only for loopback addresses'') (\<lambda>_.
     Inr (trim_end_char (CHR ''/'') (u_text u)))))"

section \<open>Secrets on disk\<close>

text \<open>A path of the file system: what \<open>symlink_metadata\<close> says, its mode and content; a dangling
  link does not \<open>exist\<close> but cannot be created either.\<close>

record disk_file =
  df_regular :: bool
  df_symlink :: bool
  df_dangling :: bool
  df_mode :: nat
  df_content :: string

type_synonym disk = "string \<Rightarrow> disk_file option"

definition path_exists :: "disk \<Rightarrow> string \<Rightarrow> bool" where
  "path_exists fs path = (case fs path of None \<Rightarrow> False | Some f \<Rightarrow> \<not> df_dangling f)"

definition read_secret :: "nat \<Rightarrow> string \<Rightarrow> disk_file \<Rightarrow> string res" where
  "read_secret n path f =
     rbind (ensure (\<not> (\<not> df_regular f \<or> df_symlink f)) ''Secret path must be a regular file'') (\<lambda>_.
     rbind (ensure (df_mode f mod 64 = 0) (''Secret file permissions must be 0600: '' @ path)) (\<lambda>_.
     rbind (ensure (length (df_content f) = n) (''Invalid secret size for '' @ path)) (\<lambda>_.
     Inr (df_content f))))"

text \<open>\<open>bytes\<close> are the random bytes of the operating system, \<open>n\<close> of them.\<close>

definition load_or_create_secret :: "string \<Rightarrow> string \<Rightarrow> nat \<Rightarrow> disk \<Rightarrow> (string \<times> disk) res" where
  "load_or_create_secret bytes path n fs =
     (if path_exists fs path
      then rbind (ok_or (fs path) (Io ''metadata'')) (\<lambda>f.
           rbind (read_secret n path f) (\<lambda>content. Inr (content, fs)))
      else if fs path \<noteq> None then Inl (Io ''File exists'')
      else Inr (bytes, fs(path \<mapsto> \<lparr>df_regular = True, df_symlink = False, df_dangling = False,
             df_mode = 384, df_content = bytes\<rparr>)))"

definition validate_tokens :: "string \<Rightarrow> string \<Rightarrow> unit res" where
  "validate_tokens owner agent =
     rbind (ensure (owner \<noteq> agent)
       ''Owner and agent tokens must be different; sharing a token removes the permission boundary'') (\<lambda>_.
     ensure (list_all (\<lambda>token. \<not> (trim token \<noteq> token \<or> \<not> list_all ascii_graphic token)) [owner, agent])
       ''Local bearer tokens must contain only visible ASCII characters without spaces'')"

type_synonym environment = "string \<Rightarrow> string option"

definition path_join :: "string \<Rightarrow> string \<Rightarrow> string" where
  "path_join dir name = dir @ ''/'' @ name"

definition load_token ::
    "platform \<Rightarrow> environment \<Rightarrow> string \<Rightarrow> string \<Rightarrow> string \<Rightarrow> string \<Rightarrow> disk \<Rightarrow> (string \<times> disk) res" where
  "load_token P env bytes dir filename env_name fs =
     (case env env_name of
        Some token \<Rightarrow>
          rbind (ensure (\<not> length token < 16) (env_name @ '' must contain at least 16 characters'')) (\<lambda>_.
          Inr (token, fs))
      | None \<Rightarrow>
          rbind (load_or_create_secret bytes (path_join dir filename) 32 fs) (\<lambda>(secret, fs').
          Inr (hex_encode P secret, fs')))"

section \<open>The configuration\<close>

record config =
  cf_managed :: "compiled_policy option"
  cf_data_dir :: string
  cf_port :: nat
  cf_local_token :: string
  cf_agent_token :: string
  cf_pairing :: gate
  cf_llm_base :: string
  cf_llm_model :: string
  cf_llm_key :: string
  cf_anthropic_base :: string
  cf_anthropic_key :: string
  cf_allowlist :: "string list"
  cf_allowlist_enforced :: bool
  cf_origins :: "string list"
  cf_analytics_opt_in :: bool
  cf_simulation :: bool
  cf_key_storage :: string
  cf_socks_proxy :: "string option"
  cf_vpn_required :: bool
  cf_extractor_base :: string
  cf_extractor_model :: string
  cf_analytics_url :: string

definition env_flag :: "environment \<Rightarrow> string \<Rightarrow> bool" where
  "env_flag env name = (case env name of None \<Rightarrow> False | Some s \<Rightarrow> s = ''1'' \<or> s = ''true'')"

definition env_or :: "environment \<Rightarrow> string \<Rightarrow> string \<Rightarrow> string" where
  "env_or env name dflt = (case env name of None \<Rightarrow> dflt | Some s \<Rightarrow> s)"

text \<open>\<open>str::parse::<u16>\<close>: an optional plus sign and decimal digits.\<close>

definition parse_u16 :: "string \<Rightarrow> nat option" where
  "parse_u16 s =
     (let t = (case s of c # cs \<Rightarrow> if c = CHR ''+'' then cs else s | [] \<Rightarrow> [])
      in if t = [] \<or> \<not> list_all ascii_digit t \<or> digits_value t > 65535 then None else Some (digits_value t))"

definition default_origins :: "string list" where
  "default_origins = [''http://localhost:3006'', ''http://127.0.0.1:3006'', ''tauri://localhost'',
     ''http://tauri.localhost'']"

definition data_dir_of :: "environment \<Rightarrow> string" where
  "data_dir_of env = (case env ''OMNI_DATA_DIR'' of Some d \<Rightarrow> d
     | None \<Rightarrow> path_join (env_or env ''HOME'' []) ''.local/share/omni-os'')"

definition allowlist_of :: "platform \<Rightarrow> environment \<Rightarrow> string \<Rightarrow> string \<Rightarrow> string list res" where
  "allowlist_of P env llm anthropic =
     (case env ''OMNI_UPSTREAM_ALLOWLIST'' of
        Some s \<Rightarrow> map_res (normalize_base P) (split_on (CHR '','') s)
      | None \<Rightarrow> Inr [llm, anthropic])"

definition proxy_of :: "platform \<Rightarrow> environment \<Rightarrow> (string option \<times> bool) res" where
  "proxy_of P env =
     (let socks = (case env ''OMNI_SOCKS_PROXY'' of Some s \<Rightarrow> if s = [] then None else Some s | None \<Rightarrow> None);
          required = env_flag env ''OMNI_VPN_REQUIRED''
      in rbind (ensure (\<not> (required \<and> socks = None))
           ''OMNI_VPN_REQUIRED requires OMNI_SOCKS_PROXY; direct remote fallback is forbidden'') (\<lambda>_.
         rbind (case socks of None \<Rightarrow> Inr ()
                | Some proxy \<Rightarrow> rbind (ok_or (url_parse P proxy) (Decode ''url'')) (\<lambda>u.
                    ensure (u_scheme u = ''socks5h'') ''OMNI_SOCKS_PROXY must use socks5h:// for proxy-side DNS'')) (\<lambda>_.
         Inr (socks, required))))"

text \<open>
  \<open>from_env\<close>: \<open>mac\<close> is \<open>cfg!(target_os = "macos")\<close>, \<open>now\<close> the monotonic clock, \<open>w\<close> the random
  draws for the two tokens, \<open>decode\<close> and \<open>policies\<close> what the managed policy's loader reads.
  Creating the data directory and setting its mode is not modelled.
\<close>

definition from_env ::
    "platform \<Rightarrow> bool \<Rightarrow> int \<Rightarrow> draw \<Rightarrow> (string \<Rightarrow> policy_spec option) \<Rightarrow> (string \<Rightarrow> policy_file option)
     \<Rightarrow> environment \<Rightarrow> disk \<Rightarrow> (config \<times> disk) res" where
  "from_env P mac now w decode policies env fs =
     rbind (from_secret P (env ''OMNI_PAIRING_SECRET'') now) (\<lambda>pairing.
     let data_dir = data_dir_of env in
     rbind (normalize_base P (env_or env ''OMNI_LLM_BASE'' ''http://127.0.0.1:11434/v1'')) (\<lambda>llm_base.
     rbind (normalize_base P (env_or env ''OMNI_ANTHROPIC_BASE'' ''https://api.anthropic.com/v1'')) (\<lambda>anthropic_base.
     rbind (allowlist_of P env llm_base anthropic_base) (\<lambda>allowlist.
     rbind (ensure (List.member allowlist llm_base)
       ''OMNI_LLM_BASE must be included in OMNI_UPSTREAM_ALLOWLIST'') (\<lambda>_.
     let origins = default_origins @ (case env ''OMNI_EXTENSION_ORIGIN'' of None \<Rightarrow> [] | Some x \<Rightarrow> [x]);
         key_storage = env_or env ''OMNI_KEY_STORAGE'' (if mac then ''keychain'' else ''file'') in
     rbind (ensure (\<not> (key_storage \<noteq> ''keychain'' \<and> key_storage \<noteq> ''file''))
       ''OMNI_KEY_STORAGE must be keychain or file'') (\<lambda>_.
     rbind (proxy_of P env) (\<lambda>(socks_proxy, vpn_required).
     rbind (normalize_base P (env_or env ''OMNI_EXTRACTOR_BASE'' ''http://127.0.0.1:11434/v1'')) (\<lambda>extractor_base.
     rbind (ensure (is_loopback_url P extractor_base)
       ''Memory extraction is local-only; OMNI_EXTRACTOR_BASE must be loopback'') (\<lambda>_.
     rbind (normalize_base P (env_or env ''OMNI_ANALYTICS_URL'' ''http://127.0.0.1:3008/api/v1/analytics'')) (\<lambda>analytics_url.
     let llm_key = env_or env ''OMNI_LLM_API_KEY''
           (if is_loopback_url P llm_base then [] else env_or env ''OPENAI_API_KEY'' []) in
     rbind (load_token P env (random w 0) data_dir ''local-token'' ''OMNI_LOCAL_TOKEN'' fs) (\<lambda>(local_token, fs1).
     rbind (load_token P env (random w 1) data_dir ''agent-token'' ''OMNI_AGENT_TOKEN'' fs1) (\<lambda>(agent_token, fs2).
     rbind (validate_tokens local_token agent_token) (\<lambda>_.
     rbind (managed_from_env P decode (map_option policies (env ''OMNI_MANAGED_POLICY_FILE''))
       (env ''OMNI_MANAGED_POLICY_SHA256'')) (\<lambda>managed.
     rbind (ok_or (parse_u16 (env_or env ''OMNI_CORE_PORT'' ''3007'')) (Decode ''port'')) (\<lambda>port.
     Inr (\<lparr>cf_managed = managed, cf_data_dir = data_dir, cf_port = port, cf_local_token = local_token,
           cf_agent_token = agent_token, cf_pairing = pairing, cf_llm_base = llm_base,
           cf_llm_model = env_or env ''OMNI_LLM_MODEL'' ''qwen3:0.6b'', cf_llm_key = llm_key,
           cf_anthropic_base = anthropic_base, cf_anthropic_key = env_or env ''ANTHROPIC_API_KEY'' [],
           cf_allowlist = allowlist, cf_allowlist_enforced = (env ''OMNI_UPSTREAM_ALLOWLIST'' \<noteq> None),
           cf_origins = origins, cf_analytics_opt_in = env_flag env ''OMNI_ANALYTICS_OPT_IN'',
           cf_simulation = env_flag env ''OMNI_SIMULATION'', cf_key_storage = key_storage,
           cf_socks_proxy = socks_proxy, cf_vpn_required = vpn_required,
           cf_extractor_base = extractor_base,
           cf_extractor_model = env_or env ''OMNI_EXTRACTOR_MODEL'' ''qwen3:0.6b'',
           cf_analytics_url = analytics_url\<rparr>, fs2))))))))))))))))"

text \<open>\<open>load_vault_key\<close> with the file back end; the macOS keychain is outside the model.\<close>

definition load_vault_key_file :: "draw \<Rightarrow> config \<Rightarrow> disk \<Rightarrow> (string \<times> disk) res" where
  "load_vault_key_file w cfg fs =
     (if path_exists fs (path_join (cf_data_dir cfg) ''vault.db'')
          \<and> \<not> path_exists fs (path_join (cf_data_dir cfg) ''vault.key'')
      then Inl (Bail ''Vault exists but its development key file is missing; restore the original key'')
      else load_or_create_secret (random w 0) (path_join (cf_data_dir cfg) ''vault.key'') 32 fs)"

section \<open>The gate is single use\<close>

definition claim_step :: "platform \<Rightarrow> int \<times> string \<Rightarrow> gate \<Rightarrow> gate" where
  "claim_step P x g = snd (claim P (fst x) (snd x) g)"

lemma claim_closed: "claim P now c None = (False, None)"
  by (simp add: claim_def split: option.splits)

interpretation closed_gate: op_invariant "claim_step P" "\<lambda>g. g = None" for P
  by unfold_locales (simp add: claim_step_def claim_closed)

lemma claim_True:
  assumes "claim P now c g = (True, g')"
  shows "g' = None \<and> (\<exists>t bytes. g = Some t \<and> now < tk_expires t \<and> pairing_bytes P c = Some bytes
     \<and> tk_hash t = sha256_hex P bytes)"
  using assms by (auto simp: claim_def split: option.splits if_splits)

fun claims :: "platform \<Rightarrow> (int \<times> string) list \<Rightarrow> gate \<Rightarrow> bool list" where
  "claims P [] g = []"
| "claims P ((now, c) # xs) g = fst (claim P now c g) # claims P xs (snd (claim P now c g))"

lemma claims_closed: "claims P xs None = replicate (length xs) False"
  by (induction P xs "None :: gate" rule: claims.induct) (simp_all add: claim_closed)

lemma claims_at_most_one: "length (filter id (claims P xs g)) \<le> 1"
proof (induction P xs g rule: claims.induct)
  case (2 P now c xs g)
  obtain b g' where c: "claim P now c g = (b, g')" by (cases "claim P now c g")
  show ?case
  proof (cases b)
    case True
    with claim_True [of P now c g g'] c have "g' = None" by simp
    with c True show ?thesis by (simp add: claims_closed)
  next
    case False
    with 2 c show ?thesis by simp
  qed
qed simp

section \<open>Properties\<close>

definition demo_ticket :: ticket where
  "demo_ticket = \<lparr>tk_hash = ''#'' @ replicate 64 (CHR ''0''), tk_expires = 100\<rparr>"

text \<open>
  C33: A pairing secret is claimed at most once: of any sequence of claims, at any times, at most
  one succeeds, and one succeeds only before the ticket's expiry and with the secret whose
  digest the gate holds.
\<close>

theorem pairing_is_single_use:
  "length (filter id (claims P xs g)) \<le> 1
   \<and> (\<forall>now c. fst (claim P now c g) \<longrightarrow> (\<exists>t bytes. g = Some t \<and> now < tk_expires t
        \<and> pairing_bytes P c = Some bytes \<and> tk_hash t = sha256_hex P bytes))"
proof -
  have "\<exists>t bytes. g = Some t \<and> now < tk_expires t \<and> pairing_bytes P c = Some bytes
      \<and> tk_hash t = sha256_hex P bytes" if "fst (claim P now c g)" for now c
    using claim_True [of P now c g "snd (claim P now c g)"] that by (cases "claim P now c g") auto
  then show ?thesis by (intro conjI allI impI claims_at_most_one)
qed

theorem pairing_is_single_use_witness:
  "fst (claim demo_platform 5 (replicate 64 (CHR ''0'')) (Some demo_ticket))
   \<and> (\<exists>t. Some demo_ticket = Some t \<and> 5 < tk_expires t)"
proof -
  have c: "fst (claim demo_platform 5 (replicate 64 (CHR ''0'')) (Some demo_ticket))"
    by (simp add: claim_def pairing_bytes_def demo_platform_def demo_ticket_def list_all_iff
        ascii_hexdigit_def ascii_digit_def)
  with pairing_is_single_use [of demo_platform "[]" "Some demo_ticket"] show ?thesis by blast
qed

text \<open>What a normalised base URL is.\<close>

lemma normalize_base_Inr:
  assumes "normalize_base P raw = Inr base"
  shows "\<exists>u. url_parse P (trim raw) = Some u \<and> base = trim_end_char (CHR ''/'') (u_text u)
     \<and> u_username u = [] \<and> \<not> u_password u \<and> \<not> u_query u \<and> \<not> u_fragment u
     \<and> (u_scheme u = ''https'' \<or> (u_scheme u = ''http'' \<and> url_is_loopback P u))"
  using assms by (auto simp: normalize_base_def res_simps Let_def)

lemma load_or_create_Inr:
  assumes "load_or_create_secret bytes path n fs = Inr (secret, fs')"
  shows "(\<exists>f. fs path = Some f \<and> \<not> df_dangling f \<and> read_secret n path f = Inr secret \<and> fs' = fs)
     \<or> (fs path = None \<and> secret = bytes \<and> fs' = fs(path \<mapsto> \<lparr>df_regular = True, df_symlink = False,
          df_dangling = False, df_mode = 384, df_content = bytes\<rparr>))"
  using assms
  by (auto simp: load_or_create_secret_def path_exists_def res_simps split: option.splits if_splits)

lemma proxy_of_Inr:
  assumes "proxy_of P env = Inr (socks, required)"
  shows "(required \<longrightarrow> socks \<noteq> None)
     \<and> (\<forall>p. socks = Some p \<longrightarrow> (\<exists>u. url_parse P p = Some u \<and> u_scheme u = ''socks5h''))"
  using assms unfolding proxy_of_def Let_def
  by (auto simp: rbind_eq_Inr ensure_eq_Inr ok_or_eq_Inr split: option.splits if_splits)

lemma validate_tokens_Inr:
  "validate_tokens owner agent = Inr u \<longleftrightarrow> owner \<noteq> agent
     \<and> trim owner = owner \<and> trim agent = agent \<and> (\<forall>c \<in> set owner \<union> set agent. ascii_graphic c)"
  by (auto simp: validate_tokens_def res_simps list_all_iff)

lemma from_env_Inr:
  assumes "from_env P mac now w decode policies env fs = Inr (cfg, fs')"
  shows "normalize_base P (env_or env ''OMNI_LLM_BASE'' ''http://127.0.0.1:11434/v1'') = Inr (cf_llm_base cfg)
     \<and> cf_llm_base cfg \<in> set (cf_allowlist cfg)
     \<and> allowlist_of P env (cf_llm_base cfg) (cf_anthropic_base cfg) = Inr (cf_allowlist cfg)
     \<and> normalize_base P (env_or env ''OMNI_ANTHROPIC_BASE'' ''https://api.anthropic.com/v1'') = Inr (cf_anthropic_base cfg)
     \<and> proxy_of P env = Inr (cf_socks_proxy cfg, cf_vpn_required cfg)
     \<and> is_loopback_url P (cf_extractor_base cfg)
     \<and> (cf_key_storage cfg = ''keychain'' \<or> cf_key_storage cfg = ''file'')
     \<and> validate_tokens (cf_local_token cfg) (cf_agent_token cfg) = Inr ()"
  using assms unfolding from_env_def Let_def
  by (simp only: rbind_eq_Inr ensure_eq_Inr ok_or_eq_Inr List.member_iff split_paired_Ex prod.case
      sum.inject prod.inject) (elim exE conjE, (drule sym)?, clarsimp)

lemma map_res_all: "map_res f xs = Inr ys \<Longrightarrow> (\<And>x y. f x = Inr y \<Longrightarrow> Q y) \<Longrightarrow> y \<in> set ys \<Longrightarrow> Q y"
  by (auto dest: map_res_set)

text \<open>A base URL the core may contact: it is the normal form of a URL without credentials, query
  or fragment that is HTTPS, or HTTP to a loopback host.\<close>

definition safe_base :: "platform \<Rightarrow> string \<Rightarrow> bool" where
  "safe_base P base \<longleftrightarrow> (\<exists>raw u. url_parse P raw = Some u \<and> base = trim_end_char (CHR ''/'') (u_text u)
     \<and> u_username u = [] \<and> \<not> u_password u \<and> \<not> u_query u \<and> \<not> u_fragment u
     \<and> (u_scheme u = ''https'' \<or> (u_scheme u = ''http'' \<and> url_is_loopback P u)))"

lemma normalize_base_safe: "normalize_base P raw = Inr base \<Longrightarrow> safe_base P base"
  unfolding safe_base_def by (drule normalize_base_Inr) blast

lemma allowlist_safe:
  assumes "allowlist_of P env llm an = Inr al" "safe_base P llm" "safe_base P an" "b \<in> set al"
  shows "safe_base P b"
proof (cases "env ''OMNI_UPSTREAM_ALLOWLIST''")
  case None
  with assms show ?thesis by (auto simp: allowlist_of_def)
next
  case (Some s)
  with assms(1) have "map_res (normalize_base P) (split_on (CHR '','') s) = Inr al"
    by (simp add: allowlist_of_def)
  from map_res_all [OF this _ assms(4)] normalize_base_safe show ?thesis by blast
qed

text \<open>
  A configuration the core starts with keeps its boundaries: every upstream it may contact
  is HTTPS or loopback, the model's base is on the allowlist, memory extraction stays on this
  machine, a required VPN comes with a socks5h proxy, and the owner's and the agent's tokens
  differ and are visible ASCII.
\<close>

theorem configuration_is_safe:
  assumes "from_env P mac now w decode policies env fs = Inr (cfg, fs')"
  shows "(\<forall>b \<in> set (cf_allowlist cfg). safe_base P b) \<and> cf_llm_base cfg \<in> set (cf_allowlist cfg)
     \<and> safe_base P (cf_anthropic_base cfg) \<and> is_loopback_url P (cf_extractor_base cfg)
     \<and> (cf_vpn_required cfg \<longrightarrow> (\<exists>p u. cf_socks_proxy cfg = Some p \<and> url_parse P p = Some u
          \<and> u_scheme u = ''socks5h''))
     \<and> cf_local_token cfg \<noteq> cf_agent_token cfg
     \<and> (\<forall>c \<in> set (cf_local_token cfg) \<union> set (cf_agent_token cfg). ascii_graphic c)"
proof -
  note e = from_env_Inr [OF assms]
  then have llm: "safe_base P (cf_llm_base cfg)" and an: "safe_base P (cf_anthropic_base cfg)"
    using normalize_base_safe by blast+
  have "\<forall>b \<in> set (cf_allowlist cfg). safe_base P b"
    using e allowlist_safe [OF _ llm an] by blast
  moreover have "cf_vpn_required cfg \<longrightarrow> (\<exists>p u. cf_socks_proxy cfg = Some p \<and> url_parse P p = Some u
      \<and> u_scheme u = ''socks5h'')"
    using e proxy_of_Inr [of P env "cf_socks_proxy cfg" "cf_vpn_required cfg"]
    by (cases "cf_socks_proxy cfg") auto
  ultimately show ?thesis using e an by (simp add: validate_tokens_Inr)
qed

definition demo_env :: environment where
  "demo_env = [''OMNI_LOCAL_TOKEN'' \<mapsto> ''owner-token-0123'', ''OMNI_AGENT_TOKEN'' \<mapsto> ''agent-token-0123'',
     ''OMNI_VPN_REQUIRED'' \<mapsto> ''1'', ''OMNI_SOCKS_PROXY'' \<mapsto> ''socks5h://127.0.0.1:1080'']"

lemma demo_config:
  "\<exists>cfg fs. from_env demo_platform False 0 (demo_draw 1 ''r'') (\<lambda>_. None) (\<lambda>_. None) demo_env Map.empty
     = Inr (cfg, fs) \<and> cf_vpn_required cfg"
proof -
  have t: "trim ''http://127.0.0.1:11434/v1'' = ''http://127.0.0.1:11434/v1''"
    "trim ''https://api.anthropic.com/v1'' = ''https://api.anthropic.com/v1''"
    "trim ''http://127.0.0.1:3008/api/v1/analytics'' = ''http://127.0.0.1:3008/api/v1/analytics''"
    "trim ''owner-token-0123'' = ''owner-token-0123''" "trim ''agent-token-0123'' = ''agent-token-0123''"
    by (simp_all add: trim_def trim_start_def trim_end_def strip_with.simps white_space_def)
  have g: "list_all ascii_graphic ''owner-token-0123''" "list_all ascii_graphic ''agent-token-0123''"
    by (simp_all add: ascii_graphic_def)
  have p: "parse_u16 ''3007'' = Some 3007"
    by (simp add: parse_u16_def ascii_digit_def digits_value_def)
  have n: "normalize_base demo_platform ''http://127.0.0.1:11434/v1'' = Inr ''http://127.0.0.1:11434/v1''"
    "normalize_base demo_platform ''https://api.anthropic.com/v1'' = Inr ''https://api.anthropic.com/v1''"
    "normalize_base demo_platform ''http://127.0.0.1:3008/api/v1/analytics''
      = Inr ''http://127.0.0.1:3008/api/v1/analytics''"
    by (simp_all add: normalize_base_def t demo_platform_def url_is_loopback_def trim_end_char_def
        trim_start_char_def)
  have l: "is_loopback_url demo_platform ''http://127.0.0.1:11434/v1''"
    by (simp add: is_loopback_url_def demo_platform_def url_is_loopback_def trim_end_char_def
        trim_start_char_def)
  have x: "proxy_of demo_platform demo_env = Inr (Some ''socks5h://127.0.0.1:1080'', True)"
    by (simp add: proxy_of_def demo_env_def env_flag_def demo_platform_def)
  have v: "validate_tokens ''owner-token-0123'' ''agent-token-0123'' = Inr ()"
    using t g by (simp add: validate_tokens_def)
  show ?thesis
    by (simp add: from_env_def from_secret_def env_or_def demo_env_def [THEN fun_cong] n
        x l v p load_token_def allowlist_of_def List.member_iff managed_from_env_def Let_def)
qed

theorem configuration_is_safe_witness:
  "\<exists>cfg fs. from_env demo_platform False 0 (demo_draw 1 ''r'') (\<lambda>_. None) (\<lambda>_. None) demo_env Map.empty
      = Inr (cfg, fs) \<and> (\<exists>p u. cf_socks_proxy cfg = Some p \<and> url_parse demo_platform p = Some u
         \<and> u_scheme u = ''socks5h'')"
  using demo_config configuration_is_safe by blast

text \<open>A secret is created once and then stays: whatever loading it returned first is what every
  later load of the same path returns, without another write; an existing file that is not a
  private regular file of the right size is refused and left alone.
\<close>

theorem secrets_are_stable:
  assumes "load_or_create_secret bytes path n fs = Inr (secret, fs1)" and "length bytes = n"
  shows "load_or_create_secret bytes' path n fs1 = Inr (secret, fs1)
     \<and> (path_exists fs path \<longrightarrow> fs1 = fs \<and> (\<exists>f. fs path = Some f \<and> df_regular f \<and> \<not> df_symlink f
          \<and> df_mode f mod 64 = 0 \<and> df_content f = secret \<and> length secret = n))"
  using load_or_create_Inr [OF assms(1)]
proof (elim disjE exE conjE)
  fix f
  assume f: "fs path = Some f" "\<not> df_dangling f" "read_secret n path f = Inr secret" "fs1 = fs"
  then have "load_or_create_secret bytes' path n fs1 = Inr (secret, fs1)"
    by (simp add: load_or_create_secret_def path_exists_def)
  with f show ?thesis by (auto simp: read_secret_def res_simps)
next
  assume "fs path = None" "secret = bytes" "fs1 = fs(path \<mapsto> \<lparr>df_regular = True, df_symlink = False,
          df_dangling = False, df_mode = 384, df_content = bytes\<rparr>)"
  with assms(2) show ?thesis
    by (simp add: load_or_create_secret_def path_exists_def read_secret_def)
qed

theorem secrets_are_stable_witness:
  "load_or_create_secret ''xyzw'' ''/k'' 4 (Map.empty(''/k'' \<mapsto> \<lparr>df_regular = True, df_symlink = False,
     df_dangling = False, df_mode = 384, df_content = ''abcd''\<rparr>))
   = Inr (''abcd'', Map.empty(''/k'' \<mapsto> \<lparr>df_regular = True, df_symlink = False,
     df_dangling = False, df_mode = 384, df_content = ''abcd''\<rparr>))"
proof -
  have c: "load_or_create_secret ''abcd'' ''/k'' 4 Map.empty = Inr (''abcd'', Map.empty(''/k'' \<mapsto>
      \<lparr>df_regular = True, df_symlink = False, df_dangling = False, df_mode = 384, df_content = ''abcd''\<rparr>))"
    by (simp add: load_or_create_secret_def path_exists_def)
  from secrets_are_stable [OF c, of "''xyzw''"] show ?thesis by simp
qed

end
