(* ===== verification/Vault.thy ===== *)
theory Vault
  imports AuditTrail
begin

text \<open>
  \<open>crates/omni-core/src/vault.rs\<close>: memories and their sources, disclosure grants, the
  selection of authorised context, receipts, analytics consent and interaction metrics.
\<close>

section \<open>Values handed out by the vault\<close>

record memory =
  me_id :: string
  me_source_id :: string
  me_content :: string
  me_status :: string
  me_created :: string
  me_updated :: string
  me_source :: string

record grant =
  g_client :: "string option"
  g_id :: string
  g_destination :: string
  g_scope :: "string list"
  g_expires :: string
  g_revoked :: "string option"
  g_created :: string

record receipt =
  re_id :: string
  re_destination :: string
  re_memories :: "string list"
  re_created :: string
  re_grant :: "string option"
  re_status :: string

section \<open>Validation\<close>

definition valid_status :: "string \<Rightarrow> bool" where
  "valid_status status \<longleftrightarrow>
     List.member [''proposed'', ''confirmed'', ''disputed'', ''superseded''] status"

definition check_content :: "string \<Rightarrow> unit res" where
  "check_content s = ensure (\<not> (trim s = [] \<or> length s > 100000))
     ''Memory content must contain 1-100000 bytes''"

definition check_source :: "string \<Rightarrow> unit res" where
  "check_source source = ensure (\<not> (trim source = [] \<or> length source > 80))
     ''Source kind must contain 1-80 UTF-8 bytes''"

section \<open>Memories\<close>

definition memory_row_view :: "db \<Rightarrow> memory_row \<Rightarrow> memory option" where
  "memory_row_view d m =
     map_option (\<lambda>s. \<lparr>me_id = m_id m, me_source_id = m_source m, me_content = m_content m,
        me_status = m_status m, me_created = m_created m, me_updated = m_updated m,
        me_source = s_kind s\<rparr>)
       (t_find s_id (m_source m) (d_sources d))"

definition memories :: "db \<Rightarrow> memory list" where
  "memories d = order_desc me_created (List.map_filter (memory_row_view d) (d_memories d))"

text \<open>INSERT INTO memories: primary key, CHECK on the status, foreign key to the source.\<close>

definition insert_memory :: "memory_row \<Rightarrow> db \<Rightarrow> db res" where
  "insert_memory m d =
     rbind (t_insert m_id m (d_memories d)) (\<lambda>rows.
       if \<not> valid_status (m_status m) then Inl (Sql ''CHECK constraint failed'')
       else if m_source m \<notin> s_id ` set (d_sources d) then Inl (Sql ''FOREIGN KEY constraint failed'')
       else Inr (d\<lparr>d_memories := rows\<rparr>))"

definition insert_source :: "source_row \<Rightarrow> db \<Rightarrow> db res" where
  "insert_source s d = rbind (t_insert s_id s (d_sources d)) (\<lambda>rows. Inr (d\<lparr>d_sources := rows\<rparr>))"

definition add_memory ::
    "platform \<Rightarrow> draw \<Rightarrow> string \<Rightarrow> string \<Rightarrow> string \<Rightarrow> json \<Rightarrow> db \<Rightarrow> memory tx" where
  "add_memory P w content status source metadata d =
     rbind (check_content content) (\<lambda>_.
     rbind (ensure (valid_status status) ''Invalid memory status'') (\<lambda>_.
     rbind (check_source source) (\<lambda>_.
     let source_id = uuid w 0; i = uuid w 1; timestamp = rfc3339 P (now_at w) in
     rbind (insert_source \<lparr>s_id = source_id, s_kind = source, s_content = content,
         s_metadata = metadata, s_created = timestamp\<rparr> d) (\<lambda>d1.
     rbind (insert_memory \<lparr>m_id = i, m_source = source_id, m_content = content,
         m_status = status, m_created = timestamp, m_updated = timestamp\<rparr> d1) (\<lambda>d2.
     audited P w 2 ''memory_created'' (entity i)
       \<lparr>me_id = i, me_source_id = source_id, me_content = content, me_status = status,
        me_created = timestamp, me_updated = timestamp, me_source = source\<rparr> d2)))))"

definition find_memory :: "string \<Rightarrow> db \<Rightarrow> memory res" where
  "find_memory i d = ok_or (find (\<lambda>m. me_id m = i) (memories d)) (Bail ''Memory not found'')"

definition update_memory ::
    "platform \<Rightarrow> draw \<Rightarrow> string \<Rightarrow> string option \<Rightarrow> string option \<Rightarrow> db \<Rightarrow> memory tx" where
  "update_memory P w i content status d =
     rbind (opt_check check_content content) (\<lambda>_.
     rbind (ensure (opt_all valid_status status) ''Invalid memory status'') (\<lambda>_.
     rbind (find_memory i d) (\<lambda>existing.
     let timestamp = rfc3339 P (now_at w);
         d1 = d\<lparr>d_history := d_history d @ [\<lparr>h_memory = i, h_content = me_content existing,
                  h_status = me_status existing, h_recorded = timestamp\<rparr>]\<rparr>;
         d2 = d1\<lparr>d_memories := t_update m_id i (\<lambda>m. m\<lparr>
                  m_content := (case content of None \<Rightarrow> me_content existing | Some c \<Rightarrow> c),
                  m_status := (case status of None \<Rightarrow> me_status existing | Some st \<Rightarrow> st),
                  m_updated := timestamp\<rparr>) (d_memories d1)\<rparr>
     in rbind (audit_on P w 0 ''memory_updated'' (entity i) d2) (\<lambda>d3.
        rbind (find_memory i d3) (\<lambda>m. Inr (m, d3))))))"

text \<open>Deleting a memory cascades to its history rows; the source goes with its last memory.\<close>

definition delete_memory :: "platform \<Rightarrow> draw \<Rightarrow> string \<Rightarrow> db \<Rightarrow> bool tx" where
  "delete_memory P w i d =
     (case map_option m_source (t_find m_id i (d_memories d)) of
        Some source \<Rightarrow>
          (let d1 = d\<lparr>d_memories := t_delete m_id i (d_memories d),
                      d_history := filter (\<lambda>h. h_memory h \<noteq> i) (d_history d)\<rparr>;
               d2 = (if source \<in> m_source ` set (d_memories d1) then d1
                     else d1\<lparr>d_sources := t_delete s_id source (d_sources d1)\<rparr>)
           in audited P w 0 ''memory_deleted'' (entity i) True d2)
      | None \<Rightarrow> Inr (False, d))"

text \<open>Deleting a source cascades to its memories and through them to their history.\<close>

definition remove_source_rows :: "string \<Rightarrow> db \<Rightarrow> db" where
  "remove_source_rows i d =
     (let gone = m_id ` {m \<in> set (d_memories d). m_source m = i}
      in d\<lparr>d_sources := t_delete s_id i (d_sources d),
           d_memories := filter (\<lambda>m. m_source m \<noteq> i) (d_memories d),
           d_history := filter (\<lambda>h. h_memory h \<notin> gone) (d_history d)\<rparr>)"

definition delete_source :: "platform \<Rightarrow> draw \<Rightarrow> string \<Rightarrow> db \<Rightarrow> bool tx" where
  "delete_source P w i d =
     (let removed = (t_find s_id i (d_sources d) \<noteq> None)
      in if removed then audited P w 0 ''source_deleted'' (entity i) True (remove_source_rows i d)
         else Inr (False, d))"

text \<open>The proposals of a capture, inserted one after the other under one source.\<close>

fun insert_proposals ::
    "platform \<Rightarrow> draw \<Rightarrow> nat \<Rightarrow> string \<Rightarrow> string \<Rightarrow> string list \<Rightarrow> db \<Rightarrow> (memory list) tx" where
  "insert_proposals P w k source_id kind [] d = Inr ([], d)"
| "insert_proposals P w k source_id kind (content # rest) d =
     rbind (check_content content) (\<lambda>_.
     let i = uuid w k; timestamp = rfc3339 P (now_at w) in
     rbind (insert_memory \<lparr>m_id = i, m_source = source_id, m_content = content,
         m_status = ''proposed'', m_created = timestamp, m_updated = timestamp\<rparr> d) (\<lambda>d1.
     rbind (insert_proposals P w (Suc k) source_id kind rest d1) (\<lambda>(ms, d2).
     Inr (\<lparr>me_id = i, me_source_id = source_id, me_content = content, me_status = ''proposed'',
           me_created = timestamp, me_updated = timestamp, me_source = kind\<rparr> # ms, d2))))"

definition add_capture ::
    "platform \<Rightarrow> draw \<Rightarrow> string \<Rightarrow> string \<Rightarrow> json \<Rightarrow> string list \<Rightarrow> db \<Rightarrow> (string \<times> memory list) tx" where
  "add_capture P w raw kind metadata proposals d =
     rbind (check_content raw) (\<lambda>_.
     rbind (check_source kind) (\<lambda>_.
     rbind (ensure (length proposals \<le> 5) ''At most five capture proposals are allowed'') (\<lambda>_.
     let source_id = uuid w 0 in
     rbind (insert_source \<lparr>s_id = source_id, s_kind = kind, s_content = raw,
         s_metadata = metadata, s_created = rfc3339 P (now_at w)\<rparr> d) (\<lambda>d1.
     rbind (insert_proposals P w 2 source_id kind proposals d1) (\<lambda>(ms, d2).
     audited P w 1 ''capture_saved''
       ((entity source_id)\<lparr>ad_count := Some (length ms)\<rparr>) (source_id, ms) d2)))))"

section \<open>Grants\<close>

definition second :: int where "second = 1000000000"

definition create_grant ::
    "platform \<Rightarrow> draw \<Rightarrow> string \<Rightarrow> string list \<Rightarrow> int \<Rightarrow> db \<Rightarrow> grant tx" where
  "create_grant P w destination scope seconds d =
     rbind (ensure (1 \<le> seconds \<and> seconds \<le> 86400)
       ''Grant lifetime must be 1-86400 seconds'') (\<lambda>_.
     rbind (ensure (\<not> (scope = [] \<or> length scope > 128))
       ''Grant scope must contain 1-128 memory IDs, or *'') (\<lambda>_.
     rbind (ensure (\<not> (List.member scope ''*'' \<and> length scope \<noteq> 1))
       ''Wildcard scope must stand alone'') (\<lambda>_.
     rbind (ensure (list_all (\<lambda>i. i = ''*'' \<or> list_ex (\<lambda>m. me_id m = i) (memories d)) scope)
       ''Grant references a missing memory'') (\<lambda>_.
     let g = \<lparr>g_client = None, g_id = uuid w 0, g_destination = destination, g_scope = scope,
              g_expires = rfc3339 P (now_at w + seconds * second), g_revoked = None,
              g_created = rfc3339 P (now_at w)\<rparr>
     in rbind (t_insert gr_id \<lparr>gr_id = g_id g, gr_destination = g_destination g,
          gr_scope = Some (g_scope g), gr_expires = g_expires g, gr_revoked = None,
          gr_created = g_created g\<rparr> (d_grants d)) (\<lambda>rows.
        audited P w 1 ''grant_created'' (entity (g_id g)) g (d\<lparr>d_grants := rows\<rparr>))))))"

definition grant_view :: "db \<Rightarrow> grant_row \<Rightarrow> grant" where
  "grant_view d r =
     \<lparr>g_client = map_option wg_client (t_find wg_grant (gr_id r) (d_bindings d)),
      g_id = gr_id r, g_destination = gr_destination r,
      g_scope = (case gr_scope r of None \<Rightarrow> [] | Some sc \<Rightarrow> sc),
      g_expires = gr_expires r, g_revoked = gr_revoked r, g_created = gr_created r\<rparr>"

definition grants :: "db \<Rightarrow> grant list" where
  "grants d = order_desc g_created (map (grant_view d) (d_grants d))"

text \<open>\<open>COALESCE(revoked_at, now)\<close>: the first revocation time stays.\<close>

definition revoke_row :: "string \<Rightarrow> grant_row \<Rightarrow> grant_row" where
  "revoke_row t r = r\<lparr>gr_revoked := (case gr_revoked r of None \<Rightarrow> Some t | Some t' \<Rightarrow> Some t')\<rparr>"

definition revoke :: "platform \<Rightarrow> draw \<Rightarrow> string \<Rightarrow> db \<Rightarrow> bool tx" where
  "revoke P w i d =
     (let affected = (t_find gr_id i (d_grants d) \<noteq> None)
      in if affected
         then audited P w 0 ''grant_revoked'' (entity i) True
                (d\<lparr>d_grants := t_update gr_id i (revoke_row (rfc3339 P (now_at w))) (d_grants d)\<rparr>)
         else Inr (False, d))"

section \<open>Authorised context\<close>

text \<open>The running byte budget of the selection: an entry that does not fit is skipped.\<close>

fun within_budget :: "nat \<Rightarrow> memory list \<Rightarrow> memory list" where
  "within_budget budget [] = []"
| "within_budget budget (m # ms) =
     (if length (me_content m) > budget then within_budget budget ms
      else m # within_budget (budget - length (me_content m)) ms)"

definition authorized_rows :: "string list \<Rightarrow> db \<Rightarrow> memory list" where
  "authorized_rows scope d =
     order_desc me_created (sort_key me_id
       (filter (\<lambda>m. me_status m = ''confirmed'' \<and> (scope = [''*''] \<or> List.member scope (me_id m)))
         (List.map_filter (memory_row_view d) (d_memories d))))"

definition grant_check :: "platform \<Rightarrow> int \<Rightarrow> string \<Rightarrow> string \<Rightarrow> db \<Rightarrow> grant res" where
  "grant_check P now grant_id destination d =
     rbind (ok_or (find (\<lambda>g. g_id g = grant_id) (grants d)) (Bail ''Unknown grant'')) (\<lambda>g.
     rbind (ensure (g_revoked g = None) ''Grant has been revoked'') (\<lambda>_.
     rbind (ok_or (parse_time P (g_expires g)) (Decode ''expires_at'')) (\<lambda>expiry.
     rbind (ensure (now < expiry) ''Grant has expired'') (\<lambda>_.
     rbind (ensure (g_destination g = destination)
       ''Grant does not authorize this destination'') (\<lambda>_.
     Inr g)))))"

definition select_context :: "platform \<Rightarrow> string option \<Rightarrow> memory list \<Rightarrow> memory list" where
  "select_context P query authorized =
     (let q = lowercase P (case query of None \<Rightarrow> [] | Some x \<Rightarrow> x)
      in take 24 (within_budget 12000
           (filter (\<lambda>m. q = [] \<or> contains (lowercase P (me_content m)) q) authorized)))"

definition context_for ::
    "platform \<Rightarrow> int \<Rightarrow> string \<Rightarrow> string \<Rightarrow> string option \<Rightarrow> db \<Rightarrow> memory list res" where
  "context_for P now grant_id destination query d =
     rbind (grant_check P now grant_id destination d) (\<lambda>g.
     Inr (select_context P query (authorized_rows (g_scope g) d)))"

section \<open>Receipts\<close>

definition add_receipt ::
    "platform \<Rightarrow> draw \<Rightarrow> string \<Rightarrow> memory list \<Rightarrow> string option \<Rightarrow> db \<Rightarrow> receipt tx" where
  "add_receipt P w destination ms grant_id d =
     (let r = \<lparr>re_id = uuid w 0, re_destination = destination, re_memories = map me_id ms,
               re_created = rfc3339 P (now_at w), re_grant = grant_id, re_status = ''authorized''\<rparr>
      in rbind (t_insert rc_id \<lparr>rc_id = re_id r, rc_destination = re_destination r,
             rc_memories = Some (re_memories r), rc_created = re_created r, rc_grant = re_grant r,
             rc_status = re_status r\<rparr> (d_receipts d)) (\<lambda>rows.
         Inr (r, d\<lparr>d_receipts := rows\<rparr>)))"

definition current_context_receipt ::
    "platform \<Rightarrow> draw \<Rightarrow> string \<Rightarrow> string \<Rightarrow> memory list \<Rightarrow> db \<Rightarrow> (receipt option) tx" where
  "current_context_receipt P w destination grant_id selected d =
     rbind (context_for P (now_at w) grant_id destination None d) (\<lambda>current.
     rbind (ensure (current = selected)
       ''Memory context changed before sending; review the current memories and retry'') (\<lambda>_.
     if selected = [] then Inr (None, d)
     else rbind (add_receipt P w destination selected (Some grant_id) d) (\<lambda>(r, d').
       Inr (Some r, d'))))"

definition receipt_status :: "string \<Rightarrow> string \<Rightarrow> db \<Rightarrow> db" where
  "receipt_status i status d =
     d\<lparr>d_receipts := t_update rc_id i (\<lambda>r. r\<lparr>rc_status := status\<rparr>) (d_receipts d)\<rparr>"

definition receipts :: "db \<Rightarrow> receipt list" where
  "receipts d = take 100 (order_desc re_created (map (\<lambda>r.
     \<lparr>re_id = rc_id r, re_destination = rc_destination r,
      re_memories = (case rc_memories r of None \<Rightarrow> [] | Some ms \<Rightarrow> ms),
      re_created = rc_created r, re_grant = rc_grant r, re_status = rc_status r\<rparr>) (d_receipts d)))"

section \<open>Consent and interaction metrics\<close>

definition set_consent :: "platform \<Rightarrow> draw \<Rightarrow> bool \<Rightarrow> db \<Rightarrow> unit tx" where
  "set_consent P w enabled d =
     audited P w 0 ''analytics_consent_changed'' (no_details\<lparr>ad_enabled := Some enabled\<rparr>) ()
       (d\<lparr>d_consent := Some (if enabled then ''1'' else ''0'')\<rparr>)"

definition consent :: "bool \<Rightarrow> db \<Rightarrow> bool" where
  "consent dflt d = (case d_consent d of None \<Rightarrow> dflt | Some s \<Rightarrow> s = ''1'')"

record stats =
  st_opt_in :: bool
  st_budget_used :: rat
  st_reports :: nat

definition analytics_stats :: "bool \<Rightarrow> db \<Rightarrow> stats" where
  "analytics_stats dflt d =
     \<lparr>st_opt_in = consent dflt d, st_budget_used = sum_list (map ar_epsilon (d_reports d)),
      st_reports = length (d_reports d)\<rparr>"

definition interaction ::
    "platform \<Rightarrow> draw \<Rightarrow> string \<Rightarrow> nat \<Rightarrow> nat \<Rightarrow> nat \<Rightarrow> bool \<Rightarrow> db \<Rightarrow> string tx" where
  "interaction P w week topic latency tokens success d =
     (let i = uuid w 0
      in rbind (t_insert i_id \<lparr>i_id = i, i_week = week, i_topic = topic, i_latency = latency,
             i_tokens = tokens, i_success = success, i_created = rfc3339 P (now_at w)\<rparr>
             (d_interactions d)) (\<lambda>rows.
         Inr (i, d\<lparr>d_interactions := rows\<rparr>)))"

definition update_interaction_tokens :: "string \<Rightarrow> nat \<Rightarrow> db \<Rightarrow> db" where
  "update_interaction_tokens i tokens d =
     d\<lparr>d_interactions := t_update i_id i (\<lambda>r. r\<lparr>i_tokens := tokens\<rparr>) (d_interactions d)\<rparr>"

definition complete_interaction :: "string \<Rightarrow> nat \<Rightarrow> db \<Rightarrow> db" where
  "complete_interaction i tokens d =
     d\<lparr>d_interactions := t_update i_id i (\<lambda>r. r\<lparr>i_tokens := tokens, i_success := True\<rparr>)
        (d_interactions d)\<rparr>"

definition interaction_count :: "db \<Rightarrow> nat" where
  "interaction_count d = length (d_interactions d)"

section \<open>Well-formed vaults\<close>

text \<open>
  What the schema promises: primary keys are unique, a memory has a valid status and an
  existing source, a history row an existing memory.
\<close>

definition vault_wf :: "db \<Rightarrow> bool" where
  "vault_wf d \<longleftrightarrow>
     distinct (map s_id (d_sources d)) \<and> distinct (map m_id (d_memories d))
   \<and> distinct (map gr_id (d_grants d)) \<and> distinct (map rc_id (d_receipts d))
   \<and> distinct (map i_id (d_interactions d))
   \<and> (\<forall>m \<in> set (d_memories d). valid_status (m_status m) \<and> m_source m \<in> s_id ` set (d_sources d))
   \<and> (\<forall>h \<in> set (d_history d). h_memory h \<in> m_id ` set (d_memories d))"

text \<open>The tables an operation of the vault may change; the rest of the database is framed.\<close>

definition same_vault_tables :: "db \<Rightarrow> db \<Rightarrow> bool" where
  "same_vault_tables d d' \<longleftrightarrow>
     d_sources d' = d_sources d \<and> d_memories d' = d_memories d \<and> d_history d' = d_history d
   \<and> d_grants d' = d_grants d \<and> d_receipts d' = d_receipts d \<and> d_interactions d' = d_interactions d"

lemma vault_wf_same: "same_vault_tables d d' \<Longrightarrow> vault_wf d' = vault_wf d"
  by (simp add: same_vault_tables_def vault_wf_def)

lemma audit_on_same: "audit_on P w k a x d = Inr d' \<Longrightarrow> same_vault_tables d d'"
  by (simp add: same_vault_tables_def audit_on_frame)

lemma audit_on_wf: "audit_on P w k a x d = Inr d' \<Longrightarrow> vault_wf d' = vault_wf d"
  by (rule vault_wf_same [OF audit_on_same])

lemma insert_source_Inr [res_simps]:
  "insert_source s d = Inr d' \<longleftrightarrow>
   s_id s \<notin> s_id ` set (d_sources d) \<and> d' = d\<lparr>d_sources := d_sources d @ [s]\<rparr>"
  by (auto simp: insert_source_def res_simps)

lemma insert_memory_Inr [res_simps]:
  "insert_memory m d = Inr d' \<longleftrightarrow>
   m_id m \<notin> m_id ` set (d_memories d) \<and> valid_status (m_status m)
   \<and> m_source m \<in> s_id ` set (d_sources d) \<and> d' = d\<lparr>d_memories := d_memories d @ [m]\<rparr>"
  by (auto simp: insert_memory_def res_simps split: if_splits)

lemma insert_source_wf: "insert_source s d = Inr d' \<Longrightarrow> vault_wf d \<Longrightarrow> vault_wf d'"
  by (auto simp: res_simps vault_wf_def)

lemma insert_memory_wf: "insert_memory m d = Inr d' \<Longrightarrow> vault_wf d \<Longrightarrow> vault_wf d'"
  by (auto simp: res_simps vault_wf_def)

lemma add_memory_wf:
  "add_memory P w content status source metadata d = Inr (m, d') \<Longrightarrow> vault_wf d \<Longrightarrow> vault_wf d'"
  unfolding add_memory_def Let_def
  by (auto simp: rbind_eq_Inr audited_Inr audit_on_wf dest!: insert_source_wf insert_memory_wf)

lemma update_rows_wf:
  assumes "vault_wf d" and "m_id m = i" "m \<in> set (d_memories d)"
    and "\<And>r. m_id (f r) = m_id r" "\<And>r. m_source (f r) = m_source r"
    and "\<And>r. valid_status (m_status r) \<Longrightarrow> valid_status (m_status (f r))" and "h_memory h = i"
  shows "vault_wf (d\<lparr>d_history := d_history d @ [h], d_memories := t_update m_id i f (d_memories d)\<rparr>)"
proof -
  have ids: "map m_id (t_update m_id i f (d_memories d)) = map m_id (d_memories d)"
    by (rule t_update_keys) (rule assms(4))
  have "m_id ` set (t_update m_id i f (d_memories d)) = m_id ` set (d_memories d)"
    using arg_cong [OF ids, of set] by simp
  moreover have "\<forall>r \<in> set (t_update m_id i f (d_memories d)).
      valid_status (m_status r) \<and> m_source r \<in> s_id ` set (d_sources d)"
    using assms(1,5,6) by (auto simp: vault_wf_def t_update_def)
  ultimately show ?thesis
    using assms(1,2,3,7) unfolding vault_wf_def by (simp add: ids) (auto simp: image_iff)
qed

lemma memories_member: "m \<in> set (memories d) \<longleftrightarrow> (\<exists>r \<in> set (d_memories d). memory_row_view d r = Some m)"
  by (simp add: memories_def set_map_filter)

lemma memory_row_view_Some:
  "memory_row_view d r = Some m \<Longrightarrow> me_id m = m_id r \<and> me_content m = m_content r
     \<and> me_status m = m_status r \<and> me_source_id m = m_source r"
  by (auto simp: memory_row_view_def)

lemma find_memory_Inr:
  assumes "find_memory i d = Inr m"
  shows "\<exists>r \<in> set (d_memories d). m_id r = i \<and> me_id m = i
     \<and> me_content m = m_content r \<and> me_status m = m_status r \<and> me_source_id m = m_source r"
proof -
  from assms have "m \<in> set (memories d)" and i: "me_id m = i"
    by (auto simp: find_memory_def res_simps dest: find_SomeD)
  then obtain r where "r \<in> set (d_memories d)" "memory_row_view d r = Some m"
    by (auto simp: memories_member)
  with i show ?thesis using memory_row_view_Some by metis
qed

lemma update_memory_wf:
  assumes "update_memory P w i content status d = Inr (m, d')" and wf: "vault_wf d"
  shows "vault_wf d'"
proof -
  from assms(1) obtain existing d3 where st: "opt_all valid_status status"
    and ex: "find_memory i d = Inr existing"
    and au: "audit_on P w 0 ''memory_updated'' (entity i)
      (d\<lparr>d_history := d_history d @ [\<lparr>h_memory = i, h_content = me_content existing,
            h_status = me_status existing, h_recorded = rfc3339 P (now_at w)\<rparr>],
         d_memories := t_update m_id i (\<lambda>m. m\<lparr>
            m_content := (case content of None \<Rightarrow> me_content existing | Some c \<Rightarrow> c),
            m_status := (case status of None \<Rightarrow> me_status existing | Some st \<Rightarrow> st),
            m_updated := rfc3339 P (now_at w)\<rparr>) (d_memories d)\<rparr>) = Inr d3" (is "audit_on _ _ _ _ _ ?e = _")
    and d3: "d' = d3"
    by (auto simp: update_memory_def Let_def res_simps)
  from find_memory_Inr [OF ex] obtain r where r: "r \<in> set (d_memories d)" "m_id r = i"
    and "me_status existing = m_status r" by auto
  with wf have "valid_status (me_status existing)" by (auto simp: vault_wf_def)
  with st have valid: "valid_status (case status of None \<Rightarrow> me_status existing | Some st \<Rightarrow> st)"
    by (cases status) (auto simp: opt_all_def)
  have "vault_wf ?e"
    by (rule update_rows_wf [OF wf r(2) r(1)]) (use valid in auto)
  with au d3 show ?thesis by (simp add: audit_on_wf)
qed

lemma delete_memory_wf:
  assumes "delete_memory P w i d = Inr (b, d')" and wf: "vault_wf d"
  shows "vault_wf d'"
proof (cases "t_find m_id i (d_memories d)")
  case None
  with assms show ?thesis by (simp add: delete_memory_def)
next
  case (Some r)
  let ?d1 = "d\<lparr>d_memories := t_delete m_id i (d_memories d),
                d_history := filter (\<lambda>h. h_memory h \<noteq> i) (d_history d)\<rparr>"
  have one: "vault_wf ?d1"
    using wf by (auto simp: vault_wf_def t_delete_distinct table_simps)
  have two: "vault_wf (?d1\<lparr>d_sources := t_delete s_id (m_source r) (d_sources d)\<rparr>)"
    if "m_source r \<notin> m_source ` set (t_delete m_id i (d_memories d))"
    using one that by (auto simp: vault_wf_def t_delete_distinct table_simps image_iff) metis
  from assms(1) Some one two show ?thesis
    by (auto simp: delete_memory_def Let_def res_simps audit_on_wf split: if_splits)
qed

lemma remove_source_wf: "vault_wf d \<Longrightarrow> vault_wf (remove_source_rows i d)"
  by (auto simp: vault_wf_def remove_source_rows_def Let_def t_delete_distinct table_simps
      distinct_map_filter image_iff) metis

lemma delete_source_wf: "delete_source P w i d = Inr (b, d') \<Longrightarrow> vault_wf d \<Longrightarrow> vault_wf d'"
  by (auto simp: delete_source_def Let_def res_simps audit_on_wf remove_source_wf split: if_splits)

lemma insert_proposals_wf:
  "insert_proposals P w k s kind ps d = Inr (ms, d') \<Longrightarrow> vault_wf d \<Longrightarrow> vault_wf d'"
proof (induction P w k s kind ps d arbitrary: ms d' rule: insert_proposals.induct)
  case (2 P w k s kind c rest d)
  then show ?case
    by (auto simp: rbind_eq_Inr Let_def dest!: insert_memory_wf)
qed simp

lemma add_capture_Inr:
  assumes "add_capture P w raw kind metadata ps d = Inr (x, d')"
  shows "\<exists>d1 ms d2. insert_source \<lparr>s_id = uuid w 0, s_kind = kind, s_content = raw,
           s_metadata = metadata, s_created = rfc3339 P (now_at w)\<rparr> d = Inr d1
     \<and> insert_proposals P w 2 (uuid w 0) kind ps d1 = Inr (ms, d2) \<and> x = (uuid w 0, ms)
     \<and> audit_on P w 1 ''capture_saved'' ((entity (uuid w 0))\<lparr>ad_count := Some (length ms)\<rparr>) d2 = Inr d'
     \<and> length ps \<le> 5"
proof -
  from assms obtain d1 y where ins: "insert_source \<lparr>s_id = uuid w 0, s_kind = kind, s_content = raw,
           s_metadata = metadata, s_created = rfc3339 P (now_at w)\<rparr> d = Inr d1"
    and y: "insert_proposals P w 2 (uuid w 0) kind ps d1 = Inr y"
    and rest: "(case y of (ms, d2) \<Rightarrow> audited P w 1 ''capture_saved''
       ((entity (uuid w 0))\<lparr>ad_count := Some (length ms)\<rparr>) (uuid w 0, ms) d2) = Inr (x, d')"
    and le: "length ps \<le> 5"
    unfolding add_capture_def Let_def by (simp only: rbind_eq_Inr ensure_eq_Inr) blast
  obtain ms d2 where "y = (ms, d2)" by (cases y)
  with ins y rest le show ?thesis by (auto simp: audited_Inr)
qed

lemma add_capture_wf:
  assumes "add_capture P w raw kind metadata ps d = Inr (x, d')" and "vault_wf d"
  shows "vault_wf d'"
  using add_capture_Inr [OF assms(1)] assms(2)
  by (blast dest: insert_source_wf insert_proposals_wf audit_on_wf)

lemma vault_wf_grants:
  "vault_wf d \<Longrightarrow> distinct (map gr_id rows) \<Longrightarrow> vault_wf (d\<lparr>d_grants := rows\<rparr>)"
  by (simp add: vault_wf_def)

lemma vault_wf_receipts:
  "vault_wf d \<Longrightarrow> distinct (map rc_id rows) \<Longrightarrow> vault_wf (d\<lparr>d_receipts := rows\<rparr>)"
  by (simp add: vault_wf_def)

lemma vault_wf_interactions:
  "vault_wf d \<Longrightarrow> distinct (map i_id rows) \<Longrightarrow> vault_wf (d\<lparr>d_interactions := rows\<rparr>)"
  by (simp add: vault_wf_def)

lemma vault_wf_consent [simp]: "vault_wf (d\<lparr>d_consent := c\<rparr>) = vault_wf d"
  by (simp add: vault_wf_def)

lemma vault_wf_tables:
  "vault_wf d \<Longrightarrow> distinct (map gr_id (d_grants d))"
  "vault_wf d \<Longrightarrow> distinct (map rc_id (d_receipts d))"
  "vault_wf d \<Longrightarrow> distinct (map i_id (d_interactions d))"
  by (simp_all add: vault_wf_def)

text \<open>What a successful creation of a grant inserts, and under which conditions.\<close>

lemma create_grant_Inr:
  assumes "create_grant P w destination scope seconds d = Inr (g, d')"
  shows "1 \<le> seconds \<and> seconds \<le> 86400 \<and> scope \<noteq> [] \<and> length scope \<le> 128
     \<and> (''*'' \<in> set scope \<longrightarrow> scope = [''*''])
     \<and> (\<forall>i \<in> set scope. i = ''*'' \<or> i \<in> me_id ` set (memories d))
     \<and> g = \<lparr>g_client = None, g_id = uuid w 0, g_destination = destination, g_scope = scope,
           g_expires = rfc3339 P (now_at w + seconds * second), g_revoked = None,
           g_created = rfc3339 P (now_at w)\<rparr>
     \<and> uuid w 0 \<notin> gr_id ` set (d_grants d)
     \<and> audit_on P w 1 ''grant_created'' (entity (uuid w 0)) (d\<lparr>d_grants := d_grants d @
          [\<lparr>gr_id = uuid w 0, gr_destination = destination, gr_scope = Some scope,
            gr_expires = rfc3339 P (now_at w + seconds * second), gr_revoked = None,
            gr_created = rfc3339 P (now_at w)\<rparr>]\<rparr>) = Inr d'"
proof -
  have wild: "(''*'' \<in> set scope \<longrightarrow> length scope = 1) \<longrightarrow> ''*'' \<in> set scope \<longrightarrow> scope = [''*'']"
    by (cases scope) auto
  show ?thesis
    using assms wild unfolding create_grant_def Let_def
    by (simp only: rbind_eq_Inr ensure_eq_Inr audited_Inr t_insert_Inr grant.simps
        list_all_iff list_ex_iff List.member_iff) (auto simp: image_iff)
qed

lemma create_grant_wf:
  assumes "create_grant P w dest scope n d = Inr (g, d')" and "vault_wf d"
  shows "vault_wf d'"
proof -
  have "distinct (map gr_id (d_grants d))" by (rule vault_wf_tables [OF assms(2)])
  then show ?thesis
    using create_grant_Inr [OF assms(1)] assms(2) by (auto dest!: audit_on_wf intro!: vault_wf_grants)
qed

lemma revoke_row_id [simp]: "gr_id (revoke_row t r) = gr_id r"
  by (simp add: revoke_row_def)

lemma revoke_Inr:
  assumes "revoke P w i d = Inr (b, d')"
  shows "(b \<and> i \<in> gr_id ` set (d_grants d) \<and> audit_on P w 0 ''grant_revoked'' (entity i)
            (d\<lparr>d_grants := t_update gr_id i (revoke_row (rfc3339 P (now_at w))) (d_grants d)\<rparr>) = Inr d')
       \<or> (\<not> b \<and> i \<notin> gr_id ` set (d_grants d) \<and> d' = d)"
proof (cases "t_find gr_id i (d_grants d)")
  case None
  with assms show ?thesis by (simp add: revoke_def t_find_None)
next
  case (Some r)
  then have "i \<in> gr_id ` set (d_grants d)" by (auto dest: t_find_Some)
  with assms Some show ?thesis by (simp add: revoke_def audited_Inr)
qed

lemma revoke_wf: "revoke P w i d = Inr (b, d') \<Longrightarrow> vault_wf d \<Longrightarrow> vault_wf d'"
  by (drule revoke_Inr) (auto simp: audit_on_wf vault_wf_grants vault_wf_tables t_update_keys)

lemma add_receipt_Inr:
  assumes "add_receipt P w destination ms grant_id d = Inr (r, d')"
  shows "r = \<lparr>re_id = uuid w 0, re_destination = destination, re_memories = map me_id ms,
            re_created = rfc3339 P (now_at w), re_grant = grant_id, re_status = ''authorized''\<rparr>
     \<and> uuid w 0 \<notin> rc_id ` set (d_receipts d)
     \<and> d' = d\<lparr>d_receipts := d_receipts d @ [\<lparr>rc_id = uuid w 0, rc_destination = destination,
            rc_memories = Some (map me_id ms), rc_created = rfc3339 P (now_at w),
            rc_grant = grant_id, rc_status = ''authorized''\<rparr>]\<rparr>"
  using assms unfolding add_receipt_def Let_def
  by (simp add: rbind_eq_Inr t_insert_Inr)

lemma add_receipt_wf: "add_receipt P w dest ms g d = Inr (r, d') \<Longrightarrow> vault_wf d \<Longrightarrow> vault_wf d'"
  by (drule add_receipt_Inr) (simp add: vault_wf_receipts vault_wf_tables)

lemma current_context_receipt_Inr:
  assumes "current_context_receipt P w destination grant_id selected d = Inr (r, d')"
  shows "context_for P (now_at w) grant_id destination None d = Inr selected
     \<and> (if selected = [] then r = None \<and> d' = d
        else \<exists>rc. r = Some rc \<and> add_receipt P w destination selected (Some grant_id) d = Inr (rc, d'))"
  using assms by (auto simp: current_context_receipt_def rbind_eq_Inr ensure_eq_Inr split: if_splits)

lemma current_context_receipt_wf:
  "current_context_receipt P w dest g sel d = Inr (r, d') \<Longrightarrow> vault_wf d \<Longrightarrow> vault_wf d'"
  by (drule current_context_receipt_Inr) (auto intro: add_receipt_wf split: if_splits)

lemma set_consent_wf: "set_consent P w b d = Inr (u, d') \<Longrightarrow> vault_wf d \<Longrightarrow> vault_wf d'"
  unfolding set_consent_def audited_Inr by (auto dest: audit_on_wf)

lemma interaction_wf:
  assumes "interaction P w a b c e f d = Inr (x, d')" "vault_wf d"
  shows "vault_wf d'"
  using assms unfolding interaction_def Let_def
  by (auto simp: rbind_eq_Inr t_insert_Inr intro!: vault_wf_interactions dest: vault_wf_tables)

lemma metric_updates_wf:
  "vault_wf (receipt_status i st d) = vault_wf d"
  "vault_wf (update_interaction_tokens i n d) = vault_wf d"
  "vault_wf (complete_interaction i n d) = vault_wf d"
  by (simp_all add: vault_wf_def receipt_status_def update_interaction_tokens_def
      complete_interaction_def t_update_keys)

section \<open>The vault as a state machine\<close>

datatype vault_op =
    AddMemory string string string json
  | UpdateMemory string "string option" "string option"
  | DeleteMemory string
  | DeleteSource string
  | AddCapture string string json "string list"
  | CreateGrant string "string list" int
  | Revoke string
  | AddReceipt string "memory list" "string option"
  | CurrentReceipt string string "memory list"
  | ReceiptStatus string string
  | SetConsent bool
  | Interaction string nat nat nat bool
  | UpdateTokens string nat
  | CompleteInteraction string nat

text \<open>The state after a transaction: unchanged when it failed.\<close>

definition after :: "'a tx \<Rightarrow> db \<Rightarrow> db" where
  "after r d = snd (commit r d)"

lemma after_cases: "P d \<Longrightarrow> (\<And>x d'. r = Inr (x, d') \<Longrightarrow> P d') \<Longrightarrow> P (after r d)"
  by (cases r) (auto simp: after_def commit_def)

fun vault_step :: "platform \<Rightarrow> draw \<times> vault_op \<Rightarrow> db \<Rightarrow> db" where
  "vault_step P (w, AddMemory c st src md) d = after (add_memory P w c st src md d) d"
| "vault_step P (w, UpdateMemory i c st) d = after (update_memory P w i c st d) d"
| "vault_step P (w, DeleteMemory i) d = after (delete_memory P w i d) d"
| "vault_step P (w, DeleteSource i) d = after (delete_source P w i d) d"
| "vault_step P (w, AddCapture raw kind md ps) d = after (add_capture P w raw kind md ps d) d"
| "vault_step P (w, CreateGrant dest scope n) d = after (create_grant P w dest scope n d) d"
| "vault_step P (w, Revoke i) d = after (revoke P w i d) d"
| "vault_step P (w, AddReceipt dest ms g) d = after (add_receipt P w dest ms g d) d"
| "vault_step P (w, CurrentReceipt dest g ms) d = after (current_context_receipt P w dest g ms d) d"
| "vault_step P (w, ReceiptStatus i st) d = receipt_status i st d"
| "vault_step P (w, SetConsent b) d = after (set_consent P w b d) d"
| "vault_step P (w, Interaction wk t l n ok) d = after (interaction P w wk t l n ok d) d"
| "vault_step P (w, UpdateTokens i n) d = update_interaction_tokens i n d"
| "vault_step P (w, CompleteInteraction i n) d = complete_interaction i n d"

lemmas vault_wf_intros =
  add_memory_wf update_memory_wf delete_memory_wf delete_source_wf add_capture_wf create_grant_wf
  revoke_wf add_receipt_wf current_context_receipt_wf set_consent_wf interaction_wf

interpretation vault_machine: op_invariant "vault_step P" vault_wf for P
proof
  fix d x
  assume "vault_wf d"
  then show "vault_wf (vault_step P x d)"
    by (cases "(P, x, d)" rule: vault_step.cases)
      (auto simp: metric_updates_wf intro!: after_cases [where P = vault_wf] intro: vault_wf_intros)
qed


section \<open>What a grant discloses\<close>

lemma within_budget_subseq: "subseq (within_budget b ms) ms"
  by (induction b ms rule: within_budget.induct) auto

lemma within_budget_bound: "sum_list (map (length \<circ> me_content) (within_budget b ms)) \<le> b"
  by (induction b ms rule: within_budget.induct) auto

lemma within_budget_all:
  "sum_list (map (length \<circ> me_content) ms) \<le> b \<Longrightarrow> within_budget b ms = ms"
  by (induction b ms rule: within_budget.induct) auto

lemma sum_list_take_le: "sum_list (take n xs) \<le> sum_list (xs :: nat list)"
  by (metis append_take_drop_id le_add1 sum_list_append)

lemma select_context_bound:
  "sum_list (map (length \<circ> me_content) (select_context P q ms)) \<le> 12000
   \<and> length (select_context P q ms) \<le> 24"
proof -
  have "sum_list (map (length \<circ> me_content) (take 24 (within_budget 12000 xs))) \<le> 12000" for xs
    by (metis sum_list_take_le take_map within_budget_bound order_trans)
  then show ?thesis by (simp add: select_context_def Let_def)
qed

lemma select_context_subseq: "subseq (select_context P q ms) ms"
  unfolding select_context_def Let_def
  by (meson subseq_filter_left subseq_order.trans within_budget_subseq prefix_imp_subseq take_is_prefix)

lemma select_context_set: "m \<in> set (select_context P q ms) \<Longrightarrow> m \<in> set ms"
  using select_context_subseq by (metis subset_eq list_emb_set notin_set_nthsI subseq_conv_nths)

lemma authorized_rows_set:
  "m \<in> set (authorized_rows scope d) \<longleftrightarrow>
   (\<exists>r \<in> set (d_memories d). memory_row_view d r = Some m) \<and> me_status m = ''confirmed''
   \<and> (scope = [''*''] \<or> me_id m \<in> set scope)"
  by (auto simp: authorized_rows_def set_map_filter)

lemma grants_member:
  "g \<in> set (grants d) \<longleftrightarrow> (\<exists>r \<in> set (d_grants d). g = grant_view d r)"
  by (auto simp: grants_def)

lemma grant_check_Inr:
  assumes "grant_check P now i destination d = Inr g"
  shows "\<exists>r \<in> set (d_grants d). g = grant_view d r \<and> gr_id r = i \<and> gr_revoked r = None
     \<and> gr_destination r = destination
     \<and> (\<exists>expiry. parse_time P (gr_expires r) = Some expiry \<and> now < expiry)"
proof -
  from assms obtain expiry where f: "find (\<lambda>g. g_id g = i) (grants d) = Some g"
    and rest: "g_revoked g = None" "parse_time P (g_expires g) = Some expiry" "now < expiry"
      "g_destination g = destination"
    unfolding grant_check_def by (simp only: rbind_eq_Inr ensure_eq_Inr ok_or_eq_Inr) blast
  from find_SomeD [OF f] obtain r where "r \<in> set (d_grants d)" "g = grant_view d r" "g_id g = i"
    by (auto simp: grants_member)
  with rest show ?thesis by (auto simp: grant_view_def)
qed

text \<open>A grant all of whose rows are revoked authorises nothing.\<close>

definition revoked_in :: "string \<Rightarrow> db \<Rightarrow> bool" where
  "revoked_in i d \<longleftrightarrow> i \<in> gr_id ` set (d_grants d)
     \<and> (\<forall>r \<in> set (d_grants d). gr_id r = i \<longrightarrow> gr_revoked r \<noteq> None)"

lemma revoked_grant_check:
  assumes "revoked_in i d"
  shows "grant_check P now i destination d = Inl (Bail ''Grant has been revoked'')"
proof (cases "find (\<lambda>g. g_id g = i) (grants d)")
  case None
  then have "\<forall>g \<in> set (grants d). g_id g \<noteq> i" by (auto simp: find_None_iff)
  with assms show ?thesis by (force simp: revoked_in_def grants_member grant_view_def)
next
  case (Some g)
  from find_SomeD [OF Some] obtain r where "r \<in> set (d_grants d)" "g = grant_view d r" "g_id g = i"
    by (auto simp: grants_member)
  with assms obtain t where "g_revoked g = Some t" by (auto simp: revoked_in_def grant_view_def)
  with Some show ?thesis by (simp add: grant_check_def)
qed

text \<open>No operation of the vault un-revokes a grant.\<close>

lemma revoked_in_grants: "d_grants d' = d_grants d \<Longrightarrow> revoked_in i d' = revoked_in i d"
  by (simp add: revoked_in_def)

lemma audit_on_revoked: "audit_on P w k a x d = Inr d' \<Longrightarrow> revoked_in i d' = revoked_in i d"
  by (rule revoked_in_grants) (rule audit_on_frame)

lemma insert_proposals_grants:
  "insert_proposals P w k s kind ps d = Inr (ms, d') \<Longrightarrow> d_grants d' = d_grants d"
proof (induction P w k s kind ps d arbitrary: ms d' rule: insert_proposals.induct)
  case (2 P w k s kind c rest d)
  then show ?case by (auto simp: rbind_eq_Inr Let_def insert_memory_Inr)
qed simp


lemma revoked_in_append:
  "revoked_in i d \<Longrightarrow> gr_id r \<noteq> i \<Longrightarrow> revoked_in i (d\<lparr>d_grants := d_grants d @ [r]\<rparr>)"
  by (auto simp: revoked_in_def)

lemma revoke_row_revoked: "gr_revoked (revoke_row t r) \<noteq> None"
  by (simp add: revoke_row_def split: option.splits)

lemma revoke_rows_ids: "gr_id ` set (t_update gr_id j (revoke_row t) rows) = gr_id ` set rows"
proof -
  have "map gr_id (t_update gr_id j (revoke_row t) rows) = map gr_id rows"
    by (rule t_update_keys) simp
  then show ?thesis by (metis set_map)
qed

lemma revoked_in_update:
  assumes "revoked_in i d"
  shows "revoked_in i (d\<lparr>d_grants := t_update gr_id j (revoke_row t) (d_grants d)\<rparr>)"
proof -
  have "gr_revoked r \<noteq> None" if "r \<in> set (t_update gr_id j (revoke_row t) (d_grants d))" "gr_id r = i" for r
    using that assms revoke_row_revoked by (auto simp: t_update_def revoked_in_def split: if_splits)
  with assms show ?thesis by (simp add: revoked_in_def revoke_rows_ids)
qed

lemma revoke_rows_revoked:
  assumes "i \<in> gr_id ` set (d_grants d)"
  shows "revoked_in i (d\<lparr>d_grants := t_update gr_id i (revoke_row t) (d_grants d)\<rparr>)"
proof -
  have "gr_revoked r \<noteq> None" if "r \<in> set (t_update gr_id i (revoke_row t) (d_grants d))" "gr_id r = i" for r
    using that revoke_row_revoked by (auto simp: t_update_def split: if_splits)
  with assms show ?thesis by (simp add: revoked_in_def revoke_rows_ids)
qed

lemma revoke_revokes: "revoke P w i d = Inr (True, d') \<Longrightarrow> revoked_in i d'"
  using revoke_Inr [of P w i d True d'] revoke_rows_revoked [of i d] audit_on_revoked by blast

lemma metric_updates_grants:
  "d_grants (receipt_status i st d) = d_grants d"
  "d_grants (update_interaction_tokens i n d) = d_grants d"
  "d_grants (complete_interaction i n d) = d_grants d"
  by (simp_all add: receipt_status_def update_interaction_tokens_def complete_interaction_def)

lemma add_memory_grants: "add_memory P w c st src md d = Inr (m, d') \<Longrightarrow> d_grants d' = d_grants d"
  unfolding add_memory_def Let_def
  by (simp only: rbind_eq_Inr audited_Inr insert_source_Inr insert_memory_Inr)
    (auto simp: audit_on_frame)

lemma update_memory_grants: "update_memory P w i c st d = Inr (m, d') \<Longrightarrow> d_grants d' = d_grants d"
  unfolding update_memory_def Let_def by (simp only: rbind_eq_Inr) (auto simp: audit_on_frame)

lemma delete_memory_grants: "delete_memory P w i d = Inr (b, d') \<Longrightarrow> d_grants d' = d_grants d"
  by (auto simp: delete_memory_def Let_def audited_Inr audit_on_frame split: option.splits if_splits)

lemma delete_source_grants: "delete_source P w i d = Inr (b, d') \<Longrightarrow> d_grants d' = d_grants d"
  by (auto simp: delete_source_def Let_def audited_Inr audit_on_frame remove_source_rows_def
      split: if_splits)

lemma add_capture_grants: "add_capture P w raw k md ps d = Inr (x, d') \<Longrightarrow> d_grants d' = d_grants d"
  by (auto dest!: add_capture_Inr insert_proposals_grants simp: insert_source_Inr audit_on_frame)

lemma receipt_grants:
  "add_receipt P w dest ms g d = Inr (r, d') \<Longrightarrow> d_grants d' = d_grants d"
  "current_context_receipt P w dest i ms d = Inr (x, d') \<Longrightarrow> d_grants d' = d_grants d"
  by (auto dest!: current_context_receipt_Inr add_receipt_Inr split: if_splits)

lemma set_consent_grants: "set_consent P w b d = Inr (u, d') \<Longrightarrow> d_grants d' = d_grants d"
  by (auto simp: set_consent_def audited_Inr audit_on_frame)

lemma interaction_grants: "interaction P w a b c e f d = Inr (x, d') \<Longrightarrow> d_grants d' = d_grants d"
  by (auto simp: interaction_def Let_def rbind_eq_Inr)

lemma create_grant_revoked:
  "create_grant P w dest scope n d = Inr (g, d') \<Longrightarrow> revoked_in i d \<Longrightarrow> revoked_in i d'"
  by (auto dest!: create_grant_Inr simp: audit_on_revoked intro!: revoked_in_append)
    (auto simp: revoked_in_def)

lemma revoke_revoked: "revoke P w j d = Inr (b, d') \<Longrightarrow> revoked_in i d \<Longrightarrow> revoked_in i d'"
  by (auto dest!: revoke_Inr simp: audit_on_revoked revoked_in_update)

lemmas grants_frames =
  add_memory_grants update_memory_grants delete_memory_grants delete_source_grants
  add_capture_grants receipt_grants set_consent_grants interaction_grants

interpretation revocation: op_invariant "vault_step P" "revoked_in i" for P i
proof
  fix d x
  assume "revoked_in i d"
  then show "revoked_in i (vault_step P x d)"
    by (cases "(P, x, d)" rule: vault_step.cases)
      (auto simp: metric_updates_grants revoked_in_grants [OF metric_updates_grants(1)]
        revoked_in_grants [OF metric_updates_grants(2)]
        revoked_in_grants [OF metric_updates_grants(3)]
        intro!: after_cases [where P = "revoked_in i"]
        dest!: grants_frames [THEN revoked_in_grants [where i = i]]
        intro: create_grant_revoked revoke_revoked)
qed

section \<open>Captures do not disclose\<close>

lemma insert_proposals_rows:
  "insert_proposals P w k s kind ps d = Inr (ms, d') \<Longrightarrow>
   \<exists>rows. d' = d\<lparr>d_memories := d_memories d @ rows\<rparr> \<and> (\<forall>r \<in> set rows. m_status r = ''proposed'')
     \<and> length rows = length ps \<and> length ms = length ps"
proof (induction P w k s kind ps d arbitrary: ms d' rule: insert_proposals.induct)
  case (2 P w k s kind c rest d)
  from "2.prems" obtain d1 ms' where one: "insert_memory \<lparr>m_id = uuid w k, m_source = s, m_content = c,
         m_status = ''proposed'', m_created = rfc3339 P (now_at w), m_updated = rfc3339 P (now_at w)\<rparr> d = Inr d1"
    and chk: "check_content c = Inr ()"
    and two: "insert_proposals P w (Suc k) s kind rest d1 = Inr (ms', d')"
    and len: "length ms = Suc (length ms')"
    by (auto simp: rbind_eq_Inr Let_def)
  from "2.IH" [OF refl refl two] obtain rows where rows:
    "d' = d1\<lparr>d_memories := d_memories d1 @ rows\<rparr>" "\<forall>r \<in> set rows. m_status r = ''proposed''"
    "length rows = length rest" "length ms' = length rest" by blast
  show ?case
    by (rule exI [of _ "\<lparr>m_id = uuid w k, m_source = s, m_content = c, m_status = ''proposed'',
          m_created = rfc3339 P (now_at w), m_updated = rfc3339 P (now_at w)\<rparr> # rows"])
      (use rows one len in \<open>simp add: insert_memory_Inr\<close>)
qed simp

lemma map_filter_append: "List.map_filter f (xs @ ys) = List.map_filter f xs @ List.map_filter f ys"
  by (simp add: List.map_filter_def)

lemma map_filter_cong: "(\<And>x. x \<in> set xs \<Longrightarrow> f x = g x) \<Longrightarrow> List.map_filter f xs = List.map_filter g xs"
  by (induction xs) (auto simp: List.map_filter_simps split: option.splits)

lemma unconfirmed_filter:
  assumes "\<forall>r \<in> set rows. m_status r \<noteq> ''confirmed''"
  shows "filter (\<lambda>m. me_status m = ''confirmed'' \<and> p m) (List.map_filter (memory_row_view d) rows) = []"
  using assms memory_row_view_Some by (fastforce simp: filter_empty_conv set_map_filter)

text \<open>New sources and unconfirmed memories leave the authorised rows of every scope alone.\<close>

lemma authorized_rows_extend:
  assumes wf: "vault_wf d" and src: "s_id s \<notin> s_id ` set (d_sources d)"
    and rows: "\<forall>r \<in> set rows. m_status r \<noteq> ''confirmed''"
    and d': "d_sources d' = d_sources d @ [s]" "d_memories d' = d_memories d @ rows"
  shows "authorized_rows scope d' = authorized_rows scope d"
proof -
  have "memory_row_view d' r = memory_row_view d r" if "r \<in> set (d_memories d)" for r
  proof -
    from wf that have "m_source r \<in> s_id ` set (d_sources d)" by (simp add: vault_wf_def)
    with src have "m_source r \<noteq> s_id s" by auto
    then show ?thesis by (simp add: memory_row_view_def d'(1) t_find_append_fresh [OF src])
  qed
  then have "List.map_filter (memory_row_view d') (d_memories d)
      = List.map_filter (memory_row_view d) (d_memories d)"
    by (rule map_filter_cong)
  with unconfirmed_filter [OF rows, of _ d'] show ?thesis
    by (simp add: authorized_rows_def d'(2) map_filter_append)
qed

lemma add_capture_rows:
  assumes "add_capture P w raw kind metadata ps d = Inr (x, d')"
  shows "\<exists>s rows. d_sources d' = d_sources d @ [s] \<and> s_id s \<notin> s_id ` set (d_sources d)
     \<and> d_memories d' = d_memories d @ rows \<and> (\<forall>r \<in> set rows. m_status r = ''proposed'')
     \<and> length rows \<le> 5 \<and> d_bindings d' = d_bindings d"
  using add_capture_Inr [OF assms]
  by (auto dest!: insert_proposals_rows simp: insert_source_Inr audit_on_frame)

section \<open>Properties\<close>

text \<open>A small vault for the closed examples: one confirmed and one proposed memory under one
  source, and one grant.\<close>

definition demo_memory :: memory where
  "demo_memory = \<lparr>me_id = ''m1'', me_source_id = ''s1'', me_content = ''likes tea'',
     me_status = ''confirmed'', me_created = ''1'', me_updated = ''1'', me_source = ''manual''\<rparr>"

definition demo_vault :: db where
  "demo_vault = (empty_db ''inst'' demo_spec)\<lparr>
     d_sources := [\<lparr>s_id = ''s1'', s_kind = ''manual'', s_content = ''likes tea'',
        s_metadata = JNull, s_created = ''1''\<rparr>],
     d_memories := [\<lparr>m_id = ''m1'', m_source = ''s1'', m_content = ''likes tea'',
          m_status = ''confirmed'', m_created = ''1'', m_updated = ''1''\<rparr>,
        \<lparr>m_id = ''m2'', m_source = ''s1'', m_content = ''secret'', m_status = ''proposed'',
          m_created = ''2'', m_updated = ''2''\<rparr>],
     d_grants := [\<lparr>gr_id = ''g1'', gr_destination = ''https://a'', gr_scope = Some [''*''],
        gr_expires = ''10'', gr_revoked = None, gr_created = ''1''\<rparr>]\<rparr>"

lemma demo_vault_wf: "vault_wf demo_vault"
  by (simp add: vault_wf_def demo_vault_def empty_db_def valid_status_def)

lemma demo_context:
  "context_for demo_platform 3 ''g1'' ''https://a'' None demo_vault = Inr [demo_memory]"
  by code_simp

lemma demo_revoke: "is_ok (revoke demo_platform (demo_draw 2 ''u'') ''g1'' demo_vault)
   \<and> (case revoke demo_platform (demo_draw 2 ''u'') ''g1'' demo_vault of Inr (b, _) \<Rightarrow> b | Inl _ \<Rightarrow> False)"
  by code_simp

lemma context_for_granted:
  assumes "context_for P now i destination query d = Inr ms"
  shows "\<exists>r \<in> set (d_grants d). gr_id r = i \<and> gr_revoked r = None \<and> gr_destination r = destination
     \<and> (\<exists>expiry. parse_time P (gr_expires r) = Some expiry \<and> now < expiry)
     \<and> (\<forall>m \<in> set ms. \<exists>row \<in> set (d_memories d). m_id row = me_id m
          \<and> m_content row = me_content m \<and> m_status row = ''confirmed''
          \<and> (gr_scope r = Some [''*''] \<or> (\<exists>sc. gr_scope r = Some sc \<and> me_id m \<in> set sc)))
     \<and> sum_list (map (length \<circ> me_content) ms) \<le> 12000 \<and> length ms \<le> 24"
proof -
  from assms obtain g where chk: "grant_check P now i destination d = Inr g"
    and ms: "ms = select_context P query (authorized_rows (g_scope g) d)"
    by (auto simp: context_for_def rbind_eq_Inr)
  from grant_check_Inr [OF chk] obtain r where r: "r \<in> set (d_grants d)" "g = grant_view d r"
    "gr_id r = i" "gr_revoked r = None" "gr_destination r = destination"
    "\<exists>expiry. parse_time P (gr_expires r) = Some expiry \<and> now < expiry" by blast
  have "\<exists>row \<in> set (d_memories d). m_id row = me_id m \<and> m_content row = me_content m
      \<and> m_status row = ''confirmed''
      \<and> (gr_scope r = Some [''*''] \<or> (\<exists>sc. gr_scope r = Some sc \<and> me_id m \<in> set sc))"
    if "m \<in> set ms" for m
  proof -
    from that have "m \<in> set (authorized_rows (g_scope g) d)"
      by (simp add: ms select_context_set)
    then obtain row where "row \<in> set (d_memories d)" "memory_row_view d row = Some m"
      "me_status m = ''confirmed''" "g_scope g = [''*''] \<or> me_id m \<in> set (g_scope g)"
      by (auto simp: authorized_rows_set)
    moreover have "me_id m = m_id row \<and> me_content m = m_content row \<and> me_status m = m_status row"
      using memory_row_view_Some [OF \<open>memory_row_view d row = Some m\<close>] by simp
    ultimately show ?thesis
      by (intro bexI [of _ row]) (auto simp: r(2) grant_view_def split: option.splits)
  qed
  with r show ?thesis
    using select_context_bound [of P query "authorized_rows (g_scope g) d"] by (auto simp: ms)
qed

text \<open>
  C1: Context leaves the vault only under a valid grant: it exists, is not revoked, has not
  expired, names exactly this destination; and what leaves are confirmed memories of the
  grant's scope, at most 24 of them and at most 12000 bytes together.
\<close>

theorem context_discloses_only_granted:
  assumes "context_for P now i destination query d = Inr ms"
  shows "\<exists>r \<in> set (d_grants d). gr_id r = i \<and> gr_revoked r = None \<and> gr_destination r = destination
     \<and> (\<exists>expiry. parse_time P (gr_expires r) = Some expiry \<and> now < expiry)
     \<and> (\<forall>m \<in> set ms. \<exists>row \<in> set (d_memories d). m_id row = me_id m
          \<and> m_content row = me_content m \<and> m_status row = ''confirmed''
          \<and> (gr_scope r = Some [''*''] \<or> (\<exists>sc. gr_scope r = Some sc \<and> me_id m \<in> set sc)))
     \<and> sum_list (map (length \<circ> me_content) ms) \<le> 12000 \<and> length ms \<le> 24"
  by (rule context_for_granted [OF assms])

theorem context_discloses_only_granted_witness:
  "\<exists>r \<in> set (d_grants demo_vault). gr_id r = ''g1'' \<and> gr_revoked r = None \<and> gr_destination r = ''https://a''
     \<and> (\<exists>expiry. parse_time demo_platform (gr_expires r) = Some expiry \<and> 3 < expiry)"
  using context_discloses_only_granted [OF demo_context] by blast

text \<open>
  Revocation is permanent: after a successful revocation, no sequence of vault operations
  makes the grant disclose anything again, whatever the destination, query and time.
\<close>

theorem revoked_grant_never_discloses:
  assumes "revoke P w i d = Inr (True, d')"
  shows "context_for P now i destination query (run_ops (vault_step P) ops d')
     = Inl (Bail ''Grant has been revoked'')"
proof -
  have "revoked_in i (run_ops (vault_step P) ops d')"
    by (rule revocation.run_inv) (rule revoke_revokes [OF assms])
  then show ?thesis by (simp add: context_for_def revoked_grant_check)
qed

theorem revoked_grant_never_discloses_witness:
  "\<exists>d'. revoke demo_platform (demo_draw 2 ''u'') ''g1'' demo_vault = Inr (True, d')
     \<and> context_for demo_platform 3 ''g1'' ''https://a'' None
         (run_ops (vault_step demo_platform) [(demo_draw 3 ''x'', SetConsent False)] d')
       = Inl (Bail ''Grant has been revoked'')"
proof -
  from demo_revoke obtain d' where r: "revoke demo_platform (demo_draw 2 ''u'') ''g1'' demo_vault = Inr (True, d')"
    by (auto simp: is_ok_def split: sum.splits)
  show ?thesis using r revoked_grant_never_discloses [OF r] by blast
qed

text \<open>
  A disclosure receipt is recorded only for the context the grant authorises at that very
  moment: the selected memories are the current ones, each still confirmed with the same
  content, and the recorded receipt lists exactly their identifiers under this grant and
  destination.
\<close>

theorem receipt_only_for_current_context:
  assumes "current_context_receipt P w destination i selected d = Inr (r, d')"
  shows "context_for P (now_at w) i destination None d = Inr selected
     \<and> (\<forall>m \<in> set selected. \<exists>row \<in> set (d_memories d). m_id row = me_id m
          \<and> m_content row = me_content m \<and> m_status row = ''confirmed'')
     \<and> (if selected = [] then r = None \<and> d' = d
        else \<exists>rc. d_receipts d' = d_receipts d @ [rc] \<and> rc_memories rc = Some (map me_id selected)
              \<and> rc_grant rc = Some i \<and> rc_destination rc = destination
              \<and> rc_status rc = ''authorized'' \<and> map_option re_id r = Some (rc_id rc))"
proof -
  note cc = current_context_receipt_Inr [OF assms]
  then have "context_for P (now_at w) i destination None d = Inr selected" by simp
  from context_for_granted [OF this] have "\<forall>m \<in> set selected. \<exists>row \<in> set (d_memories d).
      m_id row = me_id m \<and> m_content row = me_content m \<and> m_status row = ''confirmed''"
    by blast
  with cc show ?thesis by (auto dest!: add_receipt_Inr)
qed


theorem receipt_only_for_current_context_witness:
  "\<exists>r d'. current_context_receipt demo_platform (demo_draw 3 ''v'') ''https://a'' ''g1'' [demo_memory]
       demo_vault = Inr (r, d')
     \<and> (\<exists>rc. d_receipts d' = d_receipts demo_vault @ [rc] \<and> rc_memories rc = Some [''m1''])"
proof -
  have "is_ok (current_context_receipt demo_platform (demo_draw 3 ''v'') ''https://a'' ''g1'' [demo_memory]
      demo_vault)"
    by code_simp
  then obtain r d' where r: "current_context_receipt demo_platform (demo_draw 3 ''v'') ''https://a''
      ''g1'' [demo_memory] demo_vault = Inr (r, d')"
    by (auto simp: is_ok_def split: sum.splits)
  show ?thesis
    using r receipt_only_for_current_context [OF r] by (auto simp: demo_memory_def)
qed

text \<open>
  C32: Every vault reached from a new one by any sequence of operations, failed ones included,
  is well formed: unique keys, valid statuses, no memory without its source and no history
  without its memory.
\<close>

theorem reachable_vaults_well_formed:
  "vault_wf (run_ops (vault_step P) ops (empty_db instance_id spec))"
  by (rule vault_machine.run_inv) (simp add: vault_wf_def empty_db_def)

lemma remove_source_effect:
  assumes "vault_wf d" "d' = remove_source_rows i d"
  shows "i \<notin> s_id ` set (d_sources d')" "\<forall>m \<in> set (d_memories d'). m_source m \<noteq> i"
    "\<forall>h \<in> set (d_history d'). \<forall>m \<in> set (d_memories d). m_source m = i \<longrightarrow> h_memory h \<noteq> m_id m"
    "\<forall>m \<in> set (d_memories d). m_source m \<noteq> i \<longrightarrow> m \<in> set (d_memories d')"
  using assms by (auto simp: remove_source_rows_def Let_def table_simps)


lemma context_for_sources:
  "context_for P now g dest q d = Inr ms \<Longrightarrow> m \<in> set ms \<Longrightarrow>
   \<exists>row \<in> set (d_memories d). m_source row = me_source_id m"
  using memory_row_view_Some
  by (fastforce simp: context_for_def rbind_eq_Inr authorized_rows_set dest!: select_context_set)

text \<open>
  Deleting a source erases it with everything derived from it: its memories and their
  history are gone, and no grant can disclose any of them; other sources and memories stay.
\<close>

theorem deleted_source_is_erased:
  assumes "vault_wf d" and "delete_source P w i d = Inr (True, d')"
  shows "i \<notin> s_id ` set (d_sources d') \<and> (\<forall>m \<in> set (d_memories d'). m_source m \<noteq> i)
     \<and> (\<forall>h \<in> set (d_history d'). \<forall>m \<in> set (d_memories d). m_source m = i \<longrightarrow> h_memory h \<noteq> m_id m)
     \<and> (\<forall>now g dest q ms. context_for P now g dest q d' = Inr ms \<longrightarrow> (\<forall>m \<in> set ms. me_source_id m \<noteq> i))
     \<and> (\<forall>m \<in> set (d_memories d). m_source m \<noteq> i \<longrightarrow> m \<in> set (d_memories d'))"
proof -
  from assms(2) have au: "audit_on P w 0 ''source_deleted'' (entity i) (remove_source_rows i d) = Inr d'"
    by (auto simp: delete_source_def Let_def audited_Inr split: if_splits)
  note fr = audit_on_frame [OF au] and eff = remove_source_effect [OF assms(1) refl, of i]
  have mem: "\<forall>m \<in> set (d_memories d'). m_source m \<noteq> i" using eff(2) by (simp add: fr)
  have ctx: "\<forall>now g dest q ms. context_for P now g dest q d' = Inr ms \<longrightarrow> (\<forall>m \<in> set ms. me_source_id m \<noteq> i)"
  proof (intro allI impI ballI)
    fix now g dest q ms m
    assume "context_for P now g dest q d' = Inr ms" "m \<in> set ms"
    from context_for_sources [OF this] mem show "me_source_id m \<noteq> i" by metis
  qed
  show ?thesis
    by (intro conjI mem ctx) (unfold fr, fact eff(1), fact eff(3), fact eff(4))
qed

theorem deleted_source_is_erased_witness:
  "\<exists>d'. delete_source demo_platform (demo_draw 5 ''x'') ''s1'' demo_vault = Inr (True, d')
     \<and> ''s1'' \<notin> s_id ` set (d_sources d')"
proof -
  have "case delete_source demo_platform (demo_draw 5 ''x'') ''s1'' demo_vault of
      Inl e \<Rightarrow> False | Inr (b, d') \<Rightarrow> b"
    by code_simp
  then obtain d' where r: "delete_source demo_platform (demo_draw 5 ''x'') ''s1'' demo_vault = Inr (True, d')"
    by (auto split: sum.splits)
  show ?thesis using r deleted_source_is_erased [OF demo_vault_wf r] by blast
qed

lemma grant_view_id: "g_id (grant_view d r) = gr_id r"
  by (simp add: grant_view_def)

lemma find_only:
  assumes "x \<in> set xs" "p x" "\<And>y. y \<in> set xs \<Longrightarrow> p y \<Longrightarrow> y = x"
  shows "find p xs = Some x"
proof (cases "find p xs")
  case None
  with assms(1,2) have False by (simp add: find_None_iff)
  then show ?thesis ..
next
  case (Some y)
  with assms(3) [of y] find_SomeD [OF Some] show ?thesis by simp
qed

text \<open>Creating a grant authorises exactly its scope: until it expires, the new grant discloses
  to its destination the selection among the confirmed memories of the scope, whatever other
  grants exist. (The platform's time format is assumed to read back the expiry it prints, as
  RFC 3339 formatting and parsing do.)
\<close>

theorem created_grant_authorizes:
  assumes "create_grant P w destination scope seconds d = Inr (g, d')"
    and "parse_time P (rfc3339 P (now_at w + seconds * second)) = Some (now_at w + seconds * second)"
    and "now < now_at w + seconds * second"
  shows "context_for P now (g_id g) destination query d'
      = Inr (select_context P query (authorized_rows scope d))"
proof -
  let ?row = "\<lparr>gr_id = uuid w 0, gr_destination = destination, gr_scope = Some scope,
            gr_expires = rfc3339 P (now_at w + seconds * second), gr_revoked = None,
            gr_created = rfc3339 P (now_at w)\<rparr>"
  from create_grant_Inr [OF assms(1)] have g: "g_id g = uuid w 0"
    and fresh: "uuid w 0 \<notin> gr_id ` set (d_grants d)"
    and au: "audit_on P w 1 ''grant_created'' (entity (uuid w 0)) (d\<lparr>d_grants := d_grants d @ [?row]\<rparr>) = Inr d'"
    by auto
  note fr = audit_on_frame [OF au]
  have "find (\<lambda>h. g_id h = uuid w 0) (grants d') = Some (grant_view d' ?row)"
  proof (rule find_only)
    fix y
    assume "y \<in> set (grants d')" "g_id y = uuid w 0"
    then obtain r where r: "r \<in> set (d_grants d')" "y = grant_view d' r" unfolding grants_member by blast
    have "gr_id r = uuid w 0" using \<open>g_id y = uuid w 0\<close> unfolding r(2) grant_view_id .
    moreover have "r \<in> insert ?row (set (d_grants d))" using r(1) by (simp add: fr)
    ultimately have "r = ?row" using fresh by (metis imageI insertE)
    then show "y = grant_view d' ?row" using r(2) by simp
  qed (auto simp: grants_member fr grant_view_def)
  moreover have view: "g_revoked (grant_view d' ?row) = None" "g_destination (grant_view d' ?row) = destination"
    "g_expires (grant_view d' ?row) = rfc3339 P (now_at w + seconds * second)"
    by (simp_all add: grant_view_def)
  ultimately have "grant_check P now (g_id g) destination d' = Inr (grant_view d' ?row)"
    unfolding grant_check_def g
    by (simp only: ok_or_simps rbind_Inr view assms(2,3) ensure_True simp_thms)
  moreover have "authorized_rows scope d' = authorized_rows scope d"
    by (simp add: authorized_rows_def memory_row_view_def [abs_def] fr)
  ultimately show ?thesis by (simp add: context_for_def grant_view_def)
qed

theorem created_grant_authorizes_witness:
  "\<exists>g d'. create_grant demo_platform (demo_draw 1 ''g'') ''https://b'' [''m1''] 1 demo_vault = Inr (g, d')
     \<and> context_for demo_platform 5 (g_id g) ''https://b'' None d' = Inr
         (select_context demo_platform None (authorized_rows [''m1''] demo_vault))"
proof -
  have "list_ex (\<lambda>m. me_id m = ''m1'') (memories demo_vault)"
    by code_simp
  then have "is_ok (create_grant demo_platform (demo_draw 1 ''g'') ''https://b'' [''m1''] 1 demo_vault)"
    by (simp add: create_grant_def demo_audit demo_draw_def demo_vault_def empty_db_def)
  then obtain g d' where r: "create_grant demo_platform (demo_draw 1 ''g'') ''https://b'' [''m1''] 1
      demo_vault = Inr (g, d')"
    by (auto simp: is_ok_def split: sum.splits)
  have t: "parse_time demo_platform (rfc3339 demo_platform (now_at (demo_draw 1 ''g'') + 1 * second))
      = Some (now_at (demo_draw 1 ''g'') + 1 * second)"
    by (simp add: demo_platform_def demo_draw_def second_def digits_value_show)
  have l: "5 < now_at (demo_draw 1 ''g'') + 1 * second" by (simp add: demo_draw_def second_def)
  show ?thesis using r created_grant_authorizes [OF r t l] by blast
qed

text \<open>A capture never discloses: saving a captured source with its proposals leaves what every
  grant authorises, at every time and for every query, exactly as it was; only a later
  confirmation by the owner can change it.
\<close>

theorem capture_discloses_nothing:
  assumes "vault_wf d" and "add_capture P w raw kind metadata proposals d = Inr (x, d')"
  shows "context_for P now i destination query d' = context_for P now i destination query d"
proof -
  from add_capture_rows [OF assms(2)] obtain s rows where
    src: "d_sources d' = d_sources d @ [s]" "s_id s \<notin> s_id ` set (d_sources d)"
    and rows: "d_memories d' = d_memories d @ rows" "\<forall>r \<in> set rows. m_status r = ''proposed''"
    and frame: "d_bindings d' = d_bindings d" by blast
  from rows(2) have "\<forall>r \<in> set rows. m_status r \<noteq> ''confirmed''" by auto
  then have "authorized_rows scope d' = authorized_rows scope d" for scope
    by (rule authorized_rows_extend [OF assms(1) src(2) _ src(1) rows(1)])
  moreover have "grants d' = grants d"
    by (simp add: grants_def grant_view_def [abs_def] frame add_capture_grants [OF assms(2)])
  ultimately show ?thesis by (simp add: context_for_def grant_check_def)
qed

theorem capture_discloses_nothing_witness:
  "\<exists>x d'. add_capture demo_platform (demo_draw 4 ''c'') ''raw text'' ''browser'' JNull [''a fact''] demo_vault
       = Inr (x, d')
     \<and> context_for demo_platform 5 ''g1'' ''https://a'' None d'
       = context_for demo_platform 5 ''g1'' ''https://a'' None demo_vault"
proof -
  have "is_ok (add_capture demo_platform (demo_draw 4 ''c'') ''raw text'' ''browser'' JNull [''a fact'']
      demo_vault)"
    by (simp add: add_capture_def check_content_def check_source_def insert_source_def insert_memory_def
        trim_def trim_start_def trim_end_def strip_with.simps white_space_def valid_status_def
        demo_audit t_insert_def numeral_2_eq_2 demo_draw_def demo_vault_def empty_db_def)
  then obtain x d' where r: "add_capture demo_platform (demo_draw 4 ''c'') ''raw text'' ''browser'' JNull
      [''a fact''] demo_vault = Inr (x, d')"
    by (auto simp: is_ok_def split: sum.splits)
  show ?thesis using r capture_discloses_nothing [OF demo_vault_wf r] by blast
qed

end
