(* ===== verification/Work.thy ===== *)
theory Work
  imports Vault
begin

text \<open>
  \<open>crates/omni-core/src/work.rs\<close>: the work installation, its individually approved clients,
  the binding of grants to clients and the authorisation of the principal of a request.
\<close>

section \<open>Principals and clients\<close>

datatype principal = Owner | Legacy | Client string

fun principal_id :: "principal \<Rightarrow> string" where
  "principal_id Owner = ''owner-workspace''"
| "principal_id Legacy = ''legacy-integration''"
| "principal_id (Client i) = i"

record work_client =
  cl_id :: string
  cl_label :: string
  cl_destinations :: "string list"
  cl_expires :: string
  cl_revoked :: "string option"
  cl_created :: string

definition label :: "string \<Rightarrow> string res" where
  "label value =
     (let v = trim value in
      rbind (ensure (\<not> (v = [] \<or> length v > 120 \<or> has_control v))
        ''Use a name of 1-120 UTF-8 bytes without control characters'') (\<lambda>_. Inr v))"

section \<open>The installation\<close>

definition work_enabled :: "db \<Rightarrow> bool res" where
  "work_enabled d = rbind (ok_or (d_instance d) (Sql ''Query returned no rows'')) (\<lambda>row. Inr (wi_enabled row))"

definition enable_work :: "platform \<Rightarrow> draw \<Rightarrow> string \<Rightarrow> db \<Rightarrow> unit tx" where
  "enable_work P w name d =
     rbind (label name) (\<lambda>name.
     audited P w 0 ''work_enabled'' (no_details\<lparr>ad_enabled := Some True\<rparr>) ()
       (d\<lparr>d_instance := map_option (\<lambda>row. row\<lparr>wi_label := name, wi_enabled := True\<rparr>) (d_instance d)\<rparr>))"

definition client_view :: "client_row \<Rightarrow> work_client res" where
  "client_view r =
     rbind (ok_or (wc_destinations r) (Decode ''destinations'')) (\<lambda>destinations.
     Inr \<lparr>cl_id = wc_id r, cl_label = wc_label r, cl_destinations = destinations,
          cl_expires = wc_expires r, cl_revoked = wc_revoked r, cl_created = wc_created r\<rparr>)"

definition work_clients :: "db \<Rightarrow> work_client list res" where
  "work_clients d = map_res client_view (order_desc wc_created (sort_key wc_id (d_clients d)))"

record client_token =
  ct_id :: string
  ct_token :: string
  ct_expires :: string

text \<open>INSERT INTO work_clients: the identifier and the token hash are unique.\<close>

definition insert_client :: "client_row \<Rightarrow> db \<Rightarrow> db res" where
  "insert_client r d =
     rbind (t_insert wc_id r (d_clients d)) (\<lambda>rows.
       if wc_token_hash r \<in> wc_token_hash ` set (d_clients d)
       then Inl (Sql ''UNIQUE constraint failed'')
       else Inr (d\<lparr>d_clients := rows\<rparr>))"

definition create_work_client ::
    "platform \<Rightarrow> draw \<Rightarrow> string \<Rightarrow> string list \<Rightarrow> int \<Rightarrow> db \<Rightarrow> client_token tx" where
  "create_work_client P w name destinations seconds d =
     rbind (work_enabled d) (\<lambda>enabled.
     rbind (ensure enabled ''Enable this installation for work before approving a client'') (\<lambda>_.
     rbind (ensure (\<not> (destinations = [] \<or> length destinations > 16
         \<or> \<not> (60 \<le> seconds \<and> seconds \<le> 2592000)))
       ''Choose 1-16 destinations and a lifetime of 60 seconds to 30 days'') (\<lambda>_.
     rbind (ensure (\<not> 32 \<le> length (filter (\<lambda>r. wc_revoked r = None) (d_clients d)))
       ''Revoke an existing client before approving more than 32 clients'') (\<lambda>_.
     rbind (label name) (\<lambda>name.
     let i = uuid w 0; token = hex_encode P (random w 0);
         expiry = rfc3339 P (now_at w + seconds * second)
     in rbind (insert_client \<lparr>wc_id = i, wc_label = name, wc_token_hash = sha256_hex P token,
            wc_destinations = Some destinations, wc_expires = expiry, wc_revoked = None,
            wc_created = rfc3339 P (now_at w)\<rparr> d) (\<lambda>d1.
        audited P w 1 ''client_approved'' (entity i)
          \<lparr>ct_id = i, ct_token = token, ct_expires = expiry\<rparr> d1))))))"

definition active_client :: "platform \<Rightarrow> int \<Rightarrow> string \<Rightarrow> db \<Rightarrow> work_client res" where
  "active_client P now i d =
     rbind (work_enabled d) (\<lambda>enabled.
     rbind (ensure enabled ''This work installation is not enabled'') (\<lambda>_.
     rbind (work_clients d) (\<lambda>cs.
     rbind (ok_or (find (\<lambda>c. cl_id c = i) cs) (Bail ''Unknown client'')) (\<lambda>client.
     if cl_revoked client \<noteq> None then Inl (Bail ''Client access has expired or been revoked'')
     else rbind (ok_or (parse_time P (cl_expires client)) (Decode ''expires_at'')) (\<lambda>expiry.
       rbind (ensure (\<not> expiry \<le> now) ''Client access has expired or been revoked'') (\<lambda>_.
       Inr client))))))"

definition authenticate_client :: "platform \<Rightarrow> int \<Rightarrow> string \<Rightarrow> db \<Rightarrow> principal option res" where
  "authenticate_client P now token d =
     (if length token \<noteq> 64 \<or> \<not> list_all ascii_hexdigit token then Inr None
      else case find (\<lambda>r. wc_token_hash r = sha256_hex P token) (d_clients d) of
          None \<Rightarrow> Inr None
        | Some r \<Rightarrow> if is_ok (active_client P now (wc_id r) d) then Inr (Some (Client (wc_id r)))
                    else Inr None)"

definition revoke_client_row :: "string \<Rightarrow> client_row \<Rightarrow> client_row" where
  "revoke_client_row t r = r\<lparr>wc_revoked := (case wc_revoked r of None \<Rightarrow> Some t | Some t' \<Rightarrow> Some t')\<rparr>"

definition client_grants :: "string \<Rightarrow> db \<Rightarrow> string list" where
  "client_grants i d = map wg_grant (filter (\<lambda>b. wg_client b = i) (d_bindings d))"

definition revoke_client :: "platform \<Rightarrow> draw \<Rightarrow> string \<Rightarrow> db \<Rightarrow> bool tx" where
  "revoke_client P w i d =
     (let found = (t_find wc_id i (d_clients d) \<noteq> None); t = rfc3339 P (now_at w) in
      if found
      then audited P w 0 ''client_revoked'' (entity i) True
             (d\<lparr>d_clients := t_update wc_id i (revoke_client_row t) (d_clients d),
                d_grants := map (\<lambda>r. if gr_id r \<in> set (client_grants i d) then revoke_row t r else r)
                  (d_grants d)\<rparr>)
      else Inr (False, d))"

text \<open>INSERT INTO work\_grants: one client per grant, both of which exist.\<close>

definition bind_work_grant ::
    "platform \<Rightarrow> int \<Rightarrow> string \<Rightarrow> string \<Rightarrow> string \<Rightarrow> db \<Rightarrow> unit tx" where
  "bind_work_grant P now g client destination d =
     rbind (active_client P now client d) (\<lambda>c.
     rbind (ensure (list_ex (\<lambda>x. x = destination) (cl_destinations c))
       ''Client is not approved for this destination'') (\<lambda>_.
     rbind (t_insert wg_grant \<lparr>wg_grant = g, wg_client = client\<rparr> (d_bindings d)) (\<lambda>rows.
     if g \<notin> gr_id ` set (d_grants d) \<or> client \<notin> wc_id ` set (d_clients d)
     then Inl (Sql ''FOREIGN KEY constraint failed'')
     else Inr ((), d\<lparr>d_bindings := rows\<rparr>))))"

definition authorize_principal ::
    "platform \<Rightarrow> int \<Rightarrow> principal \<Rightarrow> string \<Rightarrow> string option \<Rightarrow> db \<Rightarrow> unit res" where
  "authorize_principal P now p destination g d =
     (case p of
        Owner \<Rightarrow> Inr ()
      | Legacy \<Rightarrow> rbind (work_enabled d) (\<lambda>enabled.
          ensure (\<not> enabled) ''Work installations require an individually approved client'')
      | Client i \<Rightarrow>
          rbind (active_client P now i d) (\<lambda>c.
          rbind (ensure (list_ex (\<lambda>x. x = destination) (cl_destinations c))
            ''Client is not approved for this destination'') (\<lambda>_.
          case g of
            None \<Rightarrow> Inr ()
          | Some grant \<Rightarrow>
              ensure (map_option wg_client (t_find wg_grant grant (d_bindings d)) = Some i)
                ''This permission does not authorize this client'')))"

text \<open>Two statements: the request is recorded, then requests without a journal row are removed.\<close>

definition record_work_request ::
    "platform \<Rightarrow> draw \<Rightarrow> string \<Rightarrow> principal \<Rightarrow> string option \<Rightarrow> nat \<Rightarrow> nat \<Rightarrow> db \<Rightarrow> unit stmts" where
  "record_work_request P w ia p receipt preflight policy d =
     (case rbind (ensure (preflight \<le> i64_max) ''out of range integral type conversion attempted'') (\<lambda>_.
           rbind (ensure (policy \<le> i64_max) ''out of range integral type conversion attempted'') (\<lambda>_.
           t_insert wr_interaction \<lparr>wr_interaction = ia, wr_principal = principal_id p,
             wr_receipt = receipt, wr_preflight = preflight, wr_policy = policy,
             wr_created = rfc3339 P (now_at w)\<rparr> (d_requests d))) of
        Inl e \<Rightarrow> (Inl e, d)
      | Inr rows \<Rightarrow> (Inr (),
          d\<lparr>d_requests := filter (\<lambda>r. wr_interaction r \<in> jr_id ` set (d_journal d)) rows\<rparr>))"

definition work_requests :: "db \<Rightarrow> request_row list" where
  "work_requests d = take 100 (order_desc wr_created (sort_key wr_interaction (d_requests d)))"

record work_view =
  vw_instance :: string
  vw_label :: string
  vw_enabled :: bool
  vw_clients :: "work_client list"
  vw_requests :: "request_row list"

definition view_work :: "db \<Rightarrow> work_view res" where
  "view_work d =
     rbind (ok_or (d_instance d) (Sql ''Query returned no rows'')) (\<lambda>row.
     rbind (work_clients d) (\<lambda>cs.
     Inr \<lparr>vw_instance = wi_instance row, vw_label = wi_label row, vw_enabled = wi_enabled row,
          vw_clients = cs, vw_requests = work_requests d\<rparr>))"

section \<open>Clients\<close>

lemma client_view_Inr:
  "client_view r = Inr c \<longleftrightarrow> (\<exists>ds. wc_destinations r = Some ds \<and>
     c = \<lparr>cl_id = wc_id r, cl_label = wc_label r, cl_destinations = ds, cl_expires = wc_expires r,
          cl_revoked = wc_revoked r, cl_created = wc_created r\<rparr>)"
  by (auto simp: client_view_def res_simps)

lemma set_clients_order: "set (order_desc wc_created (sort_key wc_id rows)) = set rows"
  by simp

lemma work_clients_Inr:
  assumes "work_clients d = Inr cs" and "c \<in> set cs"
  shows "\<exists>r \<in> set (d_clients d). client_view r = Inr c"
  using map_res_set [OF assms(1) [unfolded work_clients_def] assms(2)] by simp

lemma active_client_Inr:
  assumes "active_client P now i d = Inr c"
  shows "\<exists>r \<in> set (d_clients d). wc_id r = i \<and> wc_revoked r = None \<and> cl_id c = i
     \<and> wc_destinations r = Some (cl_destinations c)
     \<and> (\<exists>expiry. parse_time P (wc_expires r) = Some expiry \<and> now < expiry)
     \<and> (\<exists>row. d_instance d = Some row \<and> wi_enabled row)"
proof -
  from assms obtain row cs expiry where en: "d_instance d = Some row" "wi_enabled row"
    and cs: "work_clients d = Inr cs" and f: "find (\<lambda>c. cl_id c = i) cs = Some c"
    and ex: "cl_revoked c = None" "parse_time P (cl_expires c) = Some expiry" "now < expiry"
    by (auto simp: active_client_def work_enabled_def res_simps split: if_splits)
  from find_SomeD [OF f] have c: "c \<in> set cs" "cl_id c = i" by auto
  from work_clients_Inr [OF cs c(1)] obtain r where "r \<in> set (d_clients d)" "client_view r = Inr c" by blast
  with en ex c(2) show ?thesis by (intro bexI [of _ r]) (auto simp: client_view_Inr)
qed

lemma authorize_client_Inr:
  assumes "authorize_principal P now (Client i) destination g d = Inr ()"
  shows "\<exists>c. active_client P now i d = Inr c \<and> destination \<in> set (cl_destinations c)
     \<and> (\<forall>x. g = Some x \<longrightarrow> map_option wg_client (t_find wg_grant x (d_bindings d)) = Some i)"
  using assms by (auto simp: authorize_principal_def res_simps list_ex_iff split: option.splits)

lemma insert_client_Inr:
  "insert_client r d = Inr d' \<longleftrightarrow> wc_id r \<notin> wc_id ` set (d_clients d)
   \<and> wc_token_hash r \<notin> wc_token_hash ` set (d_clients d) \<and> d' = d\<lparr>d_clients := d_clients d @ [r]\<rparr>"
  by (auto simp: insert_client_def res_simps split: if_splits)

lemma label_Inr: "label v = Inr u \<longleftrightarrow> u = trim v \<and> u \<noteq> [] \<and> length u \<le> 120 \<and> \<not> has_control u"
  by (auto simp: label_def res_simps Let_def)

lemma create_work_client_Inr:
  assumes "create_work_client P w name destinations seconds d = Inr (t, d')"
  shows "\<exists>row d1. d_instance d = Some row \<and> wi_enabled row \<and> destinations \<noteq> [] \<and> length destinations \<le> 16
     \<and> length (filter (\<lambda>r. wc_revoked r = None) (d_clients d)) < 32
     \<and> t = \<lparr>ct_id = uuid w 0, ct_token = hex_encode P (random w 0),
            ct_expires = rfc3339 P (now_at w + seconds * second)\<rparr>
     \<and> insert_client \<lparr>wc_id = uuid w 0, wc_label = trim name,
            wc_token_hash = sha256_hex P (hex_encode P (random w 0)),
            wc_destinations = Some destinations, wc_expires = rfc3339 P (now_at w + seconds * second),
            wc_revoked = None, wc_created = rfc3339 P (now_at w)\<rparr> d = Inr d1
     \<and> audit_on P w 1 ''client_approved'' (entity (uuid w 0)) d1 = Inr d'"
  using assms unfolding create_work_client_def Let_def
  by (auto simp: rbind_eq_Inr ensure_eq_Inr audited_Inr work_enabled_def ok_or_eq_Inr label_Inr not_le)

lemma revoke_client_Inr:
  assumes "revoke_client P w i d = Inr (b, d')"
  shows "if b then i \<in> wc_id ` set (d_clients d)
       \<and> audit_on P w 0 ''client_revoked'' (entity i)
          (d\<lparr>d_clients := t_update wc_id i (revoke_client_row (rfc3339 P (now_at w))) (d_clients d),
             d_grants := map (\<lambda>r. if gr_id r \<in> set (client_grants i d)
                then revoke_row (rfc3339 P (now_at w)) r else r) (d_grants d)\<rparr>) = Inr d'
     else d' = d \<and> i \<notin> wc_id ` set (d_clients d)"
proof (cases "t_find wc_id i (d_clients d)")
  case None
  with assms show ?thesis by (simp add: revoke_client_def t_find_None)
next
  case (Some r)
  then have "i \<in> wc_id ` set (d_clients d)" by (auto dest: t_find_Some)
  with assms Some show ?thesis by (auto simp: revoke_client_def audited_Inr Let_def)
qed

section \<open>The work installation as a state machine\<close>

datatype work_op =
    EnableWork string
  | CreateClient string "string list" int
  | RevokeClient string
  | BindGrant string string string
  | RecordRequest string principal "string option" nat nat
  | VaultOp vault_op

fun work_step :: "platform \<Rightarrow> draw \<times> work_op \<Rightarrow> db \<Rightarrow> db" where
  "work_step P (w, EnableWork name) d = after (enable_work P w name d) d"
| "work_step P (w, CreateClient name dests n) d = after (create_work_client P w name dests n d) d"
| "work_step P (w, RevokeClient i) d = after (revoke_client P w i d) d"
| "work_step P (w, BindGrant g c dest) d = after (bind_work_grant P (now_at w) g c dest d) d"
| "work_step P (w, RecordRequest i p r a b) d = snd (record_work_request P w i p r a b d)"
| "work_step P (w, VaultOp x) d = vault_step P (w, x) d"

text \<open>The tables that no operation of the vault component touches.\<close>

definition same_clients :: "db \<Rightarrow> db \<Rightarrow> bool" where
  "same_clients d d' \<longleftrightarrow> d_clients d' = d_clients d \<and> d_bindings d' = d_bindings d
     \<and> d_instance d' = d_instance d \<and> d_requests d' = d_requests d \<and> d_policy d' = d_policy d
     \<and> d_threads d' = d_threads d \<and> d_turns d' = d_turns d \<and> d_journal d' = d_journal d
     \<and> d_providers d' = d_providers d \<and> d_settings d' = d_settings d
     \<and> d_reports d' = d_reports d \<and> d_decisions d' = d_decisions d \<and> d_decision_seq d' = d_decision_seq d"

lemma same_clients_refl [simp]: "same_clients d d"
  by (simp add: same_clients_def)

lemma same_clients_trans: "same_clients a b \<Longrightarrow> same_clients b c \<Longrightarrow> same_clients a c"
  by (simp add: same_clients_def)

lemma same_clients_audit: "audit_on P w k a x e = Inr d' \<Longrightarrow> same_clients d d' = same_clients d e"
  by (simp add: same_clients_def audit_on_frame)

lemma same_clients_update [simp]:
  "same_clients d (e\<lparr>d_sources := a\<rparr>) = same_clients d e"
  "same_clients d (e\<lparr>d_memories := b\<rparr>) = same_clients d e"
  "same_clients d (e\<lparr>d_history := c\<rparr>) = same_clients d e"
  "same_clients d (e\<lparr>d_grants := f\<rparr>) = same_clients d e"
  "same_clients d (e\<lparr>d_receipts := g\<rparr>) = same_clients d e"
  "same_clients d (e\<lparr>d_interactions := h\<rparr>) = same_clients d e"
  "same_clients d (e\<lparr>d_consent := i\<rparr>) = same_clients d e"
  by (simp_all add: same_clients_def)

lemma add_memory_clients: "add_memory P w c st src md d = Inr (m, d') \<Longrightarrow> same_clients d d'"
  unfolding add_memory_def Let_def
  by (simp only: rbind_eq_Inr audited_Inr insert_source_Inr insert_memory_Inr)
    (auto simp: same_clients_audit [where d = d])

lemma update_memory_clients: "update_memory P w i c st d = Inr (m, d') \<Longrightarrow> same_clients d d'"
  unfolding update_memory_def Let_def
  by (simp only: rbind_eq_Inr) (auto simp: same_clients_audit [where d = d])

lemma delete_memory_clients: "delete_memory P w i d = Inr (b, d') \<Longrightarrow> same_clients d d'"
  by (auto simp: delete_memory_def Let_def audited_Inr same_clients_audit [where d = d]
      split: option.splits if_splits)

lemma delete_source_clients: "delete_source P w i d = Inr (b, d') \<Longrightarrow> same_clients d d'"
  by (auto simp: delete_source_def Let_def audited_Inr same_clients_audit [where d = d] remove_source_rows_def
      split: if_splits)

lemma add_capture_clients: "add_capture P w raw k md ps d = Inr (x, d') \<Longrightarrow> same_clients d d'"
  by (auto dest!: add_capture_Inr insert_proposals_rows
      simp: insert_source_Inr same_clients_audit [where d = d])

lemma create_grant_clients: "create_grant P w dest scope n d = Inr (g, d') \<Longrightarrow> same_clients d d'"
  by (drule create_grant_Inr) (auto simp: same_clients_audit [where d = d])

lemma revoke_clients: "revoke P w i d = Inr (b, d') \<Longrightarrow> same_clients d d'"
  by (drule revoke_Inr) (auto simp: same_clients_audit [where d = d])

lemma receipt_clients:
  "add_receipt P w dest ms g d = Inr (r, d') \<Longrightarrow> same_clients d d'"
  "current_context_receipt P w dest i ms d = Inr (x, d') \<Longrightarrow> same_clients d d'"
  by (auto dest!: current_context_receipt_Inr add_receipt_Inr split: if_splits)

lemma set_consent_clients: "set_consent P w b d = Inr (u, d') \<Longrightarrow> same_clients d d'"
  by (auto simp: set_consent_def audited_Inr same_clients_audit [where d = d])

lemma interaction_clients: "interaction P w a b c e f d = Inr (x, d') \<Longrightarrow> same_clients d d'"
  by (auto simp: interaction_def Let_def rbind_eq_Inr)

lemma metric_clients:
  "same_clients d (receipt_status i st d)" "same_clients d (update_interaction_tokens i n d)"
  "same_clients d (complete_interaction i n d)"
  by (simp_all add: receipt_status_def update_interaction_tokens_def complete_interaction_def)

lemmas clients_frames =
  add_memory_clients update_memory_clients delete_memory_clients delete_source_clients
  add_capture_clients create_grant_clients revoke_clients receipt_clients set_consent_clients
  interaction_clients

interpretation vault_frame: op_monotone "vault_step P" same_clients for P
proof
  fix d :: db and x :: "draw \<times> vault_op"
  show "same_clients d (vault_step P x d)"
    by (cases "(P, x, d)" rule: vault_step.cases)
      (auto simp: metric_clients intro!: after_cases [where P = "same_clients d"] intro: clients_frames)
qed (auto intro: same_clients_trans)

text \<open>A client all of whose rows are revoked.\<close>

definition client_out :: "string \<Rightarrow> db \<Rightarrow> bool" where
  "client_out i d \<longleftrightarrow> i \<in> wc_id ` set (d_clients d)
     \<and> (\<forall>r \<in> set (d_clients d). wc_id r = i \<longrightarrow> wc_revoked r \<noteq> None)"

lemma client_out_same: "same_clients d d' \<Longrightarrow> client_out i d' = client_out i d"
  by (simp add: client_out_def same_clients_def)

lemma client_out_active: "client_out i d \<Longrightarrow> \<not> is_ok (active_client P now i d)"
  by (auto simp: client_out_def is_ok_def dest!: active_client_Inr split: sum.splits)

lemma revoke_client_rows_out:
  "client_out i (d\<lparr>d_clients := t_update wc_id j (revoke_client_row t) (d_clients d), d_grants := gs\<rparr>)
   \<longleftrightarrow> client_out i (d\<lparr>d_clients := t_update wc_id j (revoke_client_row t) (d_clients d)\<rparr>)"
  by (simp add: client_out_def)

lemma revoke_client_row_simps [simp]:
  "wc_id (revoke_client_row t r) = wc_id r" "wc_revoked (revoke_client_row t r) \<noteq> None"
  "wc_token_hash (revoke_client_row t r) = wc_token_hash r"
  by (auto simp: revoke_client_row_def split: option.splits)

lemma client_ids_update:
  "wc_id ` set (t_update wc_id j (revoke_client_row t) rows) = wc_id ` set rows"
proof -
  have "map wc_id (t_update wc_id j (revoke_client_row t) rows) = map wc_id rows"
    by (rule t_update_keys) simp
  then show ?thesis by (metis set_map)
qed

lemma client_out_update:
  assumes "client_out i d \<or> (i = j \<and> i \<in> wc_id ` set (d_clients d))"
  shows "client_out i (d\<lparr>d_clients := t_update wc_id j (revoke_client_row t) (d_clients d)\<rparr>)"
proof -
  have "wc_revoked r \<noteq> None"
    if "r \<in> set (t_update wc_id j (revoke_client_row t) (d_clients d))" "wc_id r = i" for r
    using that assms
    by (auto simp: t_update_def client_out_def split: if_splits)
      (metis not_None_eq revoke_client_row_simps(2))+
  with assms show ?thesis by (auto simp: client_out_def client_ids_update)
qed

lemma client_out_append:
  "client_out i d \<Longrightarrow> wc_id r \<notin> wc_id ` set (d_clients d) \<Longrightarrow>
   client_out i (d\<lparr>d_clients := d_clients d @ [r]\<rparr>)"
  by (auto simp: client_out_def)

lemma client_out_audit: "audit_on P w k a x d = Inr d' \<Longrightarrow> client_out i d' = client_out i d"
  by (simp add: client_out_def audit_on_frame)

lemma enable_work_frame:
  assumes "enable_work P w name d = Inr (u, d')"
  shows "d_clients d' = d_clients d" "d_grants d' = d_grants d" "d_bindings d' = d_bindings d"
  using assms by (auto simp: enable_work_def rbind_eq_Inr audited_Inr audit_on_frame)

lemma create_work_client_grants:
  "create_work_client P w name dests n d = Inr (t, d') \<Longrightarrow> d_grants d' = d_grants d"
  by (auto dest!: create_work_client_Inr simp: insert_client_Inr audit_on_frame)

lemma bind_work_grant_Inr:
  assumes "bind_work_grant P now g c dest d = Inr (u, d')"
  shows "d' = d\<lparr>d_bindings := d_bindings d @ [\<lparr>wg_grant = g, wg_client = c\<rparr>]\<rparr>
     \<and> g \<notin> wg_grant ` set (d_bindings d) \<and> g \<in> gr_id ` set (d_grants d)
     \<and> (\<exists>x. active_client P now c d = Inr x \<and> dest \<in> set (cl_destinations x))"
  using assms by (auto simp: bind_work_grant_def res_simps list_ex_iff split: if_splits)

lemma record_work_request_frame:
  "d_clients (snd (record_work_request P w i p r a b d)) = d_clients d"
  "d_grants (snd (record_work_request P w i p r a b d)) = d_grants d"
  "d_bindings (snd (record_work_request P w i p r a b d)) = d_bindings d"
  by (auto simp: record_work_request_def split: sum.splits)

lemma revoke_client_out:
  assumes "revoke_client P w j d = Inr (b, d')" and "client_out i d \<or> (i = j \<and> b)"
  shows "client_out i d'"
  using revoke_client_Inr [OF assms(1)] assms(2) client_out_update [of i d j]
  by (auto simp: client_out_audit revoke_client_rows_out split: if_splits)

interpretation client_revocation: op_invariant "work_step P" "client_out i" for P i
proof
  fix d :: db and x :: "draw \<times> work_op"
  assume out: "client_out i d"
  obtain w y where x: "x = (w, y)" by (cases x)
  show "client_out i (work_step P x d)"
  proof (cases y)
    case (EnableWork name)
    show ?thesis unfolding x EnableWork work_step.simps
      by (rule after_cases [where P = "client_out i"])
        (use out in \<open>auto simp: client_out_def dest: enable_work_frame\<close>)
  next
    case (CreateClient name dests n)
    show ?thesis unfolding x CreateClient work_step.simps
      by (rule after_cases [where P = "client_out i"])
        (use out in \<open>auto dest!: create_work_client_Inr simp: client_out_audit insert_client_Inr client_out_append\<close>)
  next
    case (RevokeClient j)
    show ?thesis unfolding x RevokeClient work_step.simps
      by (rule after_cases [where P = "client_out i"]) (use out revoke_client_out in blast)+
  next
    case (BindGrant g c dest)
    show ?thesis unfolding x BindGrant work_step.simps
      by (rule after_cases [where P = "client_out i"])
        (use out in \<open>auto dest!: bind_work_grant_Inr simp: client_out_def\<close>)
  next
    case (RecordRequest j p r a b)
    with x out show ?thesis by (simp add: client_out_def record_work_request_frame)
  next
    case (VaultOp v)
    with x out client_out_same [OF vault_frame.step_rel] show ?thesis by simp
  qed
qed

lemma revoke_client_grants:
  assumes "revoke_client P w j d = Inr (b, d')" and "revoked_in g d \<or>
     (b \<and> g \<in> set (client_grants j d) \<and> g \<in> gr_id ` set (d_grants d))"
  shows "revoked_in g d'"
proof -
  let ?t = "rfc3339 P (now_at w)"
  let ?f = "\<lambda>r. if gr_id r \<in> set (client_grants j d) then revoke_row ?t r else r"
  show ?thesis
  proof (cases b)
    case False
    with revoke_client_Inr [OF assms(1)] assms(2) show ?thesis by auto
  next
    case True
    with revoke_client_Inr [OF assms(1)] have gr: "d_grants d' = map ?f (d_grants d)"
      by (auto dest: audit_on_frame)
    have "map gr_id (d_grants d') = map gr_id (d_grants d)" unfolding gr by simp
    then have ids: "gr_id ` set (d_grants d') = gr_id ` set (d_grants d)" by (metis set_map)
    have "gr_revoked r' \<noteq> None" if "r' \<in> set (d_grants d')" "gr_id r' = g" for r'
    proof -
      from that gr obtain r where r: "r \<in> set (d_grants d)" "r' = ?f r" by auto
      with that assms(2) have "gr_revoked r \<noteq> None \<or> gr_id r \<in> set (client_grants j d)"
        by (auto simp: revoked_in_def split: if_splits)
      with r revoke_row_revoked show ?thesis by (auto simp: revoke_row_def split: option.splits)
    qed
    with ids assms(2) show ?thesis by (auto simp: revoked_in_def)
  qed
qed

interpretation grant_revocation: op_invariant "work_step P" "revoked_in g" for P g
proof
  fix d :: db and x :: "draw \<times> work_op"
  assume out: "revoked_in g d"
  obtain w y where x: "x = (w, y)" by (cases x)
  show "revoked_in g (work_step P x d)"
  proof (cases y)
    case (EnableWork name)
    show ?thesis unfolding x EnableWork work_step.simps
      by (rule after_cases [where P = "revoked_in g"])
        (use out in \<open>auto simp: revoked_in_def dest: enable_work_frame\<close>)
  next
    case (CreateClient name dests n)
    show ?thesis unfolding x CreateClient work_step.simps
      by (rule after_cases [where P = "revoked_in g"])
        (use out in \<open>auto dest!: create_work_client_grants simp: revoked_in_def\<close>)
  next
    case (RevokeClient j)
    show ?thesis unfolding x RevokeClient work_step.simps
      by (rule after_cases [where P = "revoked_in g"]) (use out revoke_client_grants in blast)+
  next
    case (BindGrant g' c dest)
    show ?thesis unfolding x BindGrant work_step.simps
      by (rule after_cases [where P = "revoked_in g"])
        (use out in \<open>auto dest!: bind_work_grant_Inr simp: revoked_in_def\<close>)
  next
    case (RecordRequest j p r a b)
    with x out show ?thesis by (simp add: revoked_in_def record_work_request_frame)
  next
    case (VaultOp v)
    with x revocation.step_inv [OF out] show ?thesis by simp
  qed
qed

section \<open>Properties\<close>

lemma map_res_total: "(\<And>x. x \<in> set xs \<Longrightarrow> \<exists>y. f x = Inr y) \<Longrightarrow> \<exists>ys. map_res f xs = Inr ys"
proof (induction xs)
  case (Cons x xs)
  then obtain y ys where "f x = Inr y" "map_res f xs = Inr ys" by (metis list.set_intros)
  then show ?case by simp
qed simp

lemma map_res_member: "map_res f xs = Inr ys \<Longrightarrow> x \<in> set xs \<Longrightarrow> \<exists>y \<in> set ys. f x = Inr y"
  by (induction xs arbitrary: ys) (auto simp: res_simps)

text \<open>A row whose identifier is unique and that is neither revoked nor expired is active, if every
  stored client decodes.\<close>

lemma active_client_intro:
  assumes dec: "\<forall>r \<in> set (d_clients d). wc_destinations r \<noteq> None"
    and r: "r \<in> set (d_clients d)" "\<forall>r' \<in> set (d_clients d). wc_id r' = wc_id r \<longrightarrow> r' = r"
    and en: "d_instance d = Some row" "wi_enabled row"
    and live: "wc_revoked r = None" "parse_time P (wc_expires r) = Some expiry" "now < expiry"
  shows "\<exists>c. active_client P now (wc_id r) d = Inr c \<and> client_view r = Inr c"
proof -
  have "\<exists>c. client_view x = Inr c" if "x \<in> set (d_clients d)" for x
    using dec that by (auto simp: client_view_Inr)
  then obtain cs where cs: "work_clients d = Inr cs"
    unfolding work_clients_def by (metis map_res_total set_clients_order)
  from map_res_member [OF cs [unfolded work_clients_def], of r] r(1) obtain c where
    c: "c \<in> set cs" "client_view r = Inr c" by auto
  have id: "cl_id c = wc_id r" "cl_revoked c = wc_revoked r" "cl_expires c = wc_expires r"
    using c(2) by (auto simp: client_view_Inr)
  have "find (\<lambda>x. cl_id x = wc_id r) cs = Some c"
  proof (rule find_only)
    fix y
    assume y: "y \<in> set cs" "cl_id y = wc_id r"
    from work_clients_Inr [OF cs y(1)] obtain r' where r': "r' \<in> set (d_clients d)" "client_view r' = Inr y" by blast
    with y(2) have "wc_id r' = wc_id r" by (auto simp: client_view_Inr)
    with r(2) r' c(2) show "y = c" by (metis sum.inject(2))
  qed (use c id in auto)
  with cs en live id c(2) show ?thesis
    by (simp add: active_client_def work_enabled_def)
qed

definition demo_work :: db where
  "demo_work = demo_vault\<lparr>
     d_instance := Some \<lparr>wi_instance = ''inst'', wi_label = ''Desk'', wi_enabled = True\<rparr>,
     d_clients := [\<lparr>wc_id = ''c1'', wc_label = ''editor'', wc_token_hash = ''h1'',
       wc_destinations = Some [''https://a''], wc_expires = ''100'', wc_revoked = None,
       wc_created = ''1''\<rparr>],
     d_bindings := [\<lparr>wg_grant = ''g1'', wg_client = ''c1''\<rparr>]\<rparr>"

definition demo_token_draw :: draw where
  "demo_token_draw = (demo_draw 1 ''c'')\<lparr>random := (\<lambda>_. replicate 32 (CHR ''A''))\<rparr>"

text \<open>An approved client can authenticate with the token it was shown, until it expires: the
  token is 64 hexadecimal digits as \<open>hex::encode\<close> prints 32 bytes, its digest is unique among
  the clients by the insertion's own check, and it finds exactly the new client.
\<close>

theorem approved_client_authenticates:
  assumes "create_work_client P w name destinations seconds d = Inr (t, d')"
    and "length (hex_encode P (random w 0)) = 64" and "list_all ascii_hexdigit (hex_encode P (random w 0))"
    and "parse_time P (rfc3339 P (now_at w + seconds * second)) = Some (now_at w + seconds * second)"
    and "now < now_at w + seconds * second"
    and "\<forall>r \<in> set (d_clients d). wc_destinations r \<noteq> None"
  shows "authenticate_client P now (ct_token t) d' = Inr (Some (Client (ct_id t)))"
proof -
  let ?r = "\<lparr>wc_id = uuid w 0, wc_label = trim name,
            wc_token_hash = sha256_hex P (hex_encode P (random w 0)),
            wc_destinations = Some destinations, wc_expires = rfc3339 P (now_at w + seconds * second),
            wc_revoked = None, wc_created = rfc3339 P (now_at w)\<rparr>"
  from create_work_client_Inr [OF assms(1)] obtain row d1 where
    en: "d_instance d = Some row" "wi_enabled row" and ins: "insert_client ?r d = Inr d1"
    and t: "ct_id t = uuid w 0" "ct_token t = hex_encode P (random w 0)"
    and au: "audit_on P w 1 ''client_approved'' (entity (uuid w 0)) d1 = Inr d'" by auto
  from ins have fresh: "uuid w 0 \<notin> wc_id ` set (d_clients d)"
    "sha256_hex P (hex_encode P (random w 0)) \<notin> wc_token_hash ` set (d_clients d)"
    and d': "d_clients d' = d_clients d @ [?r]" "d_instance d' = d_instance d"
    using audit_on_frame [OF au] by (auto simp: insert_client_Inr)
  have "\<exists>c. active_client P now (wc_id ?r) d' = Inr c \<and> client_view ?r = Inr c"
  proof (rule active_client_intro [where row = row and expiry = "now_at w + seconds * second"])
    show "\<forall>r' \<in> set (d_clients d'). wc_id r' = wc_id ?r \<longrightarrow> r' = ?r"
      using fresh(1) by (simp add: d') (metis imageI)
  qed (use assms en d' in auto)
  then have act: "is_ok (active_client P now (uuid w 0) d')" by (auto simp: is_ok_def)
  have "find (\<lambda>r. wc_token_hash r = sha256_hex P (ct_token t)) (d_clients d') = Some ?r"
  proof (rule find_only)
    fix y
    assume "y \<in> set (d_clients d')" "wc_token_hash y = sha256_hex P (ct_token t)"
    with fresh(2) show "y = ?r" by (simp add: d' t) (metis imageI)
  qed (simp_all add: d' t)
  with act assms(2,3) show ?thesis by (simp add: authenticate_client_def t)
qed

theorem approved_client_authenticates_witness:
  "\<exists>t d'. create_work_client demo_platform demo_token_draw ''build bot'' [''https://a''] 60 demo_work = Inr (t, d')
     \<and> authenticate_client demo_platform 5 (ct_token t) d' = Inr (Some (Client (ct_id t)))"
proof -
  let ?h = "hex_encode demo_platform (random demo_token_draw 0)"
  have hex: "?h = concat (replicate 32 [demo_digit 4, demo_digit 1])"
    by (simp add: demo_platform_def demo_token_draw_def demo_draw_def map_replicate)
  have "is_ok (create_work_client demo_platform demo_token_draw ''build bot'' [''https://a''] 60 demo_work)"
    by (simp add: create_work_client_def label_def trim_def trim_start_def trim_end_def strip_with.simps
        white_space_def insert_client_def demo_audit demo_token_draw_def demo_draw_def demo_work_def
        work_enabled_def demo_vault_def empty_db_def demo_platform_def)
  then obtain t d' where r: "create_work_client demo_platform demo_token_draw ''build bot'' [''https://a''] 60
      demo_work = Inr (t, d')"
    by (auto simp: is_ok_def split: sum.splits)
  have h1: "length ?h = 64" "list_all ascii_hexdigit ?h" unfolding hex by code_simp+
  have h2: "parse_time demo_platform (rfc3339 demo_platform (now_at demo_token_draw + 60 * second))
      = Some (now_at demo_token_draw + 60 * second)" "5 < now_at demo_token_draw + 60 * second"
    by (simp_all add: demo_platform_def demo_token_draw_def demo_draw_def second_def digits_value_show)
  have h3: "\<forall>r \<in> set (d_clients demo_work). wc_destinations r \<noteq> None" by (simp add: demo_work_def)
  show ?thesis using r approved_client_authenticates [OF r h1 h2 h3] by blast
qed

text \<open>
  Revoking a client ends its access for good: after any later operations it is authorised
  for nothing, no token authenticates it, and none of the grants that were bound to it
  discloses anything to anyone again.
\<close>

theorem revoked_client_stays_out:
  assumes "revoke_client P w i d = Inr (True, d1)"
    and "d' = run_ops (work_step P) ops d1"
  shows "authorize_principal P now (Client i) destination g d' \<noteq> Inr ()
     \<and> authenticate_client P now token d' \<noteq> Inr (Some (Client i))
     \<and> (\<forall>x \<in> set (client_grants i d). x \<in> gr_id ` set (d_grants d) \<longrightarrow>
          context_for P now x destination query d' = Inl (Bail ''Grant has been revoked''))"
proof -
  from revoke_client_out [OF assms(1)] have "client_out i d1" by simp
  then have out: "client_out i d'" unfolding assms(2) by (rule client_revocation.run_inv)
  note act = client_out_active [OF this, of P now]
  have "authorize_principal P now (Client i) destination g d' \<noteq> Inr ()"
    using act by (auto dest!: authorize_client_Inr)
  moreover have "authenticate_client P now token d' \<noteq> Inr (Some (Client i))"
    using act by (auto simp: authenticate_client_def split: option.splits)
  moreover have "context_for P now x destination query d' = Inl (Bail ''Grant has been revoked'')"
    if "x \<in> set (client_grants i d)" "x \<in> gr_id ` set (d_grants d)" for x
  proof -
    from revoke_client_grants [OF assms(1)] that have "revoked_in x d1" by simp
    then have "revoked_in x d'" unfolding assms(2) by (rule grant_revocation.run_inv)
    then show ?thesis by (simp add: context_for_def revoked_grant_check)
  qed
  ultimately show ?thesis by blast
qed

theorem revoked_client_stays_out_witness:
  "\<exists>d1. revoke_client demo_platform (demo_draw 2 ''u'') ''c1'' demo_work = Inr (True, d1)
     \<and> context_for demo_platform 3 ''g1'' ''https://a'' None d1 = Inl (Bail ''Grant has been revoked'')"
proof -
  have "case revoke_client demo_platform (demo_draw 2 ''u'') ''c1'' demo_work of
      Inl e \<Rightarrow> False | Inr (b, d') \<Rightarrow> b"
    by code_simp
  then obtain d1 where r: "revoke_client demo_platform (demo_draw 2 ''u'') ''c1'' demo_work = Inr (True, d1)"
    by (auto split: sum.splits)
  have e: "d1 = run_ops (work_step demo_platform) [] d1" by simp
  have "''g1'' \<in> set (client_grants ''c1'' demo_work)" "''g1'' \<in> gr_id ` set (d_grants demo_work)"
    by (simp_all add: client_grants_def demo_work_def demo_vault_def)
  then show ?thesis using r revoked_client_stays_out [OF r e] by blast
qed

text \<open>
  A client acts only within its approval: it is authorised only while the installation is
  enabled and the client neither revoked nor expired, only for a destination it was approved
  for, and with a grant only if that grant is bound to this very client; an unapproved legacy
  caller is authorised only while the installation is not a work installation.
\<close>

theorem authorization_respects_approval:
  assumes "authorize_principal P now p destination g d = Inr ()"
  shows "case p of Owner \<Rightarrow> True
     | Legacy \<Rightarrow> (\<exists>row. d_instance d = Some row \<and> \<not> wi_enabled row)
     | Client i \<Rightarrow> (\<exists>row. d_instance d = Some row \<and> wi_enabled row)
         \<and> (\<exists>r \<in> set (d_clients d). wc_id r = i \<and> wc_revoked r = None
              \<and> (\<exists>ds. wc_destinations r = Some ds \<and> destination \<in> set ds)
              \<and> (\<exists>expiry. parse_time P (wc_expires r) = Some expiry \<and> now < expiry))
         \<and> (\<forall>x. g = Some x \<longrightarrow> (\<exists>b \<in> set (d_bindings d). wg_grant b = x \<and> wg_client b = i))"
proof (cases p)
  case Owner
  then show ?thesis by simp
next
  case Legacy
  with assms show ?thesis by (auto simp: authorize_principal_def work_enabled_def res_simps)
next
  case (Client i)
  from authorize_client_Inr [OF assms [unfolded Client]] obtain c where
    c: "active_client P now i d = Inr c" "destination \<in> set (cl_destinations c)"
    and g: "\<forall>x. g = Some x \<longrightarrow> map_option wg_client (t_find wg_grant x (d_bindings d)) = Some i" by blast
  have bound: "\<forall>x. g = Some x \<longrightarrow> (\<exists>b \<in> set (d_bindings d). wg_grant b = x \<and> wg_client b = i)"
  proof (intro allI impI)
    fix x
    assume "g = Some x"
    with g obtain b where "t_find wg_grant x (d_bindings d) = Some b" "wg_client b = i" by auto
    with t_find_Some [OF this(1)] show "\<exists>b \<in> set (d_bindings d). wg_grant b = x \<and> wg_client b = i" by blast
  qed
  from active_client_Inr [OF c(1)] c(2) bound show ?thesis
    unfolding Client principal.case by blast
qed

theorem authorization_respects_approval_witness:
  "authorize_principal demo_platform 3 (Client ''c1'') ''https://a'' (Some ''g1'') demo_work = Inr ()
   \<and> (\<exists>b \<in> set (d_bindings demo_work). wg_grant b = ''g1'' \<and> wg_client b = ''c1'')"
proof -
  have a: "authorize_principal demo_platform 3 (Client ''c1'') ''https://a'' (Some ''g1'') demo_work = Inr ()"
    by code_simp
  show ?thesis using a authorization_respects_approval [OF a] by simp
qed

end
