(* ===== verification/Continuity.thy ===== *)
theory Continuity
  imports Work
begin

text \<open>
  \<open>crates/omni-core/src/continuity.rs\<close>: saved conversations, opted in and bound to one
  destination, with at most one request in flight and replay of finished requests.
\<close>

section \<open>Conversations\<close>

text \<open>A \<open>Conversation\<close> has exactly the columns of its row. Deleting a thread cascades to its
  turns.\<close>

definition drop_threads :: "(thread_row \<Rightarrow> bool) \<Rightarrow> db \<Rightarrow> db" where
  "drop_threads p d =
     (let gone = th_id ` {t \<in> set (d_threads d). p t}
      in d\<lparr>d_threads := filter (\<lambda>t. \<not> p t) (d_threads d),
           d_turns := filter (\<lambda>u. tu_thread u \<notin> gone) (d_turns d)\<rparr>)"

definition prune_conversations :: "platform \<Rightarrow> int \<Rightarrow> db \<Rightarrow> db" where
  "prune_conversations P now d = drop_threads (\<lambda>t. th_expires t \<le> rfc3339 P now) d"

text \<open>\<open>conversations\<close> prunes before it reads; the readers below return the pruned vault.\<close>

definition thread_list :: "db \<Rightarrow> thread_row list" where
  "thread_list d = order_desc th_created (sort_key th_id (d_threads d))"

definition conversations :: "platform \<Rightarrow> int \<Rightarrow> db \<Rightarrow> thread_row list stmts" where
  "conversations P now d = (let d' = prune_conversations P now d in (Inr (thread_list d'), d'))"

definition conversation :: "platform \<Rightarrow> int \<Rightarrow> string \<Rightarrow> db \<Rightarrow> thread_row stmts" where
  "conversation P now i d =
     then_stmt (conversations P now d) (\<lambda>ts d'.
       (ok_or (find (\<lambda>c. th_id c = i) ts) (Bail ''Conversation is missing or expired''), d'))"

record conversation_input =
  ci_title :: string
  ci_scope :: string
  ci_provider :: string
  ci_model :: string
  ci_grant :: "string option"
  ci_days :: nat
  ci_consent :: bool

definition day :: int where "day = 86400 * second"

definition insert_thread :: "thread_row \<Rightarrow> db \<Rightarrow> db res" where
  "insert_thread t d = rbind (t_insert th_id t (d_threads d)) (\<lambda>rows. Inr (d\<lparr>d_threads := rows\<rparr>))"

text \<open>The transaction of a creation, after the checks.\<close>

definition insert_conversation ::
    "platform \<Rightarrow> draw \<Rightarrow> conversation_input \<Rightarrow> string \<Rightarrow> string \<Rightarrow> string \<Rightarrow> string \<Rightarrow> db \<Rightarrow> unit tx" where
  "insert_conversation P w input destination title scope model d =
     rbind (insert_thread \<lparr>th_id = uuid w 0, th_title = title, th_scope = scope,
         th_provider = ci_provider input, th_destination = destination, th_model = model,
         th_grant = ci_grant input, th_created = rfc3339 P (now_at w),
         th_expires = rfc3339 P (now_at w + int (ci_days input) * day), th_revision = 0,
         th_pending = None\<rparr> d) (\<lambda>d1.
     audited P w 1 ''conversation_created''
       ((entity (uuid w 0))\<lparr>ad_days := Some (ci_days input)\<rparr>) () d1)"

definition create_checks ::
    "platform \<Rightarrow> int \<Rightarrow> conversation_input \<Rightarrow> string \<Rightarrow> db \<Rightarrow> (string \<times> string \<times> string) res" where
  "create_checks P now input destination d =
     rbind (ensure (\<not> 64 \<le> length (thread_list d))
       ''Delete an existing conversation before storing more than 64'') (\<lambda>_.
     rbind (case ci_grant input of None \<Rightarrow> Inr []
            | Some g \<Rightarrow> context_for P now g destination None d) (\<lambda>_.
     rbind (label (ci_title input)) (\<lambda>title.
     rbind (label (ci_scope input)) (\<lambda>scope.
     rbind (label (ci_model input)) (\<lambda>model. Inr (title, scope, model))))))"

definition create_conversation ::
    "platform \<Rightarrow> draw \<Rightarrow> conversation_input \<Rightarrow> string \<Rightarrow> db \<Rightarrow> thread_row stmts" where
  "create_conversation P w input destination d =
     (if \<not> ci_consent input then (Inl (Bail ''Conversation storage requires explicit opt-in''), d)
      else if \<not> (1 \<le> ci_days input \<and> ci_days input \<le> 30)
      then (Inl (Bail ''Conversation retention must be 1-30 days''), d)
      else
        let d0 = prune_conversations P (now_at w) d in
        case create_checks P (now_at w) input destination d0 of
          Inl e \<Rightarrow> (Inl e, d0)
        | Inr (title, scope, model) \<Rightarrow>
            then_stmt (commit (insert_conversation P w input destination title scope model d0) d0)
              (\<lambda>_ d1. conversation P (now_at w) (uuid w 0) d1))"

definition conversation_messages ::
    "platform \<Rightarrow> int \<Rightarrow> string \<Rightarrow> db \<Rightarrow> (thread_row \<times> turn_row list) stmts" where
  "conversation_messages P now i d =
     then_stmt (conversation P now i d) (\<lambda>c d'.
       (Inr (c, sort_key tu_position (filter (\<lambda>u. tu_thread u = i) (d_turns d'))), d'))"

definition delete_conversation :: "platform \<Rightarrow> draw \<Rightarrow> string \<Rightarrow> db \<Rightarrow> bool tx" where
  "delete_conversation P w i d =
     (let found = (t_find th_id i (d_threads d) \<noteq> None)
      in if found then audited P w 0 ''conversation_deleted'' (entity i) True
                         (drop_threads (\<lambda>t. th_id t = i) d)
         else Inr (False, d))"

definition clear_conversation_attempt :: "string \<Rightarrow> string \<Rightarrow> db \<Rightarrow> unit tx" where
  "clear_conversation_attempt i expected d =
     (if \<exists>t \<in> set (d_threads d). th_id t = i \<and> th_pending t = Some expected
      then Inr ((), d\<lparr>d_threads := map (\<lambda>t. if th_id t = i \<and> th_pending t = Some expected
             then t\<lparr>th_pending := None, th_revision := th_revision t + 1\<rparr> else t) (d_threads d)\<rparr>)
      else Inl (Bail ''Pending request changed; reload the conversation''))"

section \<open>Requests\<close>

record replay =
  rl_reply :: string
  rl_receipt :: "string option"
  rl_interaction :: string
  rl_revision :: int

record prepared =
  pp_id :: string
  pp_request :: string
  pp_hash :: string
  pp_revision :: int
  pp_message :: string
  pp_history :: "(string \<times> string) list"
  pp_replay :: "replay option"

text \<open>The budget of the history, newest exchange first: the first that does not fit ends it.\<close>

fun take_pairs :: "nat \<Rightarrow> (string \<times> string) list \<Rightarrow> (string \<times> string) list" where
  "take_pairs budget [] = []"
| "take_pairs budget ((user, assistant) # rest) =
     (let size = length user + length assistant
      in if size > budget then [] else (user, assistant) # take_pairs (budget - size) rest)"

definition recent_pairs :: "string \<Rightarrow> db \<Rightarrow> (string \<times> string) list" where
  "recent_pairs i d =
     map (\<lambda>u. (tu_user u, tu_assistant u))
       (take 10 (order_desc tu_position (filter (\<lambda>u. tu_thread u = i) (d_turns d))))"

text \<open>The chronological chat messages, as (role, content) pairs.\<close>

definition history_messages :: "(string \<times> string) list \<Rightarrow> (string \<times> string) list" where
  "history_messages pairs =
     concat (map (\<lambda>(user, assistant). [(''user'', user), (''assistant'', assistant)]) (rev pairs))"

definition find_turn :: "string \<Rightarrow> string \<Rightarrow> db \<Rightarrow> turn_row option" where
  "find_turn i request d = find (\<lambda>u. tu_thread u = i \<and> tu_request u = request) (d_turns d)"

record request =
  rq_id :: string
  rq_request :: string
  rq_revision :: int
  rq_provider :: string
  rq_destination :: string
  rq_model :: string
  rq_grant :: "string option"
  rq_message :: string

definition prepare_checks :: "platform \<Rightarrow> request \<Rightarrow> unit res" where
  "prepare_checks P q =
     rbind (ensure (uuid_ok P (rq_request q)) ''A fresh request UUID is required'') (\<lambda>_.
     ensure (\<not> (trim (rq_message q) = [] \<or> length (rq_message q) > 60000))
       ''Saved conversation messages must contain 1-60000 UTF-8 bytes'')"

text \<open>The decision on the loaded conversation: a replay, or the history to send.\<close>

definition prepare_with :: "platform \<Rightarrow> int \<Rightarrow> request \<Rightarrow> thread_row \<Rightarrow> db \<Rightarrow> prepared res" where
  "prepare_with P now q c d =
     rbind (ensure (\<not> (th_provider c \<noteq> rq_provider q \<or> th_destination c \<noteq> rq_destination q
         \<or> th_model c \<noteq> rq_model q \<or> th_grant c \<noteq> rq_grant q))
       ''This conversation authorizes a different provider, model or permission; start a separate conversation'') (\<lambda>_.
     rbind (case rq_grant q of None \<Rightarrow> Inr []
            | Some g \<Rightarrow> context_for P now g (rq_destination q) None d) (\<lambda>_.
     let hash = sha256_hex P (rq_message q);
         p = \<lparr>pp_id = rq_id q, pp_request = rq_request q, pp_hash = hash,
              pp_revision = rq_revision q, pp_message = rq_message q, pp_history = [], pp_replay = None\<rparr>
     in case find_turn (rq_id q) (rq_request q) d of
          Some u \<Rightarrow>
            rbind (ensure (tu_hash u = hash) ''Request UUID was already used for different content'') (\<lambda>_.
            Inr (p\<lparr>pp_replay := Some \<lparr>rl_reply = tu_assistant u, rl_receipt = tu_receipt u,
                rl_interaction = tu_interaction u, rl_revision = th_revision c\<rparr>\<rparr>))
        | None \<Rightarrow>
            rbind (ensure (th_pending c = None)
              ''A previous request is pending or uncertain. Inspect History before clearing that attempt'') (\<lambda>_.
            rbind (ensure (th_revision c = rq_revision q) ''Conversation changed; reload before sending'') (\<lambda>_.
            rbind (ensure (rq_revision q < 100)
              ''A conversation retains at most 100 exchanges; start a new scoped conversation'') (\<lambda>_.
            Inr (p\<lparr>pp_history := history_messages (take_pairs 40000 (recent_pairs (rq_id q) d))\<rparr>))))))"

definition mark_pending :: "prepared \<Rightarrow> db \<Rightarrow> db" where
  "mark_pending p d =
     d\<lparr>d_threads := map (\<lambda>t. if th_id t = pp_id p \<and> th_revision t = pp_revision p \<and> th_pending t = None
         then t\<lparr>th_pending := Some (pp_request p)\<rparr> else t) (d_threads d)\<rparr>"

definition prepare_conversation :: "platform \<Rightarrow> int \<Rightarrow> request \<Rightarrow> db \<Rightarrow> prepared stmts" where
  "prepare_conversation P now q d =
     (case prepare_checks P q of
        Inl e \<Rightarrow> (Inl e, d)
      | Inr _ \<Rightarrow>
          then_stmt (conversation P now (rq_id q) d) (\<lambda>c d0.
            case prepare_with P now q c d0 of
              Inl e \<Rightarrow> (Inl e, d0)
            | Inr p \<Rightarrow> (Inr p, if pp_replay p \<noteq> None then d0 else mark_pending p d0)))"

text \<open>INSERT INTO continuity\_turns: the request and the position are unique in a thread.\<close>

definition insert_turn :: "turn_row \<Rightarrow> db \<Rightarrow> db res" where
  "insert_turn u d =
     (if \<exists>v \<in> set (d_turns d). tu_thread v = tu_thread u
          \<and> (tu_request v = tu_request u \<or> tu_position v = tu_position u)
      then Inl (Sql ''UNIQUE constraint failed'')
      else if tu_thread u \<notin> th_id ` set (d_threads d) then Inl (Sql ''FOREIGN KEY constraint failed'')
      else Inr (d\<lparr>d_turns := d_turns d @ [u]\<rparr>))"

definition save_turn ::
    "platform \<Rightarrow> draw \<Rightarrow> prepared \<Rightarrow> string \<Rightarrow> string option \<Rightarrow> string \<Rightarrow> db \<Rightarrow> bool tx" where
  "save_turn P w p reply receipt ia d =
     rbind (insert_turn \<lparr>tu_thread = pp_id p, tu_request = pp_request p, tu_hash = pp_hash p,
         tu_user = pp_message p, tu_assistant = reply, tu_receipt = receipt, tu_interaction = ia,
         tu_created = rfc3339 P (now_at w), tu_position = pp_revision p + 1\<rparr> d) (\<lambda>d1.
     audited P w 0 ''conversation_saved'' (entity (pp_id p)) True
       (d1\<lparr>d_threads := t_update th_id (pp_id p)
             (\<lambda>t. t\<lparr>th_pending := None, th_revision := th_revision t + 1\<rparr>) (d_threads d1)\<rparr>))"

definition finish_conversation ::
    "platform \<Rightarrow> draw \<Rightarrow> prepared \<Rightarrow> string \<Rightarrow> string option \<Rightarrow> string \<Rightarrow> db \<Rightarrow> bool stmts" where
  "finish_conversation P w p reply receipt ia d =
     (if length reply > 100000
      then (Inl (Bail ''Provider answered, but the reply exceeds the saved-conversation limit. Inspect History before retrying''), d)
      else case conversation P (now_at w) (pp_id p) d of
          (Inl _, d0) \<Rightarrow> (Inr False, d0)
        | (Inr c, d0) \<Rightarrow>
            if th_pending c \<noteq> Some (pp_request p) \<or> th_revision c \<noteq> pp_revision p then (Inr False, d0)
            else case parse_time P (th_expires c) of
                None \<Rightarrow> (Inl (Decode ''expires_at''), d0)
              | Some expiry \<Rightarrow>
                  if expiry \<le> now_at w then (Inr False, d0)
                  else commit (save_turn P w p reply receipt ia d0) d0)"

section \<open>Well-formed conversations\<close>

text \<open>
  Thread identifiers are unique; a turn belongs to a thread, at a position between 1 and the
  thread's revision and at most 100, which no other turn of the thread has; a pending request
  leaves room for its turn.
\<close>

definition turn_ok :: "thread_row list \<Rightarrow> turn_row \<Rightarrow> bool" where
  "turn_ok ts u \<longleftrightarrow> 1 \<le> tu_position u \<and> tu_position u \<le> 100
     \<and> (\<exists>t \<in> set ts. th_id t = tu_thread u \<and> tu_position u \<le> th_revision t)"

definition continuity_wf :: "db \<Rightarrow> bool" where
  "continuity_wf d \<longleftrightarrow> distinct (map th_id (d_threads d))
     \<and> (\<forall>t \<in> set (d_threads d). 0 \<le> th_revision t \<and> (th_pending t \<noteq> None \<longrightarrow> th_revision t < 100))
     \<and> (\<forall>u \<in> set (d_turns d). turn_ok (d_threads d) u)
     \<and> distinct (map (\<lambda>u. (tu_thread u, tu_position u)) (d_turns d))
     \<and> distinct (map (\<lambda>u. (tu_thread u, tu_request u)) (d_turns d))"

lemma continuity_wf_same:
  "d_threads d' = d_threads d \<Longrightarrow> d_turns d' = d_turns d \<Longrightarrow> continuity_wf d' = continuity_wf d"
  by (simp add: continuity_wf_def)

lemma continuity_wf_audit: "audit_on P w k a x d = Inr d' \<Longrightarrow> continuity_wf d' = continuity_wf d"
  by (rule continuity_wf_same) (simp_all add: audit_on_frame)

lemma drop_threads_set:
  "set (d_threads (drop_threads p d)) = {t \<in> set (d_threads d). \<not> p t}"
  "set (d_turns (drop_threads p d)) = {u \<in> set (d_turns d). tu_thread u \<notin> th_id ` {t \<in> set (d_threads d). p t}}"
  by (auto simp: drop_threads_def Let_def)

lemma drop_threads_wf:
  assumes "continuity_wf d"
  shows "continuity_wf (drop_threads p d)"
proof -
  have "turn_ok (d_threads (drop_threads p d)) u" if u: "u \<in> set (d_turns (drop_threads p d))" for u
  proof -
    from u have "turn_ok (d_threads d) u" using assms by (simp add: drop_threads_set continuity_wf_def)
    then obtain t where t: "t \<in> set (d_threads d)" "th_id t = tu_thread u" "tu_position u \<le> th_revision t"
      "1 \<le> tu_position u" "tu_position u \<le> 100" by (auto simp: turn_ok_def)
    from u t(1,2) have "\<not> p t" by (auto simp: drop_threads_set image_iff)
    with t show ?thesis by (auto simp: turn_ok_def drop_threads_set)
  qed
  with assms show ?thesis
    by (simp add: continuity_wf_def drop_threads_set)
      (simp add: drop_threads_def Let_def distinct_map_filter)
qed

lemma prune_wf: "continuity_wf d \<Longrightarrow> continuity_wf (prune_conversations P now d)"
  unfolding prune_conversations_def by (rule drop_threads_wf)

lemma conversation_snd: "snd (conversation P now i d) = prune_conversations P now d"
  by (simp add: conversation_def conversations_def Let_def)

lemma conversation_Inr:
  assumes "conversation P now i d = (Inr c, d0)"
  shows "d0 = prune_conversations P now d \<and> c \<in> set (d_threads d0) \<and> th_id c = i"
proof -
  have "d0 = prune_conversations P now d" using arg_cong [OF assms, of snd] by (simp add: conversation_snd)
  moreover have "find (\<lambda>c. th_id c = i) (thread_list d0) = Some c"
    using assms by (auto simp: conversation_def conversations_def Let_def ok_or_eq_Inr)
  ultimately show ?thesis using find_SomeD [of "\<lambda>c. th_id c = i" "thread_list d0" c]
    by (simp add: thread_list_def)
qed

lemma conversation_cases:
  assumes "conversation P now i d = (r, d0)"
  shows "d0 = prune_conversations P now d"
  using arg_cong [OF assms, of snd] by (simp add: conversation_snd)

text \<open>Changing threads without moving them.\<close>

lemma map_threads_wf:
  assumes wf: "continuity_wf d"
    and "\<And>t. th_id (f t) = th_id t" "\<And>t. th_revision t \<le> th_revision (f t)"
    and "\<And>t. t \<in> set (d_threads d) \<Longrightarrow> th_pending (f t) \<noteq> None \<Longrightarrow> th_revision (f t) < 100"
  shows "continuity_wf (d\<lparr>d_threads := map f (d_threads d)\<rparr>)"
proof -
  have "map th_id (map f (d_threads d)) = map th_id (d_threads d)" using assms(2) by simp
  moreover have "turn_ok (map f (d_threads d)) u" if u: "u \<in> set (d_turns d)" for u
  proof -
    from u wf have "turn_ok (d_threads d) u" by (simp add: continuity_wf_def)
    then obtain t where t: "t \<in> set (d_threads d)" "th_id t = tu_thread u" "tu_position u \<le> th_revision t"
      "1 \<le> tu_position u" "tu_position u \<le> 100" by (auto simp: turn_ok_def)
    then have "f t \<in> set (map f (d_threads d))" "th_id (f t) = tu_thread u" "tu_position u \<le> th_revision (f t)"
      using assms(2) [of t] assms(3) [of t] by auto
    with t(4,5) show ?thesis unfolding turn_ok_def by blast
  qed
  moreover have "0 \<le> th_revision (f t)" if "t \<in> set (d_threads d)" for t
    using that wf assms(3) [of t] by (force simp: continuity_wf_def)
  ultimately show ?thesis using wf assms(4) by (auto simp: continuity_wf_def simp del: map_map)
qed

lemma mark_pending_wf:
  assumes "continuity_wf d" "pp_revision p < 100"
  shows "continuity_wf (mark_pending p d)"
  unfolding mark_pending_def
  by (rule map_threads_wf [OF assms(1)]) (use assms in \<open>auto simp: continuity_wf_def split: if_splits\<close>)

lemma prepare_with_revision:
  assumes "prepare_with P now q c d = Inr p"
  shows "pp_id p = rq_id q \<and> pp_request p = rq_request q \<and> pp_revision p = rq_revision q
     \<and> pp_hash p = sha256_hex P (rq_message q) \<and> pp_message p = rq_message q
     \<and> (pp_replay p = None \<longrightarrow> find_turn (rq_id q) (rq_request q) d = None \<and> th_pending c = None
          \<and> th_revision c = rq_revision q \<and> rq_revision q < 100
          \<and> pp_history p = history_messages (take_pairs 40000 (recent_pairs (rq_id q) d)))
     \<and> (\<forall>rl. pp_replay p = Some rl \<longrightarrow> pp_history p = [] \<and> (\<exists>u. find_turn (rq_id q) (rq_request q) d = Some u
          \<and> tu_hash u = pp_hash p \<and> rl_reply rl = tu_assistant u \<and> rl_interaction rl = tu_interaction u))
     \<and> th_provider c = rq_provider q \<and> th_destination c = rq_destination q \<and> th_model c = rq_model q
     \<and> th_grant c = rq_grant q
     \<and> (\<forall>g. rq_grant q = Some g \<longrightarrow> is_ok (context_for P now g (rq_destination q) None d))"
proof (cases "find_turn (rq_id q) (rq_request q) d")
  case None
  with assms show ?thesis
    by (simp add: prepare_with_def rbind_eq_Inr ensure_eq_Inr Let_def)
      (cases "rq_grant q"; auto simp: is_ok_def)
next
  case (Some u)
  with assms show ?thesis
    by (simp add: prepare_with_def rbind_eq_Inr ensure_eq_Inr Let_def)
      (cases "rq_grant q"; auto simp: is_ok_def)
qed

lemma prepare_conversation_Inr:
  assumes "prepare_conversation P now q d = (Inr p, d')"
  shows "\<exists>c d0. conversation P now (rq_id q) d = (Inr c, d0) \<and> prepare_with P now q c d0 = Inr p
     \<and> d' = (if pp_replay p \<noteq> None then d0 else mark_pending p d0)"
  using assms
  by (cases "pp_replay p") (auto simp: prepare_conversation_def then_stmt_def split: sum.splits prod.splits)

lemma prepare_conversation_wf:
  assumes wf: "continuity_wf d"
  shows "continuity_wf (snd (prepare_conversation P now q d))"
proof (cases "prepare_checks P q")
  case (Inl e)
  with wf show ?thesis by (simp add: prepare_conversation_def)
next
  case (Inr u)
  obtain r d0 where c: "conversation P now (rq_id q) d = (r, d0)" by (cases "conversation P now (rq_id q) d")
  have wf0: "continuity_wf d0" unfolding conversation_cases [OF c] by (rule prune_wf [OF wf])
  show ?thesis
  proof (cases r)
    case (Inl e)
    with Inr c wf0 show ?thesis by (simp add: prepare_conversation_def)
  next
    case (Inr t)
    show ?thesis
    proof (cases "prepare_with P now q t d0")
      case (Inl e)
      with \<open>prepare_checks P q = Inr u\<close> c Inr wf0 show ?thesis by (simp add: prepare_conversation_def)
    next
      case (Inr p)
      have "continuity_wf (if pp_replay p \<noteq> None then d0 else mark_pending p d0)"
        using prepare_with_revision [OF Inr] wf0 by (auto intro: mark_pending_wf)
      with \<open>prepare_checks P q = Inr u\<close> c \<open>r = Inr t\<close> Inr show ?thesis
        by (simp add: prepare_conversation_def)
    qed
  qed
qed

lemma insert_turn_Inr:
  "insert_turn u d = Inr d' \<longleftrightarrow>
   (\<forall>v \<in> set (d_turns d). tu_thread v = tu_thread u \<longrightarrow>
      tu_request v \<noteq> tu_request u \<and> tu_position v \<noteq> tu_position u)
   \<and> tu_thread u \<in> th_id ` set (d_threads d) \<and> d' = d\<lparr>d_turns := d_turns d @ [u]\<rparr>"
  by (auto simp: insert_turn_def split: if_splits)

lemma save_turn_Inr:
  assumes "save_turn P w p reply receipt ia d = Inr (b, d')"
  shows "b \<and> (\<exists>d1. insert_turn \<lparr>tu_thread = pp_id p, tu_request = pp_request p, tu_hash = pp_hash p,
         tu_user = pp_message p, tu_assistant = reply, tu_receipt = receipt, tu_interaction = ia,
         tu_created = rfc3339 P (now_at w), tu_position = pp_revision p + 1\<rparr> d = Inr d1
     \<and> audit_on P w 0 ''conversation_saved'' (entity (pp_id p))
        (d1\<lparr>d_threads := t_update th_id (pp_id p)
             (\<lambda>t. t\<lparr>th_pending := None, th_revision := th_revision t + 1\<rparr>) (d_threads d1)\<rparr>) = Inr d')"
  using assms by (auto simp: save_turn_def rbind_eq_Inr audited_Inr)

lemma save_turn_wf:
  assumes "save_turn P w p reply receipt ia d = Inr (b, d')" and wf: "continuity_wf d"
    and c: "c \<in> set (d_threads d)" "th_id c = pp_id p" "th_pending c \<noteq> None" "th_revision c = pp_revision p"
  shows "continuity_wf d'"
proof -
  let ?u = "\<lparr>tu_thread = pp_id p, tu_request = pp_request p, tu_hash = pp_hash p,
         tu_user = pp_message p, tu_assistant = reply, tu_receipt = receipt, tu_interaction = ia,
         tu_created = rfc3339 P (now_at w), tu_position = pp_revision p + 1\<rparr>"
  let ?g = "\<lambda>t. t\<lparr>th_pending := None, th_revision := th_revision t + 1\<rparr>"
  let ?f = "\<lambda>t. if th_id t = pp_id p then ?g t else t"
  from save_turn_Inr [OF assms(1)] obtain d1 where ins: "insert_turn ?u d = Inr d1"
    and au: "audit_on P w 0 ''conversation_saved'' (entity (pp_id p))
        (d1\<lparr>d_threads := t_update th_id (pp_id p) ?g (d_threads d1)\<rparr>) = Inr d'" by blast
  from ins have d1: "d1 = d\<lparr>d_turns := d_turns d @ [?u]\<rparr>"
    and fresh: "\<forall>v \<in> set (d_turns d). tu_thread v = pp_id p \<longrightarrow>
      tu_request v \<noteq> pp_request p \<and> tu_position v \<noteq> pp_revision p + 1"
    by (auto simp: insert_turn_Inr)
  from wf c have pos: "0 \<le> pp_revision p" "pp_revision p < 100" by (auto simp: continuity_wf_def)
  let ?e = "d\<lparr>d_threads := map ?f (d_threads d)\<rparr>"
  have one: "continuity_wf ?e"
    by (rule map_threads_wf [OF wf]) (use wf in \<open>auto simp: continuity_wf_def split: if_splits\<close>)
  have "?f c \<in> set (map ?f (d_threads d))" using c(1) by (simp only: set_map) blast
  then have "turn_ok (map ?f (d_threads d)) ?u"
    unfolding turn_ok_def using pos c by (intro conjI bexI [of _ "?f c"]) auto
  then have "continuity_wf (?e\<lparr>d_turns := d_turns ?e @ [?u]\<rparr>)"
    using one fresh by (auto simp: continuity_wf_def)
  then have "continuity_wf (d1\<lparr>d_threads := t_update th_id (pp_id p) ?g (d_threads d1)\<rparr>)"
    by (simp add: d1 t_update_def continuity_wf_def)
  with au show ?thesis by (simp add: continuity_wf_audit)
qed

lemma finish_conversation_cases:
  assumes "finish_conversation P w p reply receipt ia d = (r, d')"
  shows "d' = d \<or> d' = prune_conversations P (now_at w) d
     \<or> (r = Inr True \<and> (\<exists>c. c \<in> set (d_threads (prune_conversations P (now_at w) d)) \<and> th_id c = pp_id p
          \<and> th_pending c = Some (pp_request p) \<and> th_revision c = pp_revision p
          \<and> save_turn P w p reply receipt ia (prune_conversations P (now_at w) d) = Inr (True, d')))"
    and "r = Inr True \<Longrightarrow> \<exists>c. c \<in> set (d_threads (prune_conversations P (now_at w) d)) \<and> th_id c = pp_id p
          \<and> th_pending c = Some (pp_request p) \<and> th_revision c = pp_revision p
          \<and> save_turn P w p reply receipt ia (prune_conversations P (now_at w) d) = Inr (True, d')"
proof -
  let ?s = "\<exists>c. c \<in> set (d_threads (prune_conversations P (now_at w) d)) \<and> th_id c = pp_id p
          \<and> th_pending c = Some (pp_request p) \<and> th_revision c = pp_revision p
          \<and> save_turn P w p reply receipt ia (prune_conversations P (now_at w) d) = Inr (True, d')"
  obtain x d0 where c: "conversation P (now_at w) (pp_id p) d = (x, d0)"
    by (cases "conversation P (now_at w) (pp_id p) d")
  have d0: "d0 = prune_conversations P (now_at w) d" by (rule conversation_cases [OF c])
  have "(r \<noteq> Inr True \<and> (d' = d \<or> d' = prune_conversations P (now_at w) d)) \<or> (r = Inr True \<and> ?s)"
  proof (cases x)
    case (Inl e)
    with assms c d0 show ?thesis by (auto simp: finish_conversation_def split: if_splits)
  next
    case (Inr t)
    with c have t: "t \<in> set (d_threads d0)" "th_id t = pp_id p" using conversation_Inr [of P "now_at w" "pp_id p" d t d0] by auto
    show ?thesis
    proof (cases "save_turn P w p reply receipt ia d0")
      case (Inl e)
      with assms c d0 \<open>x = Inr t\<close> show ?thesis
        by (auto simp: finish_conversation_def split: if_splits option.splits)
    next
      case (Inr y)
      obtain b d2 where "y = (b, d2)" by (cases y)
      with Inr save_turn_Inr [of P w p reply receipt ia d0 b d2] have y: "y = (True, d2)" by simp
      with assms c d0 \<open>x = Inr t\<close> Inr t show ?thesis
        by (auto simp: finish_conversation_def split: if_splits option.splits)
    qed
  qed
  then show "d' = d \<or> d' = prune_conversations P (now_at w) d \<or> (r = Inr True \<and> ?s)"
    and "r = Inr True \<Longrightarrow> ?s" by blast+
qed

lemma finish_conversation_wf:
  assumes wf: "continuity_wf d"
  shows "continuity_wf (snd (finish_conversation P w p reply receipt ia d))"
proof -
  obtain r d' where f: "finish_conversation P w p reply receipt ia d = (r, d')"
    by (cases "finish_conversation P w p reply receipt ia d")
  have wf0: "continuity_wf (prune_conversations P (now_at w) d)" by (rule prune_wf [OF wf])
  from finish_conversation_cases(1) [OF f] have "continuity_wf d'"
    using wf wf0 save_turn_wf [OF _ wf0] by auto
  with f show ?thesis by simp
qed

section \<open>Conversations as a state machine\<close>

datatype chat_op =
    CreateConversation conversation_input string
  | Prepare request
  | Finish prepared string "string option" string
  | ClearAttempt string string
  | DeleteConversation string
  | ListConversations

fun chat_step :: "platform \<Rightarrow> draw \<times> chat_op \<Rightarrow> db \<Rightarrow> db" where
  "chat_step P (w, CreateConversation input dest) d = snd (create_conversation P w input dest d)"
| "chat_step P (w, Prepare q) d = snd (prepare_conversation P (now_at w) q d)"
| "chat_step P (w, Finish p reply receipt ia) d = snd (finish_conversation P w p reply receipt ia d)"
| "chat_step P (w, ClearAttempt i r) d = after (clear_conversation_attempt i r d) d"
| "chat_step P (w, DeleteConversation i) d = after (delete_conversation P w i d) d"
| "chat_step P (w, ListConversations) d = snd (conversations P (now_at w) d)"

lemma insert_conversation_wf:
  assumes "insert_conversation P w input dest title scope model d = Inr (u, d')" "continuity_wf d"
  shows "continuity_wf d'"
proof -
  from assms(1) obtain d1 where "audit_on P w 1 ''conversation_created''
       ((entity (uuid w 0))\<lparr>ad_days := Some (ci_days input)\<rparr>) d1 = Inr d'"
    and "continuity_wf d1"
    using assms(2)
    by (auto simp: insert_conversation_def insert_thread_def rbind_eq_Inr audited_Inr t_insert_Inr
        continuity_wf_def turn_ok_def)
  then show ?thesis by (simp add: continuity_wf_audit)
qed

lemma create_conversation_wf:
  assumes "continuity_wf d"
  shows "continuity_wf (snd (create_conversation P w input dest d))"
proof -
  let ?d0 = "prune_conversations P (now_at w) d"
  have wf0: "continuity_wf ?d0" by (rule prune_wf [OF assms])
  have "continuity_wf (snd (then_stmt (commit (insert_conversation P w input dest t s m ?d0) ?d0)
      (\<lambda>_ d1. conversation P (now_at w) (uuid w 0) d1)))" for t s m
  proof (rule snd_then_stmt)
    show "continuity_wf (snd (commit (insert_conversation P w input dest t s m ?d0) ?d0))"
      by (rule commit_cases [where Q = continuity_wf]) (use wf0 insert_conversation_wf in blast)+
  qed (simp add: conversation_snd prune_wf)
  with assms wf0 show ?thesis
    by (auto simp: create_conversation_def Let_def split: sum.splits)
qed

lemma clear_attempt_wf:
  assumes "clear_conversation_attempt i r d = Inr (u, d')" "continuity_wf d"
  shows "continuity_wf d'"
proof -
  have "d' = d\<lparr>d_threads := map (\<lambda>t. if th_id t = i \<and> th_pending t = Some r
             then t\<lparr>th_pending := None, th_revision := th_revision t + 1\<rparr> else t) (d_threads d)\<rparr>"
    using assms(1) by (simp add: clear_conversation_attempt_def split: if_splits)
  then show ?thesis
    by (simp only:) (rule map_threads_wf [OF assms(2)],
      use assms(2) in \<open>auto simp: continuity_wf_def split: if_splits\<close>)
qed

lemma delete_conversation_Inr:
  assumes "delete_conversation P w i d = Inr (b, d')"
  shows "if b then audit_on P w 0 ''conversation_deleted'' (entity i) (drop_threads (\<lambda>t. th_id t = i) d) = Inr d'
     else d' = d"
  using assms by (auto simp: delete_conversation_def audited_Inr Let_def split: if_splits)

lemma delete_conversation_wf:
  "delete_conversation P w i d = Inr (b, d') \<Longrightarrow> continuity_wf d \<Longrightarrow> continuity_wf d'"
  by (drule delete_conversation_Inr) (auto simp: continuity_wf_audit drop_threads_wf split: if_splits)

interpretation chat_machine: op_invariant "chat_step P" continuity_wf for P
proof
  fix d :: db and x :: "draw \<times> chat_op"
  assume wf: "continuity_wf d"
  obtain w y where x: "x = (w, y)" by (cases x)
  show "continuity_wf (chat_step P x d)"
  proof (cases y)
    case (ClearAttempt i r)
    show ?thesis unfolding x ClearAttempt chat_step.simps
      by (rule after_cases [where P = continuity_wf]) (use wf clear_attempt_wf in blast)+
  next
    case (DeleteConversation i)
    show ?thesis unfolding x DeleteConversation chat_step.simps
      by (rule after_cases [where P = continuity_wf]) (use wf delete_conversation_wf in blast)+
  qed (simp_all add: x wf create_conversation_wf prepare_conversation_wf finish_conversation_wf
      conversations_def Let_def prune_wf)
qed

text \<open>The turns of a thread are at most a hundred.\<close>

lemma turns_bounded:
  assumes "continuity_wf d"
  shows "length (filter (\<lambda>u. tu_thread u = i) (d_turns d)) \<le> 100"
proof -
  let ?us = "filter (\<lambda>u. tu_thread u = i) (d_turns d)"
  have "distinct (map (\<lambda>u. (tu_thread u, tu_position u)) ?us)"
    using assms by (simp add: continuity_wf_def distinct_map_filter)
  then have "distinct (map tu_position ?us)"
    by (auto simp: distinct_map inj_on_def)
  then have "length ?us = card (tu_position ` set ?us)"
    using distinct_card [of "map tu_position ?us"] by simp
  also have "\<dots> \<le> card {1..100 :: int}"
    using assms by (intro card_mono) (auto simp: continuity_wf_def turn_ok_def)
  finally show ?thesis by simp
qed

section \<open>One request in flight\<close>

text \<open>A prepared request that is not a replay marks its conversation, and a marked conversation
  admits replays only.\<close>

lemma drop_threads_none:
  assumes "\<forall>t \<in> set (d_threads d). \<not> p t"
  shows "drop_threads p d = d"
proof -
  have "filter (\<lambda>u. tu_thread u \<notin> th_id ` {t \<in> set (d_threads d). p t}) (d_turns d) = d_turns d"
    by (rule filter_True) (use assms in blast)
  moreover have "filter (\<lambda>t. \<not> p t) (d_threads d) = d_threads d"
    by (rule filter_True) (rule assms)
  ultimately show ?thesis unfolding drop_threads_def Let_def by (simp only:) simp
qed

lemma prune_prune: "prune_conversations P now (prune_conversations P now d) = prune_conversations P now d"
  unfolding prune_conversations_def
  by (rule drop_threads_none) (simp add: drop_threads_set)

lemma take_pairs_prefix: "prefix (take_pairs b ps) ps"
  by (induction b ps rule: take_pairs.induct) (auto simp: Let_def)

lemma take_pairs_bound: "sum_list (map (\<lambda>(u, a). length u + length a) (take_pairs b ps)) \<le> b"
  by (induction b ps rule: take_pairs.induct) (auto simp: Let_def)

lemma history_messages_length: "length (history_messages ps) = 2 * length ps"
proof -
  have "length (concat (map (\<lambda>(u, a). [(''user'', u), (''assistant'', a)]) qs)) = 2 * length qs"
    for qs :: "(string \<times> string) list"
    by (induction qs) auto
  from this [of "rev ps"] show ?thesis unfolding history_messages_def by (simp only: length_rev)
qed

lemma history_messages_bytes:
  "sum_list (map (length \<circ> snd) (history_messages ps)) = sum_list (map (\<lambda>(u, a). length u + length a) ps)"
proof -
  have "sum_list (map (length \<circ> snd) (concat (map (\<lambda>(u, a). [(''user'', u), (''assistant'', a)]) qs)))
      = sum_list (map (\<lambda>(u, a). length u + length a) qs)" for qs :: "(string \<times> string) list"
    by (induction qs) auto
  then have "sum_list (map (length \<circ> snd) (history_messages ps))
      = sum_list (map (\<lambda>(u, a). length u + length a) (rev ps))"
    unfolding history_messages_def .
  also have "\<dots> = sum_list (rev (map (\<lambda>(u, a). length u + length a) ps))"
    by (simp only: rev_map)
  finally show ?thesis by (simp only: sum_list_rev)
qed

lemma conversation_unique:
  assumes "continuity_wf d" "c \<in> set (d_threads d)" "t \<in> set (d_threads d)" "th_id t = th_id c"
  shows "t = c"
  using assms by (auto simp: continuity_wf_def distinct_map inj_on_def)

lemma prepare_marks:
  assumes "prepare_conversation P now q d = (Inr p, d1)" "pp_replay p = None" "continuity_wf d"
  shows "\<forall>t \<in> set (d_threads d1). th_id t = rq_id q \<longrightarrow> th_pending t \<noteq> None"
proof -
  from prepare_conversation_Inr [OF assms(1)] assms(2) obtain c d0 where
    c: "conversation P now (rq_id q) d = (Inr c, d0)" and w: "prepare_with P now q c d0 = Inr p"
    and d1: "d1 = mark_pending p d0" by auto
  from conversation_Inr [OF c] have d0: "d0 = prune_conversations P now d"
    and c0: "c \<in> set (d_threads d0)" "th_id c = rq_id q" by auto
  have wf0: "continuity_wf d0" unfolding d0 by (rule prune_wf [OF assms(3)])
  from prepare_with_revision [OF w] assms(2) have p: "pp_id p = rq_id q" "th_pending c = None"
    "th_revision c = pp_revision p" by auto
  show ?thesis
  proof (intro ballI impI)
    fix t
    assume t: "t \<in> set (d_threads d1)" "th_id t = rq_id q"
    then obtain s where s: "s \<in> set (d_threads d0)"
      "t = (if th_id s = pp_id p \<and> th_revision s = pp_revision p \<and> th_pending s = None
            then s\<lparr>th_pending := Some (pp_request p)\<rparr> else s)"
      by (auto simp: d1 mark_pending_def)
    with t have "th_id s = rq_id q" by (auto split: if_splits)
    then have "s = c" using conversation_unique [OF wf0 c0(1) s(1)] c0(2) by simp
    with s(2) p c0 show "th_pending t \<noteq> None" by simp
  qed
qed

lemma find_turn_unique:
  assumes "continuity_wf d" "u \<in> set (d_turns d)"
  shows "find_turn (tu_thread u) (tu_request u) d = Some u"
  unfolding find_turn_def
proof (rule find_only)
  fix y
  assume "y \<in> set (d_turns d)" "tu_thread y = tu_thread u \<and> tu_request y = tu_request u"
  with assms show "y = u" by (auto simp: continuity_wf_def distinct_map inj_on_def)
qed (use assms in auto)

lemma prune_keeps_turn:
  assumes "continuity_wf d" "u \<in> set (d_turns d)"
    and "c \<in> set (d_threads (prune_conversations P now d))" "th_id c = tu_thread u"
  shows "u \<in> set (d_turns (prune_conversations P now d))"
proof -
  from assms(3) have c: "c \<in> set (d_threads d)" "\<not> th_expires c \<le> rfc3339 P now"
    by (auto simp: prune_conversations_def drop_threads_set)
  have "tu_thread u \<notin> th_id ` {t \<in> set (d_threads d). th_expires t \<le> rfc3339 P now}"
  proof
    assume "tu_thread u \<in> th_id ` {t \<in> set (d_threads d). th_expires t \<le> rfc3339 P now}"
    then obtain t where t: "t \<in> set (d_threads d)" "th_expires t \<le> rfc3339 P now" "th_id t = tu_thread u"
      by auto
    with conversation_unique [OF assms(1) c(1) t(1)] assms(4) c(2) show False by simp
  qed
  with assms(2) show ?thesis by (simp add: prune_conversations_def drop_threads_set)
qed

lemma save_turn_turn:
  assumes "save_turn P w p reply receipt ia d = Inr (b, d')"
  shows "\<exists>u \<in> set (d_turns d'). tu_thread u = pp_id p \<and> tu_request u = pp_request p
     \<and> tu_hash u = pp_hash p \<and> tu_assistant u = reply \<and> tu_interaction u = ia"
proof -
  from save_turn_Inr [OF assms] obtain d1 where ins: "insert_turn \<lparr>tu_thread = pp_id p, tu_request = pp_request p,
         tu_hash = pp_hash p, tu_user = pp_message p, tu_assistant = reply, tu_receipt = receipt,
         tu_interaction = ia, tu_created = rfc3339 P (now_at w), tu_position = pp_revision p + 1\<rparr> d = Inr d1"
    and au: "audit_on P w 0 ''conversation_saved'' (entity (pp_id p))
        (d1\<lparr>d_threads := t_update th_id (pp_id p)
             (\<lambda>t. t\<lparr>th_pending := None, th_revision := th_revision t + 1\<rparr>) (d_threads d1)\<rparr>) = Inr d'" by blast
  have "d_turns d' = d_turns d1" using audit_on_frame [OF au] by simp
  with ins show ?thesis by (auto simp: insert_turn_Inr)
qed

lemma finish_then_prepare:
  assumes fin: "finish_conversation P w p reply receipt ia d = (Inr True, d1)" and wf: "continuity_wf d"
    and prep: "prepare_conversation P now q d1 = (Inr p', d2)"
    and same: "rq_id q = pp_id p" "rq_request q = pp_request p"
  shows "\<exists>rl. pp_replay p' = Some rl \<and> rl_reply rl = reply \<and> rl_interaction rl = ia
     \<and> sha256_hex P (rq_message q) = pp_hash p \<and> d2 = prune_conversations P now d1"
proof -
  from finish_conversation_cases(2) [OF fin refl] obtain c where
    sv: "save_turn P w p reply receipt ia (prune_conversations P (now_at w) d) = Inr (True, d1)" by blast
  from save_turn_turn [OF sv] obtain u where u: "u \<in> set (d_turns d1)" "tu_thread u = pp_id p"
    "tu_request u = pp_request p" "tu_hash u = pp_hash p" "tu_assistant u = reply" "tu_interaction u = ia" by blast
  have wf1: "continuity_wf d1" using finish_conversation_wf [OF wf, of P w p reply receipt ia] fin by simp
  from prepare_conversation_Inr [OF prep] obtain c d0 where
    cv: "conversation P now (rq_id q) d1 = (Inr c, d0)" and pw: "prepare_with P now q c d0 = Inr p'"
    and d2: "d2 = (if pp_replay p' \<noteq> None then d0 else mark_pending p' d0)" by blast
  from conversation_Inr [OF cv] have d0: "d0 = prune_conversations P now d1"
    and c: "c \<in> set (d_threads d0)" "th_id c = rq_id q" by auto
  have wf0: "continuity_wf d0" unfolding d0 by (rule prune_wf [OF wf1])
  have "u \<in> set (d_turns d0)"
    unfolding d0 by (rule prune_keeps_turn [OF wf1 u(1)]) (use c d0 same u in auto)
  from find_turn_unique [OF wf0 this] have "find_turn (rq_id q) (rq_request q) d0 = Some u"
    by (simp add: same u)
  with prepare_with_revision [OF pw] u d2 d0 show ?thesis
    by (cases "pp_replay p'") auto
qed

section \<open>Properties\<close>

definition demo_chat :: db where
  "demo_chat = demo_vault\<lparr>d_threads := [\<lparr>th_id = ''t1'', th_title = ''Plan'', th_scope = ''home'',
     th_provider = ''p'', th_destination = ''https://a'', th_model = ''m'', th_grant = Some ''g1'',
     th_created = ''1'', th_expires = ''90'', th_revision = 0, th_pending = None\<rparr>]\<rparr>"

definition demo_request :: "string \<Rightarrow> request" where
  "demo_request r = \<lparr>rq_id = ''t1'', rq_request = r, rq_revision = 0, rq_provider = ''p'',
     rq_destination = ''https://a'', rq_model = ''m'', rq_grant = Some ''g1'', rq_message = ''hello''\<rparr>"

definition demo_prepared :: prepared where
  "demo_prepared = \<lparr>pp_id = ''t1'', pp_request = ''r1'', pp_hash = ''#hello'', pp_revision = 0,
     pp_message = ''hello'', pp_history = [], pp_replay = None\<rparr>"

lemma demo_chat_wf: "continuity_wf demo_chat"
  by (simp add: continuity_wf_def demo_chat_def demo_vault_def empty_db_def)

text \<open>Times in the conversation examples are single digits, so that they print as one character.\<close>

lemma show_digit: "n < 10 \<Longrightarrow> show_nat n = [char_of (48 + n)]"
  by (simp add: show_nat.simps)

lemma demo_context_ok: "context_for demo_platform 3 ''g1'' ''https://a'' None demo_chat = Inr [demo_memory]"
  by code_simp

lemma demo_prune: "prune_conversations demo_platform 3 demo_chat = demo_chat"
  by code_simp

lemma demo_prepare: "prepare_conversation demo_platform 3 (demo_request ''r1'') demo_chat
   = (Inr demo_prepared, mark_pending demo_prepared demo_chat)"
proof -
  let ?c = "hd (d_threads demo_chat)"
  have cv: "conversation demo_platform 3 ''t1'' demo_chat = (Inr ?c, demo_chat)"
    unfolding conversation_def conversations_def Let_def demo_prune by code_simp
  have c: "th_provider ?c = ''p''" "th_destination ?c = ''https://a''" "th_model ?c = ''m''"
    "th_grant ?c = Some ''g1''" "th_pending ?c = None" "th_revision ?c = 0"
    by (simp_all add: demo_chat_def)
  have turns: "d_turns demo_chat = []" by (simp add: demo_chat_def demo_vault_def empty_db_def)
  have P: "sha256_hex demo_platform s = ''#'' @ s" "uuid_ok demo_platform s = (s \<noteq> [])" for s
    by (simp_all add: demo_platform_def)
  have q: "prepare_checks demo_platform (demo_request ''r1'') = Inr ()"
    by (simp add: prepare_checks_def demo_request_def trim_def trim_start_def trim_end_def
        strip_with.simps white_space_def P)
  have "prepare_with demo_platform 3 (demo_request ''r1'') ?c demo_chat = Inr demo_prepared"
    by (simp add: prepare_with_def demo_request_def c demo_context_ok find_turn_def turns P
        recent_pairs_def order_desc_def history_messages_def demo_prepared_def Let_def)
  then show ?thesis
    unfolding prepare_conversation_def q
    by (simp add: demo_request_def [THEN arg_cong [where f = rq_id]] cv demo_prepared_def
        [THEN arg_cong [where f = pp_replay]])
qed

text \<open>The same conversation after the exchange \<open>r1\<close>, and then with \<open>r2\<close> in flight.\<close>

definition demo_answered :: db where
  "demo_answered = demo_chat\<lparr>
     d_threads := map (\<lambda>t. t\<lparr>th_revision := 1\<rparr>) (d_threads demo_chat),
     d_turns := [\<lparr>tu_thread = ''t1'', tu_request = ''r1'', tu_hash = ''#hello'', tu_user = ''hello'',
       tu_assistant = ''hi'', tu_receipt = None, tu_interaction = ''i1'', tu_created = ''2'', tu_position = 1\<rparr>]\<rparr>"

definition demo_second :: request where
  "demo_second = (demo_request ''r2'')\<lparr>rq_revision := 1\<rparr>"

definition demo_second_prepared :: prepared where
  "demo_second_prepared = demo_prepared\<lparr>pp_request := ''r2'', pp_revision := 1,
     pp_history := history_messages [(''hello'', ''hi'')]\<rparr>"

definition demo_waiting :: db where
  "demo_waiting = mark_pending demo_second_prepared demo_answered"

lemma demo_answered_wf: "continuity_wf demo_answered"
  by (simp add: continuity_wf_def turn_ok_def demo_answered_def demo_chat_def demo_vault_def empty_db_def)

lemma demo_second_prepares: "prepare_conversation demo_platform 3 demo_second demo_answered
   = (Inr demo_second_prepared, demo_waiting)"
proof -
  let ?c = "hd (d_threads demo_answered)"
  have cv: "conversation demo_platform 3 ''t1'' demo_answered = (Inr ?c, demo_answered)"
    by code_simp
  have c: "th_provider ?c = ''p''" "th_destination ?c = ''https://a''" "th_model ?c = ''m''"
    "th_grant ?c = Some ''g1''" "th_pending ?c = None" "th_revision ?c = 1"
    by (simp_all add: demo_answered_def demo_chat_def)
  have ctx: "context_for demo_platform 3 ''g1'' ''https://a'' None demo_answered = Inr [demo_memory]"
    by code_simp
  have old: "find_turn ''t1'' ''r2'' demo_answered = None" and pairs: "recent_pairs ''t1'' demo_answered = [(''hello'', ''hi'')]"
    by code_simp+
  have P: "sha256_hex demo_platform s = ''#'' @ s" "uuid_ok demo_platform s = (s \<noteq> [])" for s
    by (simp_all add: demo_platform_def)
  have q: "prepare_checks demo_platform demo_second = Inr ()"
    by (simp add: prepare_checks_def demo_second_def demo_request_def trim_def trim_start_def trim_end_def
        strip_with.simps white_space_def P)
  have "prepare_with demo_platform 3 demo_second ?c demo_answered = Inr demo_second_prepared"
    by (simp add: prepare_with_def demo_second_def demo_request_def c ctx old P pairs
        demo_second_prepared_def demo_prepared_def Let_def)
  moreover have "rq_id demo_second = ''t1''" "pp_replay demo_second_prepared = None"
    by (simp_all add: demo_second_def demo_request_def demo_second_prepared_def demo_prepared_def)
  ultimately show ?thesis unfolding prepare_conversation_def q by (simp add: cv demo_waiting_def)
qed

lemma demo_again: "case prepare_conversation demo_platform 3 (demo_request ''r1'') demo_waiting of
    (Inr _, _) \<Rightarrow> True | (Inl _, _) \<Rightarrow> False"
proof -
  let ?c = "hd (d_threads demo_waiting)"
  have cv: "conversation demo_platform 3 ''t1'' demo_waiting = (Inr ?c, demo_waiting)"
    by code_simp
  have c: "th_provider ?c = ''p''" "th_destination ?c = ''https://a''" "th_model ?c = ''m''"
    "th_grant ?c = Some ''g1''"
    by (simp_all add: demo_waiting_def mark_pending_def demo_answered_def demo_chat_def)
  have ctx: "context_for demo_platform 3 ''g1'' ''https://a'' None demo_waiting = Inr [demo_memory]"
    by code_simp
  have old: "find_turn ''t1'' ''r1'' demo_waiting = Some (hd (d_turns demo_answered))"
    by code_simp
  have P: "sha256_hex demo_platform s = ''#'' @ s" "uuid_ok demo_platform s = (s \<noteq> [])" for s
    by (simp_all add: demo_platform_def)
  have q: "prepare_checks demo_platform (demo_request ''r1'') = Inr ()"
    by (simp add: prepare_checks_def demo_request_def trim_def trim_start_def trim_end_def
        strip_with.simps white_space_def P)
  have "is_ok (prepare_with demo_platform 3 (demo_request ''r1'') ?c demo_waiting)"
    by (simp add: prepare_with_def demo_request_def c ctx old P demo_answered_def Let_def)
  moreover have "rq_id (demo_request ''r1'') = ''t1''" by (simp add: demo_request_def)
  ultimately show ?thesis unfolding prepare_conversation_def q
    by (auto simp: cv is_ok_def split: sum.splits)
qed



text \<open>
  A request is answered at most once: after its exchange is saved, preparing the same
  request identifier again, at any later time, returns the saved reply and interaction and
  changes nothing, and only for the same message content; it is never sent again.
\<close>

theorem finished_request_is_replayed:
  assumes "finish_conversation P w p reply receipt ia d = (Inr True, d1)" and "continuity_wf d"
    and "prepare_conversation P now q d1 = (Inr p', d2)"
    and "rq_id q = pp_id p" and "rq_request q = pp_request p"
  shows "\<exists>rl. pp_replay p' = Some rl \<and> rl_reply rl = reply \<and> rl_interaction rl = ia
     \<and> sha256_hex P (rq_message q) = pp_hash p \<and> d2 = prune_conversations P now d1"
  by (rule finish_then_prepare [OF assms])

theorem finished_request_is_replayed_witness:
  "case finish_conversation demo_platform (demo_draw 4 ''w'') demo_prepared ''hi'' None ''i1''
        (mark_pending demo_prepared demo_chat) of
     (Inr True, d1) \<Rightarrow>
       (case prepare_conversation demo_platform 5 (demo_request ''r1'') d1 of
          (Inr p', _) \<Rightarrow> map_option rl_reply (pp_replay p') = Some ''hi''
        | (Inl _, _) \<Rightarrow> True)
   | _ \<Rightarrow> False"
proof -
  have "case finish_conversation demo_platform (demo_draw 4 ''w'') demo_prepared ''hi'' None ''i1''
        (mark_pending demo_prepared demo_chat) of (Inr True, d1) \<Rightarrow> True | _ \<Rightarrow> False"
  proof -
    have small: "(length ''hi'' > (100000 :: nat)) = False" by simp
    show ?thesis unfolding finish_conversation_def small if_False by code_simp
  qed
  then obtain d1 where fin: "finish_conversation demo_platform (demo_draw 4 ''w'') demo_prepared ''hi'' None ''i1''
        (mark_pending demo_prepared demo_chat) = (Inr True, d1)"
    by (auto split: prod.splits sum.splits bool.splits)
  have wf: "continuity_wf (mark_pending demo_prepared demo_chat)"
    by (rule mark_pending_wf [OF demo_chat_wf]) (simp add: demo_prepared_def)
  show ?thesis
    using fin finished_request_is_replayed [OF fin wf, of 5 "demo_request ''r1''"]
    by (fastforce simp: demo_request_def demo_prepared_def split: prod.splits sum.splits)
qed

text \<open>
  What is sent from a saved conversation is bounded and in order: a prepared request
  carries at most the last ten exchanges, in chronological order, ending with the newest, and
  at most 40000 bytes of them.
\<close>

theorem sent_history_is_bounded:
  assumes "prepare_conversation P now q d = (Inr p, d')"
  shows "length (pp_history p) \<le> 20
     \<and> sum_list (map (length \<circ> snd) (pp_history p)) \<le> 40000
     \<and> (\<exists>pairs. pp_history p = history_messages pairs
          \<and> prefix pairs (recent_pairs (rq_id q) (prune_conversations P now d)))"
proof -
  from prepare_conversation_Inr [OF assms] obtain c d0 where
    c: "conversation P now (rq_id q) d = (Inr c, d0)" and w: "prepare_with P now q c d0 = Inr p" by blast
  have d0: "d0 = prune_conversations P now d" by (rule conversation_cases [OF c])
  let ?ps = "if pp_replay p = None then take_pairs 40000 (recent_pairs (rq_id q) d0) else []"
  have h: "pp_history p = history_messages ?ps"
    using prepare_with_revision [OF w] by (cases "pp_replay p") (auto simp: history_messages_def)
  have pre: "prefix ?ps (recent_pairs (rq_id q) d0)" by (simp add: take_pairs_prefix)
  then have "length ?ps \<le> length (recent_pairs (rq_id q) d0)" by (rule prefix_length_le)
  also have "\<dots> \<le> 10" by (simp add: recent_pairs_def)
  finally have "length (pp_history p) \<le> 20" by (simp add: h history_messages_length)
  moreover have "sum_list (map (\<lambda>(u, a). length u + length a) ?ps) \<le> 40000"
    by (simp add: take_pairs_bound)
  then have "sum_list (map (length \<circ> snd) (pp_history p)) \<le> 40000"
    unfolding h history_messages_bytes .
  ultimately show ?thesis using h pre d0 by blast
qed

theorem sent_history_is_bounded_witness:
  "length (pp_history demo_prepared) \<le> 20"
  using sent_history_is_bounded [OF demo_prepare] by blast

text \<open>Conversations stay consistent and bounded: from a new vault, after any conversation
  operations, each conversation holds at most 100 exchanges, at distinct positions and under
  distinct request identifiers, and no exchange outlives its conversation.
\<close>

theorem conversations_stay_bounded:
  "continuity_wf (run_ops (chat_step P) ops (empty_db i spec))
   \<and> length (filter (\<lambda>u. tu_thread u = t) (d_turns (run_ops (chat_step P) ops (empty_db i spec)))) \<le> 100"
proof -
  have "continuity_wf (run_ops (chat_step P) ops (empty_db i spec))"
    by (rule chat_machine.run_inv) (simp add: continuity_wf_def empty_db_def)
  with turns_bounded show ?thesis by blast
qed

text \<open>A saved conversation is usable only while its permission is: once the grant of a request
  is revoked, preparing it fails, for a replay as for a new send.
\<close>

theorem revoked_permission_blocks_conversation:
  assumes "revoked_in g d" and "rq_grant q = Some g"
  shows "\<nexists>p d'. prepare_conversation P now q d = (Inr p, d')"
proof
  assume "\<exists>p d'. prepare_conversation P now q d = (Inr p, d')"
  then obtain p d' where prep: "prepare_conversation P now q d = (Inr p, d')" by blast
  from prepare_conversation_Inr [OF prep] obtain c d0 where
    c: "conversation P now (rq_id q) d = (Inr c, d0)" and w: "prepare_with P now q c d0 = Inr p" by blast
  have d0: "d0 = prune_conversations P now d" by (rule conversation_cases [OF c])
  have "revoked_in g d0"
    using assms(1) by (simp add: d0 prune_conversations_def drop_threads_def Let_def revoked_in_def)
  then have "\<not> is_ok (context_for P now g (rq_destination q) None d0)"
    by (simp add: context_for_def revoked_grant_check)
  with prepare_with_revision [OF w] assms(2) show False by blast
qed

theorem revoked_permission_blocks_conversation_witness:
  "\<exists>d. revoke demo_platform (demo_draw 2 ''u'') ''g1'' demo_chat = Inr (True, d)
     \<and> (\<nexists>p d'. prepare_conversation demo_platform 3 (demo_request ''r1'') d = (Inr p, d'))"
proof -
  have "case revoke demo_platform (demo_draw 2 ''u'') ''g1'' demo_chat of Inl e \<Rightarrow> False | Inr (b, d') \<Rightarrow> b"
    by code_simp
  then obtain d where r: "revoke demo_platform (demo_draw 2 ''u'') ''g1'' demo_chat = Inr (True, d)"
    by (auto split: sum.splits)
  have "rq_grant (demo_request ''r1'') = Some ''g1''" by (simp add: demo_request_def)
  with r revoked_permission_blocks_conversation [OF revoke_revokes [OF r]] show ?thesis by blast
qed

end
