(* ===== verification/Journal.thy ===== *)
theory Journal
  imports Config Continuity
begin

text \<open>
  The interaction ledger of \<open>crates/omni-core/src/journal.rs\<close>: starting and finishing an
  interaction, recovery after a crash, retention, paged reads and the usage summary. (The
  audit part of the same file is the theory AuditTrail.)
\<close>

section \<open>Parameters of the reads\<close>

definition estimate_tokens :: "nat \<Rightarrow> nat" where
  "estimate_tokens bytes = (bytes + 3) div 4"

definition period_start :: "platform \<Rightarrow> string \<Rightarrow> int \<Rightarrow> string option res" where
  "period_start P period until =
     (if period = ''24h'' then Inr (Some (rfc3339_ms P (until - 1 * day)))
      else if period = ''7d'' then Inr (Some (rfc3339_ms P (until - 7 * day)))
      else if period = ''30d'' then Inr (Some (rfc3339_ms P (until - 30 * day)))
      else if period = ''all'' then Inr None
      else Inl (Bail ''Period must be 24h, 7d, 30d, or all''))"

definition pagination :: "nat option \<Rightarrow> nat \<Rightarrow> nat res" where
  "pagination limit offset =
     (let l = (case limit of None \<Rightarrow> 50 | Some x \<Rightarrow> x)
      in rbind (ensure (\<not> (\<not> (1 \<le> l \<and> l \<le> 100) \<or> offset > i64_max))
           ''Pagination requires limit 1-100 and a valid offset'') (\<lambda>_. Inr l))"

definition opt_list :: "'a option list \<Rightarrow> 'a list" where
  "opt_list xs = List.map_filter (\<lambda>x. x) xs"

definition validate_rates :: "rates \<Rightarrow> unit res" where
  "validate_rates r =
     rbind (ensure (ra_currency r = ''USD'') ''Manual token rates currently require USD'') (\<lambda>_.
     ensure (list_all (\<lambda>v. \<not> v < 0)
         (opt_list [Some (ra_input r), Some (ra_output r), ra_cached r, ra_written r]))
       ''Manual token rates must be finite and non-negative'')"

section \<open>Costs\<close>

text \<open>An absent cache count is unknown, not zero: then there is no estimate.\<close>

definition estimated_cost :: "interaction_record \<Rightarrow> rat option" where
  "estimated_cost r =
     Option.bind (ir_rates r) (\<lambda>ra.
     Option.bind (ir_input r) (\<lambda>inp.
     Option.bind (ir_output r) (\<lambda>out.
     Option.bind (ir_cached r) (\<lambda>cached.
     Option.bind (ir_written r) (\<lambda>written.
     Option.bind (checked_add cached written) (\<lambda>cw.
     Option.bind (checked_sub inp cw) (\<lambda>uncached.
     Option.bind (if cached = 0 then Some 0 else map_option (\<lambda>x. of_nat cached * x) (ra_cached ra)) (\<lambda>cache_cost.
     Option.bind (if written = 0 then Some 0 else map_option (\<lambda>x. of_nat written * x) (ra_written ra)) (\<lambda>write_cost.
     Some ((of_nat uncached * ra_input ra + of_nat out * ra_output ra + cache_cost + write_cost)
            / 1000000))))))))))"

section \<open>Preferences and retention\<close>

definition journal_preferences :: "db \<Rightarrow> (bool \<times> nat) res" where
  "journal_preferences d =
     rbind (case d_settings d of
         None \<Rightarrow> Inr (True, 30)
       | Some None \<Rightarrow> Inl (Decode ''admin.settings'')
       | Some (Some s) \<Rightarrow> Inr (as_history_enabled s, as_history_days s)) (\<lambda>(enabled, days).
     rbind (ensure (1 \<le> days \<and> days \<le> 365) ''History retention must be 1-365 days'') (\<lambda>_.
     Inr (enabled, days)))"

record retention =
  rt_interactions :: nat
  rt_audit :: nat
  rt_days :: nat

definition journal_prune :: "platform \<Rightarrow> int \<Rightarrow> db \<Rightarrow> retention stmts" where
  "journal_prune P now d =
     (case journal_preferences d of
        Inl e \<Rightarrow> (Inl e, d)
      | Inr (_, days) \<Rightarrow>
          (let cutoff = rfc3339_ms P (now - int days * day);
               keep = filter (\<lambda>r. \<not> jr_started r < cutoff) (d_journal d);
               keep_audit = filter (\<lambda>r. \<not> au_created r < cutoff) (d_audit d)
           in (Inr \<lparr>rt_interactions = length (d_journal d) - length keep,
                    rt_audit = length (d_audit d) - length keep_audit, rt_days = days\<rparr>,
               d\<lparr>d_journal := keep, d_audit := keep_audit\<rparr>)))"

section \<open>Start and finish\<close>

record interaction_start =
  is_id :: string
  is_provider :: string
  is_provider_name :: string
  is_model :: string
  is_destination :: string
  is_operation :: string
  is_protocol :: string
  is_streaming :: bool
  is_grant :: "string option"
  is_receipt :: "string option"
  is_request_bytes :: nat
  is_context_bytes :: nat
  is_source_bytes :: "nat option"
  is_context_tokens :: "nat option"
  is_source_tokens :: "nat option"
  is_started :: "string option"
  is_rates :: "rates option"

definition start_checks :: "platform \<Rightarrow> interaction_start \<Rightarrow> string res" where
  "start_checks P s =
     rbind (map_res valid_identifier [is_id s, is_provider s]) (\<lambda>_.
     rbind (map_res valid_identifier (opt_list [is_grant s, is_receipt s])) (\<lambda>_.
     rbind (bounded_metadata (is_provider_name s) 200 ''provider name'') (\<lambda>_.
     rbind (bounded_metadata (is_model s) 200 ''model'') (\<lambda>_.
     rbind (bounded_metadata (is_destination s) 2048 ''destination'') (\<lambda>_.
     rbind (normalize_base P (is_destination s)) (\<lambda>destination.
     rbind (ensure (List.member [''chat'', ''gateway'', ''capture''] (is_operation s))
       ''Unknown journal operation'') (\<lambda>_.
     rbind (ensure (List.member [''openai'', ''anthropic'', ''local''] (is_protocol s))
       ''Unknown journal protocol'') (\<lambda>_.
     rbind (map_res metric [Some (is_request_bytes s), Some (is_context_bytes s), is_source_bytes s,
         is_context_tokens s, is_source_tokens s]) (\<lambda>_.
     rbind (ensure (\<not> is_context_bytes s > is_request_bytes s)
       ''Context bytes cannot exceed request payload bytes'') (\<lambda>_.
     rbind (ensure (\<not> (\<not> opt_all (\<lambda>v. v = estimate_tokens (is_context_bytes s)) (is_context_tokens s)
         \<or> \<not> opt_all (\<lambda>v. Some v = map_option estimate_tokens (is_source_bytes s)) (is_source_tokens s)))
       ''Context token estimates must use ceil(UTF8 bytes / 4)'') (\<lambda>_.
     rbind (opt_check validate_rates (is_rates s)) (\<lambda>_.
     Inr destination))))))))))))"

definition start_record :: "interaction_start \<Rightarrow> string \<Rightarrow> string \<Rightarrow> interaction_record" where
  "start_record s destination started =
     \<lparr>ir_id = is_id s, ir_provider = is_provider s, ir_provider_name = is_provider_name s,
      ir_model = is_model s, ir_destination = destination, ir_operation = is_operation s,
      ir_protocol = is_protocol s, ir_streaming = is_streaming s, ir_grant = is_grant s,
      ir_receipt = is_receipt s, ir_started = started, ir_finished = None, ir_status = ''pending'',
      ir_http = None, ir_header_ms = None, ir_total_ms = None, ir_request_bytes = is_request_bytes s,
      ir_response_bytes = 0, ir_context_bytes = is_context_bytes s, ir_source_bytes = is_source_bytes s,
      ir_context_tokens = Some (estimate_tokens (is_context_bytes s)),
      ir_source_tokens = map_option estimate_tokens (is_source_bytes s),
      ir_input = None, ir_output = None, ir_cached = None, ir_written = None, ir_total = None,
      ir_error = None, ir_rates = is_rates s, ir_cost = None, ir_currency = None\<rparr>"

definition journal_start :: "platform \<Rightarrow> draw \<Rightarrow> interaction_start \<Rightarrow> db \<Rightarrow> bool stmts" where
  "journal_start P w s d =
     then_stmt (journal_prune P (now_at w) d) (\<lambda>_ d0.
       case journal_preferences d0 of
         Inl e \<Rightarrow> (Inl e, d0)
       | Inr (enabled, _) \<Rightarrow>
           if \<not> enabled then (Inr False, d0)
           else commit (
             rbind (start_checks P s) (\<lambda>destination.
             rbind (journal_timestamp P w (is_started s)) (\<lambda>started.
             let r = start_record s destination started in
             rbind (t_insert jr_id \<lparr>jr_id = ir_id r, jr_provider = ir_provider r,
                 jr_provider_name = ir_provider_name r, jr_model = ir_model r, jr_status = ir_status r,
                 jr_started = ir_started r, jr_record = Some r\<rparr> (d_journal d0)) (\<lambda>rows.
             Inr (True, d0\<lparr>d_journal := rows\<rparr>)))) ) d0)"

record interaction_finish =
  if_status :: string
  if_http :: "nat option"
  if_header_ms :: "nat option"
  if_total_ms :: "nat option"
  if_input :: "nat option"
  if_output :: "nat option"
  if_cached :: "nat option"
  if_written :: "nat option"
  if_total :: "nat option"
  if_response_bytes :: nat
  if_error :: "string option"
  if_finished :: "string option"

definition default_finish :: interaction_finish where
  "default_finish = \<lparr>if_status = ''failed'', if_http = None, if_header_ms = None, if_total_ms = None,
     if_input = None, if_output = None, if_cached = None, if_written = None, if_total = None,
     if_response_bytes = 0, if_error = None, if_finished = None\<rparr>"

text \<open>\<open>a.or(b)\<close>\<close>

definition opt_or :: "'a option \<Rightarrow> 'a option \<Rightarrow> 'a option" where
  "opt_or a b = (case a of None \<Rightarrow> b | Some x \<Rightarrow> Some x)"

definition finish_checks :: "interaction_finish \<Rightarrow> unit res" where
  "finish_checks f =
     rbind (ensure (List.member [''streaming'', ''succeeded'', ''failed'', ''aborted''] (if_status f))
       ''Unknown interaction completion status'') (\<lambda>_.
     rbind (ensure (opt_all (\<lambda>v. 100 \<le> v \<and> v \<le> 599) (if_http f)) ''Invalid provider HTTP status'') (\<lambda>_.
     rbind (map_res metric [if_header_ms f, if_total_ms f, if_input f, if_output f, if_cached f,
         if_written f, if_total f, Some (if_response_bytes f)]) (\<lambda>_. Inr ())))"

definition merge_finish :: "interaction_finish \<Rightarrow> interaction_record \<Rightarrow> interaction_record" where
  "merge_finish f r =
     r\<lparr>ir_status := if_status f, ir_http := opt_or (if_http f) (ir_http r),
       ir_header_ms := opt_or (if_header_ms f) (ir_header_ms r),
       ir_total_ms := opt_or (if_total_ms f) (ir_total_ms r),
       ir_input := opt_or (if_input f) (ir_input r), ir_output := opt_or (if_output f) (ir_output r),
       ir_cached := opt_or (if_cached f) (ir_cached r),
       ir_written := opt_or (if_written f) (ir_written r),
       ir_total := opt_or (if_total f) (ir_total r), ir_response_bytes := if_response_bytes f,
       ir_error := opt_or (map_option sanitize_error (if_error f)) (ir_error r)\<rparr>"

definition finish_record ::
    "platform \<Rightarrow> draw \<Rightarrow> interaction_finish \<Rightarrow> interaction_record \<Rightarrow> interaction_record res" where
  "finish_record P w f r =
     rbind (ensure (\<not> if_response_bytes f < ir_response_bytes r) ''Response byte counts cannot decrease'') (\<lambda>_.
     rbind (ensure (\<not> (if_status f = ''streaming'' \<and> \<not> ir_streaming r))
       ''Only a streaming request can enter streaming status'') (\<lambda>_.
     let r1 = merge_finish f r in
     rbind (ensure (case (ir_header_ms r1, ir_total_ms r1) of
           (Some headers, Some latency) \<Rightarrow> \<not> latency < headers | _ \<Rightarrow> True)
       ''Total latency cannot precede response headers'') (\<lambda>_.
     rbind (if terminal (ir_status r1)
            then rbind (journal_timestamp P w (if_finished f)) (\<lambda>t. Inr (r1\<lparr>ir_finished := Some t\<rparr>))
            else Inr r1) (\<lambda>r2.
     let cost = estimated_cost r2 in
     Inr (r2\<lparr>ir_cost := cost, ir_currency := map_option (\<lambda>_. ''USD'') cost\<rparr>)))))"

definition journal_finish ::
    "platform \<Rightarrow> draw \<Rightarrow> string \<Rightarrow> interaction_finish \<Rightarrow> db \<Rightarrow> bool tx" where
  "journal_finish P w i f d =
     rbind (finish_checks f) (\<lambda>_.
     case t_find jr_id i (d_journal d) of
       None \<Rightarrow> Inr (False, d)
     | Some row \<Rightarrow>
         rbind (ok_or (jr_record row) (Decode ''record'')) (\<lambda>previous.
         if terminal (ir_status previous) then Inr (False, d)
         else rbind (finish_record P w f previous) (\<lambda>r.
           let hit = (\<lambda>x. jr_id x = i \<and> jr_record x = Some previous) in
           Inr (length (filter hit (d_journal d)) = 1,
                d\<lparr>d_journal := map (\<lambda>x. if hit x then x\<lparr>jr_status := ir_status r, jr_record := Some r\<rparr> else x)
                   (d_journal d)\<rparr>))))"

section \<open>Reads\<close>

definition journal_entry :: "platform \<Rightarrow> int \<Rightarrow> string \<Rightarrow> db \<Rightarrow> interaction_record option stmts" where
  "journal_entry P now i d =
     then_stmt (journal_prune P now d) (\<lambda>_ d0.
       (case t_find jr_id i (d_journal d0) of
          None \<Rightarrow> Inr None
        | Some row \<Rightarrow> rbind (ok_or (jr_record row) (Decode ''record'')) (\<lambda>r. Inr (Some r)), d0))"

record history_query =
  hq_provider :: "string option"
  hq_status :: "string option"
  hq_model :: "string option"
  hq_search :: "string option"
  hq_period :: "string option"
  hq_limit :: "nat option"
  hq_offset :: nat

record 'a page =
  pg_items :: "'a list"
  pg_total :: nat
  pg_limit :: nat
  pg_offset :: nat

text \<open>\<open>?k IS NULL OR column = ?k\<close>, \<open>instr(lower(text), lower(?5)) > 0\<close>.\<close>

definition wants :: "'a option \<Rightarrow> 'a \<Rightarrow> bool" where
  "wants q x = opt_all (\<lambda>v. x = v) q"

definition matches :: "string option \<Rightarrow> string list \<Rightarrow> bool" where
  "matches q columns =
     opt_all (\<lambda>s. contains (ascii_lowercase (concat (map (\<lambda>c. c) columns))) (ascii_lowercase s)) q"

definition history_filter :: "history_query \<Rightarrow> string option \<Rightarrow> journal_row \<Rightarrow> bool" where
  "history_filter q from r \<longleftrightarrow>
     wants (hq_provider q) (jr_provider r) \<and> wants (hq_status q) (jr_status r)
   \<and> wants (hq_model q) (jr_model r) \<and> opt_all (\<lambda>t. t \<le> jr_started r) from
   \<and> matches (hq_search q) [jr_provider r, '' '', jr_provider_name r, '' '', jr_model r, '' '', jr_status r]"

definition journal_history ::
    "platform \<Rightarrow> int \<Rightarrow> history_query \<Rightarrow> db \<Rightarrow> interaction_record page stmts" where
  "journal_history P now q d =
     then_stmt (journal_prune P now d) (\<lambda>_ d0.
       (rbind (pagination (hq_limit q) (hq_offset q)) (\<lambda>limit.
        rbind (ensure (opt_all valid_journal_status (hq_status q)) ''Unknown history status'') (\<lambda>_.
        rbind (ensure (opt_all (\<lambda>s. \<not> length s > 200) (hq_search q))
          ''History search must not exceed 200 bytes'') (\<lambda>_.
        rbind (period_start P (case hq_period q of None \<Rightarrow> ''all'' | Some p \<Rightarrow> p) now) (\<lambda>from.
        let rows = filter (history_filter q from) (d_journal d0) in
        rbind (map_res (\<lambda>r. ok_or (jr_record r) (Decode ''record''))
          (take limit (drop (hq_offset q) (order_desc jr_started (order_desc jr_id rows))))) (\<lambda>items.
        Inr \<lparr>pg_items = items, pg_total = length rows, pg_limit = limit, pg_offset = hq_offset q\<rparr>))))), d0))"

text \<open>The bytes of the distinct sources of the memories.\<close>

fun source_bytes :: "db \<Rightarrow> string list \<Rightarrow> nat \<Rightarrow> memory list \<Rightarrow> nat res" where
  "source_bytes d ids acc [] = Inr acc"
| "source_bytes d ids acc (m # ms) =
     (if List.member ids (me_source_id m) then source_bytes d ids acc ms
      else case t_find s_id (me_source_id m) (d_sources d) of
          None \<Rightarrow> Inl (Sql ''Query returned no rows'')
        | Some s \<Rightarrow>
            rbind (ok_or (checked_add acc (length (s_content s))) (Bail ''Source byte total overflow'')) (\<lambda>t.
            source_bytes d (me_source_id m # ids) t ms))"

definition journal_source_bytes :: "memory list \<Rightarrow> db \<Rightarrow> nat res" where
  "journal_source_bytes ms d = source_bytes d [] 0 ms"

record audit_query =
  aq_provider :: "string option"
  aq_action :: "string option"
  aq_level :: "string option"
  aq_search :: "string option"
  aq_period :: "string option"
  aq_limit :: "nat option"
  aq_offset :: nat

definition or_empty :: "string option \<Rightarrow> string" where
  "or_empty x = (case x of None \<Rightarrow> [] | Some s \<Rightarrow> s)"

definition audit_filter :: "audit_query \<Rightarrow> string option \<Rightarrow> audit_row \<Rightarrow> bool" where
  "audit_filter q from r \<longleftrightarrow>
     opt_all (\<lambda>p. ad_provider (au_details r) = Some p) (aq_provider q) \<and> wants (aq_action q) (au_action r)
   \<and> wants (aq_level q) (au_level r) \<and> opt_all (\<lambda>t. t \<le> au_created r) from
   \<and> matches (aq_search q) [au_action r, '' '', or_empty (ad_provider (au_details r)), '' '',
       or_empty (ad_model (au_details r)), '' '', or_empty (ad_entity (au_details r))]"

definition journal_logs :: "platform \<Rightarrow> int \<Rightarrow> audit_query \<Rightarrow> db \<Rightarrow> audit_row page stmts" where
  "journal_logs P now q d =
     then_stmt (journal_prune P now d) (\<lambda>_ d0.
       (rbind (pagination (aq_limit q) (aq_offset q)) (\<lambda>limit.
        rbind (ensure (opt_all valid_action (aq_action q)) ''Unknown audit action'') (\<lambda>_.
        rbind (ensure (opt_all (\<lambda>l. List.member [''info'', ''warning'', ''error''] l) (aq_level q))
          ''Unknown audit level'') (\<lambda>_.
        rbind (ensure (opt_all (\<lambda>s. \<not> length s > 200) (aq_search q))
          ''Audit search must not exceed 200 bytes'') (\<lambda>_.
        rbind (period_start P (case aq_period q of None \<Rightarrow> ''all'' | Some p \<Rightarrow> p) now) (\<lambda>from.
        let rows = filter (audit_filter q from) (d_audit d0) in
        Inr \<lparr>pg_items = take limit (drop (aq_offset q) (order_desc au_created (order_desc au_id rows))),
             pg_total = length rows, pg_limit = limit, pg_offset = aq_offset q\<rparr>))))), d0))"

text \<open>Clearing the history inserts its audit row directly, past the checks of \<open>audit_on\<close>.\<close>

definition journal_delete_history :: "platform \<Rightarrow> draw \<Rightarrow> db \<Rightarrow> nat tx" where
  "journal_delete_history P w d =
     (let removed = length (d_journal d) in
      rbind (journal_timestamp P w None) (\<lambda>created.
      rbind (t_insert au_id \<lparr>au_id = uuid w 0, au_created = created, au_action = ''history_cleared'',
          au_level = ''info'', au_details = no_details\<lparr>ad_count := Some removed\<rparr>\<rparr> (d_audit d)) (\<lambda>rows.
      Inr (removed, d\<lparr>d_journal := [], d_audit := rows\<rparr>))))"

section \<open>Recovery after a crash\<close>

definition abort_finish :: "interaction_record \<Rightarrow> interaction_finish" where
  "abort_finish r = default_finish\<lparr>if_status := ''aborted'', if_response_bytes := ir_response_bytes r,
     if_error := Some ''process_restarted''\<rparr>"

fun abort_all :: "platform \<Rightarrow> draw \<Rightarrow> interaction_record list \<Rightarrow> nat \<Rightarrow> db \<Rightarrow> nat stmts" where
  "abort_all P w [] n d = (Inr n, d)"
| "abort_all P w (r # rs) n d =
     then_stmt (commit (journal_finish P w (ir_id r) (abort_finish r) d) d) (\<lambda>b d'.
       abort_all P w rs (if b then Suc n else n) d')"

definition interrupted :: "journal_row \<Rightarrow> bool" where
  "interrupted r \<longleftrightarrow> List.member [''pending'', ''streaming''] (jr_status r)"

definition journal_recover_interrupted :: "platform \<Rightarrow> draw \<Rightarrow> db \<Rightarrow> nat stmts" where
  "journal_recover_interrupted P w d =
     then_stmt (journal_prune P (now_at w) d) (\<lambda>_ d0.
       case map_res (\<lambda>r. ok_or (jr_record r) (Decode ''record'')) (filter interrupted (d_journal d0)) of
         Inl e \<Rightarrow> (Inl e, d0)
       | Inr rs \<Rightarrow> abort_all P w rs 0 d0)"

definition initialize_runtime_journal :: "platform \<Rightarrow> draw \<Rightarrow> db \<Rightarrow> unit stmts" where
  "initialize_runtime_journal P w d =
     then_stmt (journal_recover_interrupted P w d) (\<lambda>n d1.
       commit (audited P w 0 ''core_started'' (no_details\<lparr>ad_count := Some n\<rparr>) () d1) d1)"

section \<open>Usage\<close>

record observations =
  ob_input :: nat
  ob_output :: nat
  ob_cached :: nat
  ob_written :: nat
  ob_total :: nat

record usage_totals =
  ut_interactions :: nat
  ut_succeeded :: nat
  ut_failed :: nat
  ut_aborted :: nat
  ut_pending :: nat
  ut_streaming :: nat
  ut_request_bytes :: nat
  ut_response_bytes :: nat
  ut_input :: "nat option"
  ut_output :: "nat option"
  ut_cached :: "nat option"
  ut_written :: "nat option"
  ut_total :: "nat option"
  ut_observations :: observations
  ut_cost :: "rat option"
  ut_currency :: "string option"
  ut_priced :: nat

definition no_usage :: usage_totals where
  "no_usage = \<lparr>ut_interactions = 0, ut_succeeded = 0, ut_failed = 0, ut_aborted = 0, ut_pending = 0,
     ut_streaming = 0, ut_request_bytes = 0, ut_response_bytes = 0, ut_input = None, ut_output = None,
     ut_cached = None, ut_written = None, ut_total = None,
     ut_observations = \<lparr>ob_input = 0, ob_output = 0, ob_cached = 0, ob_written = 0, ob_total = 0\<rparr>,
     ut_cost = None, ut_currency = None, ut_priced = 0\<rparr>"

definition add_u64 :: "nat \<Rightarrow> nat \<Rightarrow> nat res" where
  "add_u64 a b = ok_or (checked_add a b) (Bail ''Usage total exceeds the supported range'')"

definition add_observation :: "nat option \<Rightarrow> nat \<Rightarrow> nat option \<Rightarrow> (nat option \<times> nat) res" where
  "add_observation acc n v =
     (case v of
        None \<Rightarrow> Inr (acc, n)
      | Some x \<Rightarrow>
          rbind (add_u64 (case acc of None \<Rightarrow> 0 | Some s \<Rightarrow> s) x) (\<lambda>s.
          rbind (add_u64 n 1) (\<lambda>c. Inr (Some s, c))))"

definition add_status :: "string \<Rightarrow> usage_totals \<Rightarrow> usage_totals res" where
  "add_status st t =
     (if st = ''succeeded'' then map_sum (\<lambda>e. e) (\<lambda>n. t\<lparr>ut_succeeded := n\<rparr>) (add_u64 (ut_succeeded t) 1)
      else if st = ''failed'' then map_sum (\<lambda>e. e) (\<lambda>n. t\<lparr>ut_failed := n\<rparr>) (add_u64 (ut_failed t) 1)
      else if st = ''aborted'' then map_sum (\<lambda>e. e) (\<lambda>n. t\<lparr>ut_aborted := n\<rparr>) (add_u64 (ut_aborted t) 1)
      else if st = ''pending'' then map_sum (\<lambda>e. e) (\<lambda>n. t\<lparr>ut_pending := n\<rparr>) (add_u64 (ut_pending t) 1)
      else if st = ''streaming'' then map_sum (\<lambda>e. e) (\<lambda>n. t\<lparr>ut_streaming := n\<rparr>) (add_u64 (ut_streaming t) 1)
      else Inl (Bail ''Invalid persisted interaction status''))"

definition add_cost :: "rat option \<Rightarrow> usage_totals \<Rightarrow> usage_totals res" where
  "add_cost cost t =
     (case cost of
        None \<Rightarrow> Inr t
      | Some c \<Rightarrow>
          rbind (add_u64 (ut_priced t) 1) (\<lambda>n.
          Inr (t\<lparr>ut_cost := Some ((case ut_cost t of None \<Rightarrow> 0 | Some s \<Rightarrow> s) + c),
                 ut_currency := Some ''USD'', ut_priced := n\<rparr>)))"

definition add_tokens :: "interaction_record \<Rightarrow> usage_totals \<Rightarrow> usage_totals res" where
  "add_tokens r t =
     (let ob = ut_observations t in
      rbind (add_observation (ut_input t) (ob_input ob) (ir_input r)) (\<lambda>(i, ni).
      rbind (add_observation (ut_output t) (ob_output ob) (ir_output r)) (\<lambda>(out, no).
      rbind (add_observation (ut_cached t) (ob_cached ob) (ir_cached r)) (\<lambda>(ca, nc).
      rbind (add_observation (ut_written t) (ob_written ob) (ir_written r)) (\<lambda>(wr, nw).
      rbind (add_observation (ut_total t) (ob_total ob) (ir_total r)) (\<lambda>(to, nt).
      Inr (t\<lparr>ut_input := i, ut_output := out, ut_cached := ca, ut_written := wr, ut_total := to,
             ut_observations := \<lparr>ob_input = ni, ob_output = no, ob_cached = nc, ob_written = nw,
               ob_total = nt\<rparr>\<rparr>)))))))"

definition add_usage :: "interaction_record \<Rightarrow> usage_totals \<Rightarrow> usage_totals res" where
  "add_usage r t =
     rbind (add_u64 (ut_interactions t) 1) (\<lambda>n.
     rbind (add_status (ir_status r) (t\<lparr>ut_interactions := n\<rparr>)) (\<lambda>t1.
     rbind (add_u64 (ut_request_bytes t1) (ir_request_bytes r)) (\<lambda>rq.
     rbind (add_u64 (ut_response_bytes t1) (ir_response_bytes r)) (\<lambda>rs.
     rbind (add_tokens r (t1\<lparr>ut_request_bytes := rq, ut_response_bytes := rs\<rparr>)) (\<lambda>t2.
     add_cost (ir_cost r) t2)))))"

record model_usage =
  mu_provider :: string
  mu_name :: string
  mu_model :: string
  mu_totals :: usage_totals

definition mu_key :: "model_usage \<Rightarrow> string \<times> string" where
  "mu_key m = (mu_provider m, mu_model m)"

text \<open>The B-tree map of models: a list in key order.\<close>

definition key_less :: "string \<times> string \<Rightarrow> string \<times> string \<Rightarrow> bool" where
  "key_less a b \<longleftrightarrow> fst a < fst b \<or> (fst a = fst b \<and> snd a < snd b)"

fun add_model :: "interaction_record \<Rightarrow> model_usage list \<Rightarrow> model_usage list res" where
  "add_model r [] =
     rbind (add_usage r no_usage) (\<lambda>t.
     Inr [\<lparr>mu_provider = ir_provider r, mu_name = ir_provider_name r, mu_model = ir_model r, mu_totals = t\<rparr>])"
| "add_model r (m # ms) =
     (let k = (ir_provider r, ir_model r) in
      if mu_key m = k then rbind (add_usage r (mu_totals m)) (\<lambda>t. Inr (m\<lparr>mu_totals := t\<rparr> # ms))
      else if key_less k (mu_key m)
      then rbind (add_usage r no_usage) (\<lambda>t.
        Inr (\<lparr>mu_provider = ir_provider r, mu_name = ir_provider_name r, mu_model = ir_model r,
              mu_totals = t\<rparr> # m # ms))
      else rbind (add_model r ms) (\<lambda>ms'. Inr (m # ms')))"

record comparison =
  cm_interactions :: nat
  cm_context :: nat
  cm_source :: nat
  cm_reduction :: int
  cm_percent :: "rat option"

definition add_comparison :: "interaction_record \<Rightarrow> comparison \<Rightarrow> comparison res" where
  "add_comparison r c =
     (if ir_operation r \<noteq> ''capture'' \<and> ir_context_bytes r > 0
      then case ir_source_bytes r of
          None \<Rightarrow> Inr c
        | Some src \<Rightarrow>
            rbind (add_u64 (cm_interactions c) 1) (\<lambda>n.
            rbind (add_u64 (cm_context c) (ir_context_bytes r)) (\<lambda>x.
            rbind (add_u64 (cm_source c) src) (\<lambda>y.
            Inr (c\<lparr>cm_interactions := n, cm_context := x, cm_source := y\<rparr>))))
      else Inr c)"

fun add_records ::
    "journal_row list \<Rightarrow> usage_totals \<times> model_usage list \<times> comparison
     \<Rightarrow> (usage_totals \<times> model_usage list \<times> comparison) res" where
  "add_records [] acc = Inr acc"
| "add_records (row # rows) (t, ms, c) =
     rbind (ok_or (jr_record row) (Decode ''record'')) (\<lambda>r.
     rbind (add_usage r t) (\<lambda>t'.
     rbind (add_model r ms) (\<lambda>ms'.
     rbind (add_comparison r c) (\<lambda>c'.
     add_records rows (t', ms', c')))))"

definition finish_comparison :: "comparison \<Rightarrow> comparison" where
  "finish_comparison c =
     (let red = int (cm_source c) - int (cm_context c)
      in c\<lparr>cm_reduction := red,
           cm_percent := (if cm_source c > 0 then Some (100 * of_int red / of_nat (cm_source c)) else None)\<rparr>)"

record usage_summary =
  us_period :: string
  us_from :: "string option"
  us_until :: string
  us_totals :: usage_totals
  us_models :: "model_usage list"
  us_comparison :: comparison

definition usage_rows :: "string option \<Rightarrow> string \<Rightarrow> db \<Rightarrow> journal_row list" where
  "usage_rows from until d =
     sort_key jr_started (sort_key jr_id
       (filter (\<lambda>r. opt_all (\<lambda>t. t \<le> jr_started r) from \<and> jr_started r \<le> until) (d_journal d)))"

definition journal_usage :: "platform \<Rightarrow> int \<Rightarrow> string \<Rightarrow> db \<Rightarrow> usage_summary stmts" where
  "journal_usage P now period d =
     then_stmt (journal_prune P now d) (\<lambda>_ d0.
       (rbind (period_start P period now) (\<lambda>from.
        let until = rfc3339_ms P now in
        rbind (add_records (usage_rows from until d0) (no_usage, [],
           \<lparr>cm_interactions = 0, cm_context = 0, cm_source = 0, cm_reduction = 0, cm_percent = None\<rparr>))
          (\<lambda>(t, ms, c).
        Inr \<lparr>us_period = period, us_from = from, us_until = until, us_totals = t, us_models = ms,
             us_comparison = finish_comparison c\<rparr>)), d0))"

section \<open>The ledger stays consistent\<close>

text \<open>Identifiers are unique, and the columns of a row repeat what its record says.\<close>

definition row_consistent :: "journal_row \<Rightarrow> bool" where
  "row_consistent row \<longleftrightarrow> opt_all (\<lambda>r. ir_id r = jr_id row \<and> ir_status r = jr_status row
     \<and> ir_started r = jr_started row) (jr_record row)"

definition journal_wf :: "db \<Rightarrow> bool" where
  "journal_wf d \<longleftrightarrow> distinct (map jr_id (d_journal d)) \<and> (\<forall>row \<in> set (d_journal d). row_consistent row)"

lemma journal_wf_same: "d_journal d' = d_journal d \<Longrightarrow> journal_wf d' = journal_wf d"
  by (simp add: journal_wf_def)

lemma journal_prune_journal:
  "\<exists>p. d_journal (snd (journal_prune P now d)) = filter p (d_journal d)"
  by (cases "journal_preferences d") (auto simp: journal_prune_def Let_def intro: exI [of _ "\<lambda>_. True"])

lemma journal_prune_wf: "journal_wf d \<Longrightarrow> journal_wf (snd (journal_prune P now d))"
  using journal_prune_journal [of P now d] by (auto simp: journal_wf_def distinct_map_filter)

lemma journal_prune_snd: "journal_prune P now d = (x, d') \<Longrightarrow> d' = snd (journal_prune P now d)"
  by simp

lemma start_record_fields [simp]:
  "ir_id (start_record s dst t) = is_id s" "ir_status (start_record s dst t) = ''pending''"
  "ir_started (start_record s dst t) = t"
  by (simp_all add: start_record_def)

lemma journal_start_wf:
  assumes "journal_wf d"
  shows "journal_wf (snd (journal_start P w s d))"
proof -
  obtain x d0 where p: "journal_prune P (now_at w) d = (x, d0)" by (cases "journal_prune P (now_at w) d")
  have wf0: "journal_wf d0" using journal_prune_wf [OF assms, of P "now_at w"] p by simp
  show ?thesis
  proof (cases x)
    case (Inl e)
    with p wf0 show ?thesis by (simp add: journal_start_def)
  next
    case (Inr u)
    show ?thesis
    proof (cases "journal_preferences d0")
      case (Inl e)
      with p Inr wf0 show ?thesis by (simp add: journal_start_def)
    next
      case pref: (Inr ed)
      obtain en days where "ed = (en, days)" by (cases ed)
      let ?tx = "rbind (start_checks P s) (\<lambda>destination.
             rbind (journal_timestamp P w (is_started s)) (\<lambda>started.
             let r = start_record s destination started in
             rbind (t_insert jr_id \<lparr>jr_id = ir_id r, jr_provider = ir_provider r,
                 jr_provider_name = ir_provider_name r, jr_model = ir_model r, jr_status = ir_status r,
                 jr_started = ir_started r, jr_record = Some r\<rparr> (d_journal d0)) (\<lambda>rows.
             Inr (True, d0\<lparr>d_journal := rows\<rparr>))))"
      have "journal_wf (snd (commit ?tx d0))"
      proof (rule commit_cases [where Q = journal_wf, OF wf0])
        fix b d'
        assume "?tx = Inr (b, d')"
        then show "journal_wf d'"
          using wf0 by (auto simp: Let_def rbind_eq_Inr t_insert_Inr journal_wf_def row_consistent_def opt_all_def)
      qed
      with p Inr wf0 pref \<open>ed = (en, days)\<close> show ?thesis by (simp add: journal_start_def)
    qed
  qed
qed

lemma merge_finish_fields [simp]:
  "ir_id (merge_finish f r) = ir_id r" "ir_status (merge_finish f r) = if_status f"
  "ir_started (merge_finish f r) = ir_started r" "ir_response_bytes (merge_finish f r) = if_response_bytes f"
  "ir_provider (merge_finish f r) = ir_provider r" "ir_model (merge_finish f r) = ir_model r"
  "ir_destination (merge_finish f r) = ir_destination r" "ir_rates (merge_finish f r) = ir_rates r"
  "ir_grant (merge_finish f r) = ir_grant r" "ir_receipt (merge_finish f r) = ir_receipt r"
  "ir_request_bytes (merge_finish f r) = ir_request_bytes r"
  "ir_error (merge_finish f r) = opt_or (map_option sanitize_error (if_error f)) (ir_error r)"
  by (simp_all add: merge_finish_def)

text \<open>What a completion may change of a record.\<close>

definition advances :: "interaction_record \<Rightarrow> interaction_record \<Rightarrow> bool" where
  "advances r r' \<longleftrightarrow> \<not> terminal (ir_status r) \<and> ir_id r' = ir_id r \<and> ir_started r' = ir_started r
     \<and> ir_provider r' = ir_provider r \<and> ir_model r' = ir_model r \<and> ir_destination r' = ir_destination r
     \<and> ir_grant r' = ir_grant r \<and> ir_receipt r' = ir_receipt r \<and> ir_rates r' = ir_rates r
     \<and> ir_request_bytes r' = ir_request_bytes r \<and> ir_response_bytes r \<le> ir_response_bytes r'
     \<and> (ir_status r' = ''streaming'' \<longrightarrow> ir_streaming r)
     \<and> (terminal (ir_status r') \<longrightarrow> ir_finished r' \<noteq> None)
     \<and> ir_cost r' = estimated_cost r' \<and> (\<forall>e. ir_error r' = Some e \<longrightarrow> ir_error r = Some e \<or> e \<in> set error_codes)"

lemma estimated_cost_updates [simp]:
  "estimated_cost (r\<lparr>ir_cost := a, ir_currency := b\<rparr>) = estimated_cost r"
  "estimated_cost (r\<lparr>ir_cost := a\<rparr>) = estimated_cost r"
  by (simp_all add: estimated_cost_def)

lemma finish_record_Inr:
  assumes "finish_record P w f r = Inr r'" and "\<not> terminal (ir_status r)"
  shows "advances r r' \<and> ir_status r' = if_status f"
proof -
  from assms(1) obtain r2 where b: "ir_response_bytes r \<le> if_response_bytes f"
    "if_status f = ''streaming'' \<longrightarrow> ir_streaming r"
    and r2: "(if terminal (if_status f)
        then rbind (journal_timestamp P w (if_finished f)) (\<lambda>t. Inr ((merge_finish f r)\<lparr>ir_finished := Some t\<rparr>))
        else Inr (merge_finish f r)) = Inr r2"
    and r': "r' = r2\<lparr>ir_cost := estimated_cost r2, ir_currency := map_option (\<lambda>_. ''USD'') (estimated_cost r2)\<rparr>"
    by (auto simp: finish_record_def rbind_eq_Inr ensure_eq_Inr Let_def not_less)
  from r2 obtain fin where r2': "r2 = (merge_finish f r)\<lparr>ir_finished := fin\<rparr>"
    and fin: "terminal (if_status f) \<longrightarrow> fin \<noteq> None"
  proof (cases "terminal (if_status f)")
    case True
    with r2 obtain t where "r2 = (merge_finish f r)\<lparr>ir_finished := Some t\<rparr>" by (auto simp: rbind_eq_Inr)
    then show thesis by (intro that [of "Some t"]) simp_all
  next
    case False
    with r2 have "r2 = merge_finish f r" by simp
    with False show thesis by (intro that [of "ir_finished (merge_finish f r)"]) simp_all
  qed
  have "opt_or (map_option sanitize_error (if_error f)) (ir_error r) = Some e \<Longrightarrow>
      ir_error r = Some e \<or> e \<in> set error_codes" for e
    using sanitize_error_code by (cases "if_error f") (auto simp: opt_or_def)
  with b fin assms(2) show ?thesis
    by (simp add: advances_def r' r2')
qed

lemma journal_finish_Inr:
  assumes "journal_finish P w i f d = Inr (b, d')" and "journal_wf d"
  shows "if b then \<exists>row r r'. row \<in> set (d_journal d) \<and> jr_id row = i \<and> jr_record row = Some r
         \<and> advances r r' \<and> ir_status r' = if_status f
         \<and> d' = d\<lparr>d_journal := t_update jr_id i (\<lambda>x. x\<lparr>jr_status := ir_status r', jr_record := Some r'\<rparr>) (d_journal d)\<rparr>
     else d' = d \<and> (\<forall>row \<in> set (d_journal d). jr_id row = i \<longrightarrow>
         (\<exists>r. jr_record row = Some r \<and> terminal (ir_status r)))"
proof (cases "t_find jr_id i (d_journal d)")
  case None
  with assms(1) show ?thesis
    by (auto simp: journal_finish_def rbind_eq_Inr t_find_None image_iff)
next
  case (Some row)
  from t_find_Some [OF Some] have row: "row \<in> set (d_journal d)" "jr_id row = i" by auto
  have uniq: "x = row" if "x \<in> set (d_journal d)" "jr_id x = i" for x
    using that row assms(2) by (auto simp: journal_wf_def distinct_map inj_on_def)
  from assms(1) Some obtain r where r: "jr_record row = Some r"
    by (auto simp: journal_finish_def rbind_eq_Inr ok_or_eq_Inr)
  show ?thesis
  proof (cases "terminal (ir_status r)")
    case True
    with assms(1) Some r have "\<not> b \<and> d' = d" by (auto simp: journal_finish_def rbind_eq_Inr)
    with True r uniq show ?thesis by auto
  next
    case False
    let ?hit = "\<lambda>x. jr_id x = i \<and> jr_record x = Some r"
    from False assms(1) Some r obtain r' where r': "finish_record P w f r = Inr r'"
      and b: "b \<longleftrightarrow> length (filter ?hit (d_journal d)) = 1"
      and d': "d' = d\<lparr>d_journal := map (\<lambda>x. if ?hit x then x\<lparr>jr_status := ir_status r', jr_record := Some r'\<rparr> else x)
           (d_journal d)\<rparr>"
      by (auto simp: journal_finish_def rbind_eq_Inr Let_def)
    have hit: "?hit x \<longleftrightarrow> jr_id x = i" if "x \<in> set (d_journal d)" for x
      using uniq [OF that] r by blast
    then have "filter ?hit (d_journal d) = filter (\<lambda>x. jr_id x = i) (d_journal d)"
      by (intro filter_cong) auto
    moreover have "length (filter (\<lambda>x. jr_id x = i) (d_journal d)) = 1"
    proof -
      have "distinct (filter (\<lambda>x. jr_id x = i) (d_journal d))"
        using assms(2) by (simp add: journal_wf_def distinct_map)
      moreover have "set (filter (\<lambda>x. jr_id x = i) (d_journal d)) = {row}"
        unfolding set_filter using row uniq by blast
      ultimately show ?thesis using distinct_card [of "filter (\<lambda>x. jr_id x = i) (d_journal d)"] by simp
    qed
    ultimately have "b" by (simp add: b)
    moreover have "d' = d\<lparr>d_journal := t_update jr_id i (\<lambda>x. x\<lparr>jr_status := ir_status r', jr_record := Some r'\<rparr>) (d_journal d)\<rparr>"
      unfolding d' t_update_def using hit by (intro arg_cong [where f = "\<lambda>l. d\<lparr>d_journal := l\<rparr>"] map_cong) auto
    ultimately show ?thesis
      using row r finish_record_Inr [OF r' False]
      by (simp only: if_True) (intro exI [of _ row] exI [of _ r] exI [of _ r'] conjI; simp)
  qed
qed

lemma update_row_wf:
  assumes "journal_wf d" "row \<in> set (d_journal d)" "jr_id row = i" "jr_record row = Some r"
    "ir_id r' = ir_id r" "ir_started r' = ir_started r"
  shows "journal_wf (d\<lparr>d_journal := t_update jr_id i (\<lambda>x. x\<lparr>jr_status := ir_status r', jr_record := Some r'\<rparr>) (d_journal d)\<rparr>)"
proof -
  from assms have "row_consistent row" by (simp add: journal_wf_def)
  with assms(3,4) have r: "ir_id r = i" "ir_started r = jr_started row" by (auto simp: row_consistent_def opt_all_def)
  have uniq: "x = row" if "x \<in> set (d_journal d)" "jr_id x = i" for x
    using that assms by (auto simp: journal_wf_def distinct_map inj_on_def)
  have "row_consistent y" if y: "y \<in> set (t_update jr_id i (\<lambda>x. x\<lparr>jr_status := ir_status r', jr_record := Some r'\<rparr>) (d_journal d))" for y
  proof -
    from y obtain x where x: "x \<in> set (d_journal d)"
      "y = (if jr_id x = i then x\<lparr>jr_status := ir_status r', jr_record := Some r'\<rparr> else x)"
      by (auto simp: t_update_def)
    show ?thesis
    proof (cases "jr_id x = i")
      case True
      with uniq x have "x = row" by blast
      with x True r assms(5,6) show ?thesis by (simp add: row_consistent_def opt_all_def)
    next
      case False
      with x assms(1) show ?thesis by (simp add: journal_wf_def)
    qed
  qed
  with assms(1) show ?thesis by (simp add: journal_wf_def t_update_keys)
qed

lemma journal_finish_wf:
  assumes "journal_finish P w i f d = Inr (b, d')" "journal_wf d"
  shows "journal_wf d'"
proof (cases b)
  case True
  with journal_finish_Inr [OF assms] obtain row r r' where "row \<in> set (d_journal d)" "jr_id row = i"
    "jr_record row = Some r" and a: "advances r r'"
    and d': "d' = d\<lparr>d_journal := t_update jr_id i (\<lambda>x. x\<lparr>jr_status := ir_status r', jr_record := Some r'\<rparr>) (d_journal d)\<rparr>"
    by auto
  with assms(2) show ?thesis unfolding d' by (intro update_row_wf) (auto simp: advances_def)
next
  case False
  with journal_finish_Inr [OF assms] assms(2) show ?thesis by simp
qed

lemma journal_delete_history_wf:
  "journal_delete_history P w d = Inr (n, d') \<Longrightarrow> journal_wf d'"
  by (auto simp: journal_delete_history_def rbind_eq_Inr Let_def journal_wf_def)

text \<open>Aborting a list of records.\<close>

lemma abort_all_wf: "journal_wf d \<Longrightarrow> journal_wf (snd (abort_all P w rs n d))"
proof (induction P w rs n d rule: abort_all.induct)
  case (2 P w r rs n d)
  show ?case
  proof (cases "journal_finish P w (ir_id r) (abort_finish r) d")
    case (Inl e)
    with 2 show ?thesis by simp
  next
    case (Inr y)
    obtain b d1 where y: "y = (b, d1)" by (cases y)
    have "journal_wf d1" using journal_finish_wf Inr y "2.prems" by blast
    with "2.IH" [OF _] Inr y show ?thesis by simp
  qed
qed simp

lemma recover_wf: "journal_wf d \<Longrightarrow> journal_wf (snd (journal_recover_interrupted P w d))"
proof -
  assume wf: "journal_wf d"
  obtain x d0 where p: "journal_prune P (now_at w) d = (x, d0)" by (cases "journal_prune P (now_at w) d")
  have "journal_wf d0" using journal_prune_wf [OF wf, of P "now_at w"] p by simp
  with p show ?thesis
    by (cases x; cases "map_res (\<lambda>r. ok_or (jr_record r) (Decode ''record'')) (filter interrupted (d_journal d0))")
      (simp_all add: journal_recover_interrupted_def abort_all_wf)
qed

datatype journal_op =
    StartInteraction interaction_start
  | FinishInteraction string interaction_finish
  | PruneJournal
  | ClearHistory
  | RecoverInterrupted
  | RecordAudit string audit_details

fun journal_step :: "platform \<Rightarrow> draw \<times> journal_op \<Rightarrow> db \<Rightarrow> db" where
  "journal_step P (w, StartInteraction s) d = snd (journal_start P w s d)"
| "journal_step P (w, FinishInteraction i f) d = after (journal_finish P w i f d) d"
| "journal_step P (w, PruneJournal) d = snd (journal_prune P (now_at w) d)"
| "journal_step P (w, ClearHistory) d = after (journal_delete_history P w d) d"
| "journal_step P (w, RecoverInterrupted) d = snd (journal_recover_interrupted P w d)"
| "journal_step P (w, RecordAudit a x) d = after (audited P w 0 a x () d) d"

interpretation ledger: op_invariant "journal_step P" journal_wf for P
proof
  fix d :: db and x :: "draw \<times> journal_op"
  assume wf: "journal_wf d"
  obtain w y where x: "x = (w, y)" by (cases x)
  show "journal_wf (journal_step P x d)"
  proof (cases y)
    case (FinishInteraction i f)
    show ?thesis unfolding x FinishInteraction journal_step.simps
      by (rule after_cases [where P = journal_wf]) (use wf journal_finish_wf in blast)+
  next
    case ClearHistory
    show ?thesis unfolding x ClearHistory journal_step.simps
      by (rule after_cases [where P = journal_wf]) (use wf journal_delete_history_wf in blast)+
  next
    case (RecordAudit a z)
    show ?thesis unfolding x RecordAudit journal_step.simps
      by (rule after_cases [where P = journal_wf])
        (use wf in \<open>auto simp: audited_Inr audit_on_frame journal_wf_def\<close>)
  qed (simp_all add: x wf journal_start_wf journal_prune_wf recover_wf)
qed

section \<open>Recovery settles every interaction\<close>

lemma terminal_statuses: "terminal s \<longleftrightarrow> s = ''succeeded'' \<or> s = ''failed'' \<or> s = ''aborted''"
  by (auto simp: terminal_def List.member_iff)

lemma interrupted_statuses: "interrupted r \<longleftrightarrow> jr_status r = ''pending'' \<or> jr_status r = ''streaming''"
  by (auto simp: interrupted_def List.member_iff)

text \<open>One abort settles its row and leaves the others.\<close>

lemma abort_one:
  assumes "journal_finish P w (ir_id r) (abort_finish r) d = Inr (b, d')" "journal_wf d"
    and "row \<in> set (d_journal d)" "jr_record row = Some r" "interrupted row"
  shows "b \<and> filter interrupted (d_journal d') = filter (\<lambda>x. interrupted x \<and> jr_id x \<noteq> ir_id r) (d_journal d)
     \<and> journal_wf d'"
proof -
  have row: "jr_id row = ir_id r" "jr_status row = ir_status r"
    using assms(2,3,4) by (auto simp: journal_wf_def row_consistent_def opt_all_def)
  have nt: "\<not> terminal (ir_status r)" using assms(5) row by (auto simp: interrupted_statuses terminal_statuses)
  have b: b
  proof (rule ccontr)
    assume "\<not> b"
    with journal_finish_Inr [OF assms(1,2)] assms(3,4) row nt show False by auto
  qed
  with journal_finish_Inr [OF assms(1,2)] obtain r' where st: "ir_status r' = ''aborted''"
    and d': "d' = d\<lparr>d_journal := t_update jr_id (ir_id r) (\<lambda>x. x\<lparr>jr_status := ir_status r', jr_record := Some r'\<rparr>) (d_journal d)\<rparr>"
    by (auto simp: abort_finish_def)
  have "filter interrupted (t_update jr_id (ir_id r) (\<lambda>x. x\<lparr>jr_status := ir_status r', jr_record := Some r'\<rparr>) rows)
      = filter (\<lambda>x. interrupted x \<and> jr_id x \<noteq> ir_id r) rows" for rows
    by (induction rows) (auto simp: t_update_def st interrupted_statuses)
  with b d' journal_finish_wf [OF assms(1,2)] show ?thesis by simp
qed

lemma abort_all_settles:
  assumes "abort_all P w rs n d = (Inr m, d')" "journal_wf d"
    and "map jr_record (filter interrupted (d_journal d)) = map Some rs"
  shows "filter interrupted (d_journal d') = [] \<and> m = n + length rs"
  using assms
proof (induction rs arbitrary: n d)
  case (Cons r rs)
  let ?I = "filter interrupted (d_journal d)"
  from Cons.prems(3) obtain row rest where I: "?I = row # rest" "jr_record row = Some r"
    "map jr_record rest = map Some rs" by (cases ?I) auto
  then have "row \<in> set ?I" by simp
  then have row: "row \<in> set (d_journal d)" "interrupted row" by auto
  then have id: "jr_id row = ir_id r"
    using Cons.prems(2) I(2) by (auto simp: journal_wf_def row_consistent_def opt_all_def)
  from Cons.prems(1) obtain b d1 where f: "journal_finish P w (ir_id r) (abort_finish r) d = Inr (b, d1)"
    and nx: "abort_all P w rs (if b then Suc n else n) d1 = (Inr m, d')"
    by (cases "journal_finish P w (ir_id r) (abort_finish r) d") auto
  note one = abort_one [OF f Cons.prems(2) row(1) I(2) row(2)]
  have "distinct (map jr_id ?I)"
    using Cons.prems(2) by (simp add: journal_wf_def distinct_map_filter)
  then have "ir_id r \<notin> jr_id ` set rest" using I(1) id by simp
  then have "\<forall>x \<in> set rest. jr_id x \<noteq> ir_id r" by (metis imageI)
  then have "filter (\<lambda>x. jr_id x \<noteq> ir_id r) ?I = rest" using I(1) id by (simp add: filter_id_conv)
  then have "filter interrupted (d_journal d1) = rest"
    using one by (simp add: conj_commute)
  with I(3) have "map jr_record (filter interrupted (d_journal d1)) = map Some rs" by simp
  with Cons.IH [of "Suc n" d1] nx one show ?case by auto
qed simp

lemma map_res_records:
  "map_res (\<lambda>r. ok_or (jr_record r) e) rows = Inr rs \<Longrightarrow> map jr_record rows = map Some rs"
  by (induction rows arbitrary: rs) (auto simp: rbind_eq_Inr ok_or_eq_Inr)

lemma recover_settles:
  assumes "journal_recover_interrupted P w d = (Inr n, d')" "journal_wf d"
  shows "filter interrupted (d_journal d') = []
     \<and> n = length (filter interrupted (d_journal (snd (journal_prune P (now_at w) d))))"
proof -
  obtain x d0 where p: "journal_prune P (now_at w) d = (x, d0)" by (cases "journal_prune P (now_at w) d")
  have wf0: "journal_wf d0" using journal_prune_wf [OF assms(2), of P "now_at w"] p by simp
  from assms(1) p obtain rs where rs:
    "map_res (\<lambda>r. ok_or (jr_record r) (Decode ''record'')) (filter interrupted (d_journal d0)) = Inr rs"
    and ab: "abort_all P w rs 0 d0 = (Inr n, d')"
    by (cases x; cases "map_res (\<lambda>r. ok_or (jr_record r) (Decode ''record'')) (filter interrupted (d_journal d0))")
      (auto simp: journal_recover_interrupted_def)
  from abort_all_settles [OF ab wf0 map_res_records [OF rs]] map_res_length [OF rs] p show ?thesis by simp
qed

section \<open>Usage adds up\<close>

lemma add_u64_Inr: "add_u64 a b = Inr c \<longleftrightarrow> c = a + b \<and> a + b \<le> u64_max"
  by (auto simp: add_u64_def ok_or_eq_Inr checked_add_Some)

definition status_sum :: "usage_totals \<Rightarrow> nat" where
  "status_sum t = ut_succeeded t + ut_failed t + ut_aborted t + ut_pending t + ut_streaming t"

definition usage_known :: "nat option \<Rightarrow> nat" where
  "usage_known x = (case x of None \<Rightarrow> 0 | Some n \<Rightarrow> n)"

lemma add_observation_Inr:
  "add_observation a n v = Inr (b, m) \<Longrightarrow>
   usage_known b = usage_known a + usage_known v \<and> m = n + (if v = None then 0 else 1)
   \<and> (b = None \<longleftrightarrow> a = None \<and> v = None)"
  by (auto simp: add_observation_def usage_known_def rbind_eq_Inr add_u64_Inr split: option.splits)

lemma add_status_Inr:
  assumes "add_status st t = Inr t'"
  shows "status_sum t' = status_sum t + 1 \<and> ut_interactions t' = ut_interactions t
     \<and> ut_request_bytes t' = ut_request_bytes t \<and> ut_response_bytes t' = ut_response_bytes t
     \<and> ut_input t' = ut_input t \<and> ut_output t' = ut_output t \<and> ut_cost t' = ut_cost t"
  using assms
  by (auto simp: add_status_def status_sum_def add_u64_def ok_or_def checked_add_def split: if_splits)

lemma add_tokens_Inr:
  assumes "add_tokens r t = Inr t'"
  shows "status_sum t' = status_sum t \<and> ut_interactions t' = ut_interactions t
     \<and> ut_request_bytes t' = ut_request_bytes t \<and> ut_response_bytes t' = ut_response_bytes t
     \<and> ut_cost t' = ut_cost t \<and> usage_known (ut_input t') = usage_known (ut_input t) + usage_known (ir_input r)
     \<and> usage_known (ut_output t') = usage_known (ut_output t) + usage_known (ir_output r)"
proof -
  from assms obtain i ni out no ca nc wr nw tl nt where s:
    "add_observation (ut_input t) (ob_input (ut_observations t)) (ir_input r) = Inr (i, ni)"
    "add_observation (ut_output t) (ob_output (ut_observations t)) (ir_output r) = Inr (out, no)"
    and t': "t' = t\<lparr>ut_input := i, ut_output := out, ut_cached := ca, ut_written := wr, ut_total := tl,
             ut_observations := \<lparr>ob_input = ni, ob_output = no, ob_cached = nc, ob_written = nw,
               ob_total = nt\<rparr>\<rparr>"
    unfolding add_tokens_def Let_def
    by (simp only: rbind_eq_Inr split_paired_Ex prod.case sum.inject) (elim exE conjE, (drule sym)?, rule that)
  from add_observation_Inr [OF s(1)] add_observation_Inr [OF s(2)] show ?thesis
    by (simp add: t' status_sum_def)
qed

lemma add_cost_Inr:
  assumes "add_cost c t = Inr t'"
  shows "status_sum t' = status_sum t \<and> ut_interactions t' = ut_interactions t
     \<and> ut_request_bytes t' = ut_request_bytes t \<and> ut_response_bytes t' = ut_response_bytes t
     \<and> ut_input t' = ut_input t \<and> ut_output t' = ut_output t"
  using assms by (auto simp: add_cost_def rbind_eq_Inr status_sum_def split: option.splits)

text \<open>The measured quantities of a summary, as one tuple.\<close>

definition usage_vec :: "usage_totals \<Rightarrow> nat list" where
  "usage_vec t = [ut_interactions t, status_sum t, ut_request_bytes t, ut_response_bytes t,
     usage_known (ut_input t), usage_known (ut_output t)]"

definition record_measures :: "interaction_record \<Rightarrow> nat list" where
  "record_measures r = [1, 1, ir_request_bytes r, ir_response_bytes r,
     usage_known (ir_input r), usage_known (ir_output r)]"

definition plus_list :: "nat list \<Rightarrow> nat list \<Rightarrow> nat list" where
  "plus_list = map2 (+)"

lemma add_usage_measures:
  assumes "add_usage r t = Inr t'"
  shows "usage_vec t' = plus_list (usage_vec t) (record_measures r)"
proof -
  from assms obtain n t1 rq rs t2 where s: "add_u64 (ut_interactions t) 1 = Inr n"
    "add_status (ir_status r) (t\<lparr>ut_interactions := n\<rparr>) = Inr t1"
    "add_u64 (ut_request_bytes t1) (ir_request_bytes r) = Inr rq"
    "add_u64 (ut_response_bytes t1) (ir_response_bytes r) = Inr rs"
    "add_tokens r (t1\<lparr>ut_request_bytes := rq, ut_response_bytes := rs\<rparr>) = Inr t2"
    "add_cost (ir_cost r) t2 = Inr t'"
    by (auto simp: add_usage_def rbind_eq_Inr)
  from add_status_Inr [OF s(2)] add_tokens_Inr [OF s(5)] add_cost_Inr [OF s(6)] s(1,3,4)
  show ?thesis
    by (simp add: usage_vec_def record_measures_def plus_list_def add_u64_Inr status_sum_def)
qed

text \<open>The sum of the usage_vec of a list of summaries or of records.\<close>

definition sum_measures :: "nat list list \<Rightarrow> nat list" where
  "sum_measures xs = map (\<lambda>i. sum_list (map (\<lambda>x. x ! i) xs)) [0..<6]"

lemma measures_length [simp]: "length (usage_vec t) = 6" "length (record_measures r) = 6"
  by (simp_all add: usage_vec_def record_measures_def)

lemma plus_list_nth: "length a = 6 \<Longrightarrow> length b = 6 \<Longrightarrow> i < 6 \<Longrightarrow> plus_list a b ! i = a ! i + b ! i"
  by (simp add: plus_list_def)

lemma list_eq_6: "length a = 6 \<Longrightarrow> length b = 6 \<Longrightarrow> (\<And>i. i < 6 \<Longrightarrow> a ! i = b ! i) \<Longrightarrow> a = b"
  by (intro nth_equalityI) auto

lemma sum_measures_nth: "i < 6 \<Longrightarrow> sum_measures xs ! i = sum_list (map (\<lambda>x. x ! i) xs)"
  by (simp add: sum_measures_def)

lemma no_usage_measures: "i < 6 \<Longrightarrow> usage_vec no_usage ! i = 0"
proof -
  assume "i < 6"
  then have "i \<in> {0, 1, 2, 3, 4, 5}" by auto
  then show ?thesis by (auto simp: usage_vec_def no_usage_def status_sum_def usage_known_def)
qed

lemma add_model_measures:
  assumes "add_model r ms = Inr ms'" "i < 6"
  shows "sum_list (map (\<lambda>m. usage_vec (mu_totals m) ! i) ms')
     = sum_list (map (\<lambda>m. usage_vec (mu_totals m) ! i) ms) + record_measures r ! i"
  using assms(1)
proof (induction r ms arbitrary: ms' rule: add_model.induct)
  case (1 r)
  then obtain t where "add_usage r no_usage = Inr t" "map mu_totals ms' = [t]" by (auto simp: rbind_eq_Inr)
  with add_usage_measures [of r no_usage t] no_usage_measures [OF assms(2)] assms(2) show ?case
    by (cases ms') (auto simp: plus_list_nth)
next
  case (2 r m ms)
  consider (same) "mu_key m = (ir_provider r, ir_model r)"
    | (before) "mu_key m \<noteq> (ir_provider r, ir_model r)" "key_less (ir_provider r, ir_model r) (mu_key m)"
    | (behind) "mu_key m \<noteq> (ir_provider r, ir_model r)" "\<not> key_less (ir_provider r, ir_model r) (mu_key m)"
    by blast
  then show ?case
  proof cases
    case same
    with "2.prems" obtain t where "add_usage r (mu_totals m) = Inr t" "ms' = m\<lparr>mu_totals := t\<rparr> # ms"
      by (auto simp: rbind_eq_Inr)
    with add_usage_measures [of r "mu_totals m" t] assms(2) show ?thesis by (simp add: plus_list_nth)
  next
    case before
    with "2.prems" obtain t where t: "add_usage r no_usage = Inr t"
      "ms' = \<lparr>mu_provider = ir_provider r, mu_name = ir_provider_name r, mu_model = ir_model r,
              mu_totals = t\<rparr> # m # ms" by (auto simp: rbind_eq_Inr)
    with add_usage_measures [of r no_usage t] no_usage_measures [OF assms(2)] assms(2) show ?thesis
      by (simp add: plus_list_nth)
  next
    case behind
    with "2.prems" obtain ys where "add_model r ms = Inr ys" "ms' = m # ys" by (auto simp: rbind_eq_Inr)
    with "2.IH" behind show ?thesis by simp
  qed
qed

lemma add_records_measures:
  assumes "add_records rows (t, ms, c) = Inr (t', ms', c')"
  shows "\<exists>rs. map jr_record rows = map Some rs \<and> (\<forall>i < 6.
       usage_vec t' ! i = usage_vec t ! i + sum_list (map (\<lambda>r. record_measures r ! i) rs)
     \<and> sum_list (map (\<lambda>m. usage_vec (mu_totals m) ! i) ms')
        = sum_list (map (\<lambda>m. usage_vec (mu_totals m) ! i) ms) + sum_list (map (\<lambda>r. record_measures r ! i) rs))"
  using assms
proof (induction rows arbitrary: t ms c)
  case (Cons row rows)
  from Cons.prems obtain r t1 ms1 c1 where r: "jr_record row = Some r" "add_usage r t = Inr t1"
    "add_model r ms = Inr ms1" and rest: "add_records rows (t1, ms1, c1) = Inr (t', ms', c')"
    by (auto simp: rbind_eq_Inr ok_or_eq_Inr)
  from Cons.IH [OF rest] obtain rs where rs: "map jr_record rows = map Some rs"
    "\<forall>i < 6. usage_vec t' ! i = usage_vec t1 ! i + sum_list (map (\<lambda>r. record_measures r ! i) rs)
     \<and> sum_list (map (\<lambda>m. usage_vec (mu_totals m) ! i) ms')
        = sum_list (map (\<lambda>m. usage_vec (mu_totals m) ! i) ms1) + sum_list (map (\<lambda>r. record_measures r ! i) rs)"
    by blast
  show ?case
    by (rule exI [of _ "r # rs"])
      (use rs r add_usage_measures [OF r(2)] add_model_measures [OF r(3)] in
        \<open>simp add: plus_list_nth\<close>)
qed simp

end
