(* ===== verification/JournalProperties.thy ===== *)
theory JournalProperties
  imports Journal
begin

text \<open>
  The properties of the ledger of \<open>crates/omni-core/src/journal.rs\<close>: completions are final,
  recovery settles what a crash left open, the usage summary adds up and costs are never
  invented; with an interaction that is started, completed or recovered as their example.
\<close>

section \<open>Properties\<close>

definition demo_start :: interaction_start where
  "demo_start = \<lparr>is_id = ''i1'', is_provider = ''p'', is_provider_name = ''P'', is_model = ''m'',
     is_destination = ''https://a'', is_operation = ''chat'', is_protocol = ''openai'',
     is_streaming = True, is_grant = None, is_receipt = None, is_request_bytes = 10,
     is_context_bytes = 4, is_source_bytes = Some 9, is_context_tokens = None, is_source_tokens = None,
     is_started = None, is_rates = Some \<lparr>ra_input = 2, ra_output = 3, ra_cached = None,
       ra_written = None, ra_currency = ''USD''\<rparr>\<rparr>"

definition demo_journal :: db where
  "demo_journal = demo_vault\<lparr>d_journal := [\<lparr>jr_id = ''i1'', jr_provider = ''p'', jr_provider_name = ''P'',
     jr_model = ''m'', jr_status = ''pending'', jr_started = ''5'',
     jr_record = Some (start_record demo_start ''https://a'' ''5'')\<rparr>]\<rparr>"

lemma demo_journal_wf: "journal_wf demo_journal"
  by (simp add: journal_wf_def demo_journal_def row_consistent_def opt_all_def demo_start_def)

definition demo_finish :: interaction_finish where
  "demo_finish = default_finish\<lparr>if_status := ''succeeded'', if_http := Some 200, if_input := Some 100,
     if_output := Some 10, if_cached := Some 0, if_written := Some 0, if_response_bytes := 7\<rparr>"

lemma demo_finish_checks: "finish_checks demo_finish = Inr ()"
  by (simp add: finish_checks_def demo_finish_def default_finish_def List.member_iff opt_all_def metric_def
      i64_max_eq)

lemma demo_finished: "\<exists>d1. journal_finish demo_platform (demo_draw 6 ''w'') ''i1'' demo_finish demo_journal = Inr (True, d1)"
  unfolding journal_finish_def demo_finish_checks
  by (simp add: demo_journal_def t_find_def terminal_def List.member_iff finish_record_def merge_finish_def
      demo_finish_def default_finish_def start_record_def demo_start_def opt_or_def journal_timestamp_def Let_def)

text \<open>
  C26: The completion of an interaction is final: after a completion with a final status was
  recorded, every further completion of it, whatever it carries, is ignored and leaves the
  ledger as it is.
\<close>

theorem completion_is_final:
  assumes "journal_finish P w i f d = Inr (True, d1)" and "terminal (if_status f)" and "journal_wf d"
    and "finish_checks f2 = Inr ()"
  shows "journal_finish P w2 i f2 d1 = Inr (False, d1)"
proof -
  from journal_finish_Inr [OF assms(1,3)] obtain row r r' where row: "row \<in> set (d_journal d)" "jr_id row = i"
    and a: "ir_status r' = if_status f"
    and d1: "d1 = d\<lparr>d_journal := t_update jr_id i (\<lambda>x. x\<lparr>jr_status := ir_status r', jr_record := Some r'\<rparr>) (d_journal d)\<rparr>"
    by auto
  have wf: "distinct (map jr_id (d_journal d))" using assms(3) by (simp add: journal_wf_def)
  from t_find_unique [OF wf row(1)] row(2) have "t_find jr_id i (d_journal d) = Some row" by simp
  then have "t_find jr_id i (d_journal d1) = Some (row\<lparr>jr_status := ir_status r', jr_record := Some r'\<rparr>)"
    by (simp add: d1 t_find_update)
  with assms(2,4) a show ?thesis by (simp add: journal_finish_def)
qed

theorem completion_is_final_witness:
  "\<exists>d1. journal_finish demo_platform (demo_draw 6 ''w'') ''i1'' demo_finish demo_journal = Inr (True, d1)
     \<and> journal_finish demo_platform (demo_draw 7 ''v'') ''i1'' demo_finish d1 = Inr (False, d1)"
proof -
  from demo_finished obtain d1 where
    r: "journal_finish demo_platform (demo_draw 6 ''w'') ''i1'' demo_finish demo_journal = Inr (True, d1)" by blast
  have t: "terminal (if_status demo_finish)" by (simp add: demo_finish_def terminal_statuses)
  show ?thesis using r completion_is_final [OF r t demo_journal_wf demo_finish_checks] by blast
qed

text \<open>
  Recovery after a crash settles everything: after any use of the ledger, a recovery that
  succeeds leaves no interaction pending or streaming, and reports exactly how many it
  aborted.
\<close>

theorem recovery_settles_interactions:
  assumes "journal_recover_interrupted P w (run_ops (journal_step P) ops (empty_db i spec)) = (Inr n, d')"
  shows "(\<forall>row \<in> set (d_journal d'). \<not> interrupted row)
     \<and> n = length (filter interrupted (d_journal (snd (journal_prune P (now_at w)
             (run_ops (journal_step P) ops (empty_db i spec))))))"
proof -
  have "journal_wf (run_ops (journal_step P) ops (empty_db i spec))"
    by (rule ledger.run_inv) (simp add: journal_wf_def empty_db_def)
  from recover_settles [OF assms this] show ?thesis by (simp add: filter_empty_conv)
qed

text \<open>A ledger with one interaction in progress, and its recovery.\<close>

definition demo_ledger :: db where
  "demo_ledger = (empty_db ''i'' demo_spec)\<lparr>d_journal := d_journal demo_journal\<rparr>"

lemma demo_clock: "now_at (demo_draw t u) = t"
  by (simp add: demo_draw_def)

lemma demo_chars: "char_of (48 :: nat) = CHR ''0''" "char_of (53 :: nat) = CHR ''5''" "char_of (54 :: nat) = CHR ''6''"
  by code_simp+

lemma demo_start_checks: "start_checks demo_platform demo_start = Inr ''https://a''"
proof -
  have base: "normalize_base demo_platform ''https://a'' = Inr ''https://a''" by code_simp
  have ids: "map_res valid_identifier [''i1'', ''p''] = Inr [(), ()]" by code_simp
  have metas: "bounded_metadata ''P'' 200 ''provider name'' = Inr ()" "bounded_metadata ''m'' 200 ''model'' = Inr ()"
    "bounded_metadata ''https://a'' 2048 ''destination'' = Inr ()"
    by (simp_all add: bounded_metadata_def ensure_def trim_def trim_start_def trim_end_def strip_with.simps
        white_space_def)
  show ?thesis
    by (simp add: start_checks_def demo_start_def base ids metas opt_list_def List.map_filter_simps List.member_iff
        metric_def i64_max_eq opt_all_def opt_check_def validate_rates_def del: map_res.simps)
      (simp add: metric_def i64_max_eq opt_list_def List.map_filter_simps)
qed

lemma demo_begun: "journal_start demo_platform (demo_draw 5 ''w'') demo_start (empty_db ''i'' demo_spec)
   = (Inr True, demo_ledger)"
proof -
  have prune: "journal_prune demo_platform now (empty_db ''i'' demo_spec)
      = (Inr \<lparr>rt_interactions = 0, rt_audit = 0, rt_days = 30\<rparr>, empty_db ''i'' demo_spec)" for now
    by (simp add: journal_prune_def journal_preferences_def empty_db_def Let_def)
  have pref: "journal_preferences (empty_db ''i'' demo_spec) = Inr (True, 30)"
    by (simp add: journal_preferences_def empty_db_def)
  have checks: "start_checks demo_platform demo_start = Inr ''https://a''"
    by (rule demo_start_checks)
  have time: "journal_timestamp demo_platform (demo_draw 5 ''w'') None = Inr ''5''"
    by (simp add: journal_timestamp_def demo_platform_def demo_draw_def show_digit demo_chars)
  have "is_started demo_start = None" by (simp add: demo_start_def)
  then show ?thesis
    by (simp add: journal_start_def prune pref checks time Let_def t_insert_def demo_ledger_def
        demo_journal_def) (simp add: start_record_def demo_start_def empty_db_def)
qed

lemma demo_started: "journal_step demo_platform (demo_draw 5 ''w'', StartInteraction demo_start) (empty_db ''i'' demo_spec)
   = demo_ledger"
  by (simp add: demo_begun)

lemma demo_ledger_prune: "journal_prune demo_platform 6 demo_ledger
   = (Inr \<lparr>rt_interactions = 0, rt_audit = 0, rt_days = 30\<rparr>, demo_ledger)"
proof -
  have "nat (6 - int 30 * day) = 0" by (simp add: day_def second_def)
  then have cut: "rfc3339_ms demo_platform (6 - int 30 * day) = ''0''"
    by (simp add: demo_platform_def show_digit demo_chars)
  have pref: "journal_preferences demo_ledger = Inr (True, 30)"
    by (simp add: journal_preferences_def demo_ledger_def empty_db_def)
  show ?thesis
    unfolding journal_prune_def pref sum.case prod.case Let_def cut
    by (simp add: demo_ledger_def demo_journal_def empty_db_def)
qed

lemma demo_recover: "\<exists>d'. journal_recover_interrupted demo_platform (demo_draw 6 ''v'') demo_ledger = (Inr 1, d')"
proof -
  have rows: "filter interrupted (d_journal demo_ledger) = d_journal demo_journal"
    by (simp add: demo_ledger_def demo_journal_def interrupted_def List.member_iff)
  have checks: "finish_checks (abort_finish r) = Inr ()" if "ir_response_bytes r = 0" for r
    using that by (simp add: finish_checks_def abort_finish_def default_finish_def List.member_iff opt_all_def
        metric_def)
  have "\<exists>d'. journal_finish demo_platform (demo_draw 6 ''v'') ''i1''
      (abort_finish (start_record demo_start ''https://a'' ''5'')) demo_ledger = Inr (True, d')"
    unfolding journal_finish_def
    by (subst checks)
      (simp_all add: demo_ledger_def demo_journal_def t_find_def terminal_def List.member_iff
        finish_record_def merge_finish_def abort_finish_def default_finish_def start_record_def demo_start_def
        opt_or_def journal_timestamp_def Let_def)
  then obtain d' where "journal_finish demo_platform (demo_draw 6 ''v'') ''i1''
      (abort_finish (start_record demo_start ''https://a'' ''5'')) demo_ledger = Inr (True, d')" by blast
  then show ?thesis
    by (simp add: journal_recover_interrupted_def demo_clock demo_ledger_prune rows demo_journal_def)
      (simp add: start_record_def demo_start_def)
qed

theorem recovery_settles_interactions_witness:
  "case journal_recover_interrupted demo_platform (demo_draw 6 ''v'') (run_ops (journal_step demo_platform)
       [(demo_draw 5 ''w'', StartInteraction demo_start)] (empty_db ''i'' demo_spec)) of
     (Inr n, d') \<Rightarrow> n = 1 \<and> list_all (\<lambda>row. \<not> interrupted row) (d_journal d')
   | (Inl _, _) \<Rightarrow> False"
proof -
  have run: "run_ops (journal_step demo_platform) [(demo_draw 5 ''w'', StartInteraction demo_start)]
      (empty_db ''i'' demo_spec) = demo_ledger" by (simp add: demo_started del: journal_step.simps)
  obtain d' where r: "journal_recover_interrupted demo_platform (demo_draw 6 ''v'') demo_ledger = (Inr 1, d')"
    using demo_recover by blast
  from recovery_settles_interactions [OF r [folded run]] r run show ?thesis by (simp add: list_all_iff)
qed

text \<open>
  The usage summary adds up: its totals (interactions, the sum over the five statuses, bytes
  sent and received, known input and output tokens) are the sums over the records of the
  period, and so are the sums over its models, with nothing lost to overflow.
\<close>

theorem usage_adds_up:
  assumes "journal_usage P now period d = (Inr s, d')"
  shows "\<exists>rs. map jr_record (usage_rows (us_from s) (us_until s) d') = map Some rs
     \<and> usage_vec (us_totals s) = sum_measures (map record_measures rs)
     \<and> sum_measures (map (\<lambda>m. usage_vec (mu_totals m)) (us_models s)) = sum_measures (map record_measures rs)"
proof -
  let ?c = "\<lparr>cm_interactions = 0, cm_context = 0, cm_source = 0, cm_reduction = 0, cm_percent = None\<rparr>"
  from assms obtain d0 fr t ms c where
    "d' = d0" and rec: "add_records (usage_rows fr (rfc3339_ms P now) d0) (no_usage, [], ?c) = Inr (t, ms, c)"
    and s: "us_from s = fr" "us_until s = rfc3339_ms P now" "us_totals s = t" "us_models s = ms"
    unfolding journal_usage_def Let_def then_stmt_Inr
    by (auto simp: rbind_eq_Inr)
  from add_records_measures [OF rec] obtain rs where
    rs: "map jr_record (usage_rows fr (rfc3339_ms P now) d0) = map Some rs"
    and sums: "\<forall>i < 6. usage_vec t ! i = usage_vec no_usage ! i + sum_list (map (\<lambda>r. record_measures r ! i) rs)
     \<and> sum_list (map (\<lambda>m. usage_vec (mu_totals m) ! i) ms)
        = sum_list (map (\<lambda>m. usage_vec (mu_totals m) ! i) ([] :: model_usage list))
          + sum_list (map (\<lambda>r. record_measures r ! i) rs)"
    by (elim exE conjE) (rule that)
  have len: "length (sum_measures xs) = 6" for xs by (simp add: sum_measures_def)
  have "usage_vec t = sum_measures (map record_measures rs)"
  proof (rule list_eq_6)
    fix i :: nat
    assume i: "i < 6"
    with sums no_usage_measures [OF i] have "usage_vec t ! i = sum_list (map (\<lambda>r. record_measures r ! i) rs)" by simp
    then show "usage_vec t ! i = sum_measures (map record_measures rs) ! i"
      by (simp only: sum_measures_nth [OF i] map_map comp_def)
  qed (simp_all add: len)
  moreover have "sum_measures (map (\<lambda>m. usage_vec (mu_totals m)) ms) = sum_measures (map record_measures rs)"
  proof (rule list_eq_6)
    fix i :: nat
    assume i: "i < 6"
    with sums have "sum_list (map (\<lambda>m. usage_vec (mu_totals m) ! i) ms) = sum_list (map (\<lambda>r. record_measures r ! i) rs)"
      by simp
    then show "sum_measures (map (\<lambda>m. usage_vec (mu_totals m)) ms) ! i = sum_measures (map record_measures rs) ! i"
      by (simp only: sum_measures_nth [OF i] map_map comp_def)
  qed (simp_all add: len)
  ultimately show ?thesis using rs s \<open>d' = d0\<close> by auto
qed

lemma demo_now: "rfc3339_ms demo_platform 6 = ''6''"
  by (simp add: demo_platform_def show_digit demo_chars)

lemma demo_usage: "\<exists>s. journal_usage demo_platform 6 ''all'' demo_ledger = (Inr s, demo_ledger)"
proof -
  have rows: "usage_rows None ''6'' demo_ledger = d_journal demo_journal"
    by (simp add: usage_rows_def demo_ledger_def demo_journal_def opt_all_def)
  note now = demo_now
  have "\<exists>x. add_records (d_journal demo_journal) (no_usage, [],
      \<lparr>cm_interactions = 0, cm_context = 0, cm_source = 0, cm_reduction = 0, cm_percent = None\<rparr>) = Inr x"
    by (simp add: demo_journal_def start_record_def demo_start_def add_usage_def add_status_def add_tokens_def
        add_observation_def add_cost_def add_comparison_def add_u64_def checked_add_def u64_max_def no_usage_def
        ok_or_def Let_def)
  then show ?thesis
    by (auto simp: journal_usage_def demo_ledger_prune period_start_def now rows Let_def)
qed

theorem usage_adds_up_witness:
  "case journal_usage demo_platform 6 ''all'' demo_ledger of
     (Inr s, _) \<Rightarrow> usage_vec (us_totals s) = [1, 1, 10, 0, 0, 0]
   | (Inl _, _) \<Rightarrow> False"
proof -
  obtain s where r: "journal_usage demo_platform 6 ''all'' demo_ledger = (Inr s, demo_ledger)"
    using demo_usage by blast
  have "us_from s = None" "us_until s = ''6''"
    using r by (auto simp: journal_usage_def demo_ledger_prune period_start_def demo_now Let_def rbind_eq_Inr)
  then have rows: "usage_rows (us_from s) (us_until s) demo_ledger = d_journal demo_journal"
    by (simp add: usage_rows_def demo_ledger_def demo_journal_def opt_all_def)
  from usage_adds_up [OF r] have "usage_vec (us_totals s)
      = sum_measures [record_measures (start_record demo_start ''https://a'' ''5'')]"
    by (auto simp: rows demo_journal_def)
  then show ?thesis
    by (simp add: r) (simp add: sum_measures_def record_measures_def start_record_def demo_start_def usage_known_def
        upt_rec)
qed

definition rate_or_zero :: "rat option \<Rightarrow> rat" where
  "rate_or_zero x = (case x of None \<Rightarrow> 0 | Some v \<Rightarrow> v)"

lemma validate_rates_Inr:
  assumes "validate_rates ra = Inr ()"
  shows "0 \<le> ra_input ra \<and> 0 \<le> ra_output ra \<and> 0 \<le> rate_or_zero (ra_cached ra) \<and> 0 \<le> rate_or_zero (ra_written ra)"
  using assms
  by (cases "ra_cached ra"; cases "ra_written ra")
    (auto simp: validate_rates_def opt_list_def rbind_eq_Inr ensure_eq_Inr List.map_filter_simps rate_or_zero_def)

text \<open>
  A cost is never invented: an estimate exists only when the rates and all four token
  counts are known and the cached and written tokens are part of the input, it charges each
  token once at its own rate, and with valid rates it is not negative.
\<close>

theorem estimates_are_grounded:
  assumes "estimated_cost r = Some c"
  shows "\<exists>ra inp out cached written. ir_rates r = Some ra \<and> ir_input r = Some inp \<and> ir_output r = Some out
     \<and> ir_cached r = Some cached \<and> ir_written r = Some written \<and> cached + written \<le> inp
     \<and> (cached = 0 \<or> ra_cached ra \<noteq> None) \<and> (written = 0 \<or> ra_written ra \<noteq> None)
     \<and> 1000000 * c = of_nat (inp - (cached + written)) * ra_input ra + of_nat out * ra_output ra
          + of_nat cached * rate_or_zero (ra_cached ra) + of_nat written * rate_or_zero (ra_written ra)
     \<and> (validate_rates ra = Inr () \<longrightarrow> 0 \<le> c)"
proof -
  from assms obtain ra inp out cached written cw u cc wc where k: "ir_rates r = Some ra" "ir_input r = Some inp"
    "ir_output r = Some out" "ir_cached r = Some cached" "ir_written r = Some written"
    and cw: "checked_add cached written = Some cw" and u: "checked_sub inp cw = Some u"
    and cc: "(if cached = 0 then Some 0 else map_option (\<lambda>x. of_nat cached * x) (ra_cached ra)) = Some cc"
    and wc: "(if written = 0 then Some 0 else map_option (\<lambda>x. of_nat written * x) (ra_written ra)) = Some wc"
    and c0: "(of_nat u * ra_input ra + of_nat out * ra_output ra + cc + wc) / 1000000 = c"
    unfolding estimated_cost_def
    by (simp only: bind_eq_Some_conv option.inject) (elim exE conjE, rule that)
  from cw have "cw = cached + written" by (simp add: checked_add_Some)
  with u have le: "cached + written \<le> inp" and "u = inp - (cached + written)"
    by (auto simp: checked_sub_def split: if_splits)
  with c0 have c: "c = (of_nat (inp - (cached + written)) * ra_input ra + of_nat out * ra_output ra + cc + wc) / 1000000"
    by simp
  from cc have cc': "cc = of_nat cached * rate_or_zero (ra_cached ra)" "cached = 0 \<or> ra_cached ra \<noteq> None"
    by (cases "cached = 0"; cases "ra_cached ra"; simp add: rate_or_zero_def)+
  from wc have wc': "wc = of_nat written * rate_or_zero (ra_written ra)" "written = 0 \<or> ra_written ra \<noteq> None"
    by (cases "written = 0"; cases "ra_written ra"; simp add: rate_or_zero_def)+
  have pos: "validate_rates ra = Inr () \<longrightarrow> 0 \<le> c"
    using validate_rates_Inr [of ra] by (auto simp: c cc'(1) wc'(1))
  have "1000000 * c = of_nat (inp - (cached + written)) * ra_input ra + of_nat out * ra_output ra
      + of_nat cached * rate_or_zero (ra_cached ra) + of_nat written * rate_or_zero (ra_written ra)"
    by (simp only: c cc'(1) wc'(1)) simp
  with k le cc'(2) wc'(2) pos show ?thesis
    by (intro exI [of _ ra] exI [of _ inp] exI [of _ out] exI [of _ cached] exI [of _ written] conjI)
qed

theorem estimates_are_grounded_witness:
  "\<exists>r c. estimated_cost r = Some c \<and> ir_input r = Some 100
     \<and> (\<exists>ra. ir_rates r = Some ra \<and> (validate_rates ra = Inr () \<longrightarrow> 0 \<le> c))"
proof -
  let ?r = "merge_finish demo_finish (start_record demo_start ''https://a'' ''5'')"
  have c: "estimated_cost ?r = Some (230 / 1000000)"
    by (simp add: estimated_cost_def merge_finish_def demo_finish_def default_finish_def opt_or_def
        start_record_def demo_start_def checked_add_def checked_sub_def u64_max_def)
  have "ir_input ?r = Some 100"
    by (simp add: merge_finish_def demo_finish_def opt_or_def)
  with c estimates_are_grounded [OF c] show ?thesis by blast
qed

end
