(* ===== verification/Knock.thy ===== *)
theory Knock
  imports Prelude
begin

text \<open>
  \<open>crates/omni-vpn/src/knock.rs\<close> and \<open>lib.rs\<close>: authenticated admission requests, the bounded
  table against replays and the acknowledgements. HMAC-SHA256, base64 and the JSON encoding of
  the messages are third-party code: the fields of the record \<open>crypto\<close>.
\<close>

section \<open>Messages\<close>

datatype action = Open | PrepareRotation | CommitRotation

record knock_request =
  kr_version :: nat
  kr_client :: string
  kr_issued :: nat
  kr_nonce :: string
  kr_action :: action
  kr_epoch :: nat
  kr_key :: "string option"

record signed_request =
  sr_request :: knock_request
  sr_mac :: string

record ack =
  ak_client :: string
  ak_nonce :: string
  ak_epoch :: nat
  ak_key :: "string option"
  ak_accepted :: nat
  ak_expires :: nat

record signed_ack =
  sa_ack :: ack
  sa_mac :: string

text \<open>\<open>hmac secret bytes\<close>, base64 with the standard alphabet, \<open>serde_json::to_vec\<close> of a request
  and of an acknowledgement, \<open>serde_json::from_slice::<SignedRequest>\<close>.\<close>

record crypto =
  hmac :: "string \<Rightarrow> string \<Rightarrow> string"
  b64_encode :: "string \<Rightarrow> string"
  b64_decode :: "string \<Rightarrow> string option"
  request_bytes :: "knock_request \<Rightarrow> string"
  ack_bytes :: "ack \<Rightarrow> string"
  signed_bytes :: "signed_request \<Rightarrow> string"
  parse_signed :: "string \<Rightarrow> signed_request option"

definition admission_ttl :: nat where "admission_ttl = 120"

definition clock_skew :: nat where "clock_skew = 30"

definition max_knock_bytes :: nat where "max_knock_bytes = 2048"

definition max_nonces :: nat where "max_nonces = 4096"

definition knock_domain :: string where "knock_domain = ''OMNI-KNOCK-v1'' @ [CHR 0x00]"

definition ack_domain :: string where "ack_domain = ''OMNI-KNOCK-ACK-v1'' @ [CHR 0x00]"

text \<open>\<open>decode_key\<close>: 32 bytes in base64, white space around them ignored.\<close>

definition decode_key :: "crypto \<Rightarrow> string \<Rightarrow> string res" where
  "decode_key K value =
     rbind (ok_or (b64_decode K (trim value)) (Decode ''base64'')) (\<lambda>bytes.
     rbind (ensure (length bytes = 32) ''key must contain 32 bytes'') (\<lambda>_. Inr bytes))"

definition mac_for :: "crypto \<Rightarrow> string \<Rightarrow> string \<Rightarrow> string \<Rightarrow> string" where
  "mac_for K secret domain bytes = b64_encode K (hmac K secret (domain @ bytes))"

definition verify_mac :: "crypto \<Rightarrow> string \<Rightarrow> string \<Rightarrow> string \<Rightarrow> string \<Rightarrow> unit res" where
  "verify_mac K secret domain bytes encoded =
     rbind (ok_or (b64_decode K encoded) (Decode ''base64'')) (\<lambda>mac.
     ensure (hmac K secret (domain @ bytes) = mac) ''invalid authentication'')"

text \<open>\<open>nonce\<close> are the 16 random bytes.\<close>

definition new_request ::
    "crypto \<Rightarrow> string \<Rightarrow> string \<Rightarrow> string \<Rightarrow> nat \<Rightarrow> action \<Rightarrow> nat \<Rightarrow> string option \<Rightarrow> signed_request" where
  "new_request K nonce client secret now action epoch key =
     (let r = \<lparr>kr_version = 1, kr_client = client, kr_issued = now, kr_nonce = b64_encode K nonce,
               kr_action = action, kr_epoch = epoch, kr_key = key\<rparr>
      in \<lparr>sr_request = r, sr_mac = mac_for K secret knock_domain (request_bytes K r)\<rparr>)"

section \<open>Acknowledgements\<close>

definition issue_ack :: "crypto \<Rightarrow> knock_request \<Rightarrow> string \<Rightarrow> nat \<Rightarrow> signed_ack" where
  "issue_ack K r secret now =
     (let a = \<lparr>ak_client = kr_client r, ak_nonce = kr_nonce r, ak_epoch = kr_epoch r, ak_key = kr_key r,
               ak_accepted = now, ak_expires = saturating_add now admission_ttl\<rparr>
      in \<lparr>sa_ack = a, sa_mac = mac_for K secret ack_domain (ack_bytes K a)\<rparr>)"

definition verify_ack :: "crypto \<Rightarrow> signed_ack \<Rightarrow> knock_request \<Rightarrow> string \<Rightarrow> nat \<Rightarrow> unit res" where
  "verify_ack K s r secret now =
     (let a = sa_ack s in
      rbind (verify_mac K secret ack_domain (ack_bytes K a) (sa_mac s)) (\<lambda>_.
      rbind (ensure (ak_client a = kr_client r \<and> ak_nonce a = kr_nonce r \<and> ak_epoch a = kr_epoch r
          \<and> ak_key a = kr_key r) ''acknowledgement mismatch'') (\<lambda>_.
      ensure (abs_diff (ak_accepted a) now \<le> clock_skew \<and> now < ak_expires a
          \<and> ak_expires a - ak_accepted a \<le> admission_ttl) ''expired acknowledgement'')))"

section \<open>The verifier\<close>

text \<open>The secrets by client, and the table of accepted nonces with their expiry (a hash map: one
  entry per client and nonce).\<close>

type_synonym nonce_table = "((string \<times> string) \<times> nat) list"

record verifier =
  vf_secrets :: "(string \<times> string) list"
  vf_nonces :: nonce_table

definition new_verifier :: verifier where
  "new_verifier = \<lparr>vf_secrets = [], vf_nonces = []\<rparr>"

definition valid_client_id :: "string \<Rightarrow> bool" where
  "valid_client_id i \<longleftrightarrow> i \<noteq> [] \<and> length i \<le> 64
     \<and> list_all (\<lambda>b. ascii_alphanumeric b \<or> b = CHR ''-'' \<or> b = CHR ''_'') i"

definition enroll :: "string \<Rightarrow> string \<Rightarrow> verifier \<Rightarrow> verifier res" where
  "enroll client secret v =
     rbind (ensure (valid_client_id client) ''invalid client id'') (\<lambda>_.
     rbind (ensure (map_of (vf_secrets v) client = None) ''client already enrolled'') (\<lambda>_.
     Inr (v\<lparr>vf_secrets := (client, secret) # vf_secrets v\<rparr>)))"

definition put_nonce :: "string \<times> string \<Rightarrow> nat \<Rightarrow> nonce_table \<Rightarrow> nonce_table" where
  "put_nonce k e t = (k, e) # filter (\<lambda>x. fst x \<noteq> k) t"

text \<open>Restoring keeps the entries that have not expired, the first of each key.\<close>

fun restore_entries ::
    "nat \<Rightarrow> (string \<times> string) list \<Rightarrow> (string \<times> string \<times> nat) list \<Rightarrow> nonce_table \<Rightarrow> nonce_table" where
  "restore_entries now ids [] t = t"
| "restore_entries now ids ((client, nonce, expiry) # es) t =
     (if expiry > now \<and> (client, nonce) \<notin> set ids
      then restore_entries now ((client, nonce) # ids) es (put_nonce (client, nonce) expiry t)
      else restore_entries now ids es t)"

definition restore_nonces :: "(string \<times> string \<times> nat) list \<Rightarrow> nat \<Rightarrow> verifier \<Rightarrow> verifier res" where
  "restore_nonces entries now v =
     rbind (ensure (length entries \<le> max_nonces) ''nonce store too large'') (\<lambda>_.
     Inr (v\<lparr>vf_nonces := restore_entries now [] entries (vf_nonces v)\<rparr>))"

definition nonce_entries :: "verifier \<Rightarrow> (string \<times> string \<times> nat) list" where
  "nonce_entries v = map (\<lambda>((i, n), e). (i, n, e)) (vf_nonces v)"

text \<open>The checks that read only the message, the clock and the secrets.\<close>

definition check_knock :: "crypto \<Rightarrow> string \<Rightarrow> nat \<Rightarrow> verifier \<Rightarrow> signed_request res" where
  "check_knock K bytes now v =
     rbind (ensure (length bytes \<le> max_knock_bytes) ''knock exceeds limit'') (\<lambda>_.
     rbind (ok_or (parse_signed K bytes) (Decode ''knock'')) (\<lambda>signed.
     let r = sr_request signed in
     rbind (ensure (kr_version r = 1) ''unsupported knock version'') (\<lambda>_.
     rbind (ok_or (map_of (vf_secrets v) (kr_client r)) (Bail ''unknown client'')) (\<lambda>secret.
     rbind (verify_mac K secret knock_domain (request_bytes K r) (sr_mac signed)) (\<lambda>_.
     rbind (ensure (abs_diff (kr_issued r) now \<le> clock_skew) ''stale knock'') (\<lambda>_.
     rbind (ok_or (b64_decode K (kr_nonce r)) (Decode ''base64'')) (\<lambda>nonce.
     rbind (ensure (length nonce = 16) ''invalid nonce'') (\<lambda>_.
     rbind (case kr_key r of None \<Rightarrow> Inr [] | Some key \<Rightarrow> decode_key K key) (\<lambda>_.
     rbind (ensure ((kr_action r = Open \<and> kr_key r = None) \<or> (kr_action r \<noteq> Open \<and> kr_key r \<noteq> None))
       ''invalid action fields'') (\<lambda>_.
     Inr signed))))))))))"

definition nonce_key :: "knock_request \<Rightarrow> string \<times> string" where
  "nonce_key r = (kr_client r, kr_nonce r)"

definition authenticate :: "crypto \<Rightarrow> string \<Rightarrow> nat \<Rightarrow> verifier \<Rightarrow> signed_request res \<times> verifier" where
  "authenticate K bytes now v =
     (case check_knock K bytes now v of
        Inl e \<Rightarrow> (Inl e, v)
      | Inr signed \<Rightarrow>
          (let r = sr_request signed;
               kept = filter (\<lambda>x. snd x > now) (vf_nonces v);
               v1 = v\<lparr>vf_nonces := kept\<rparr>
           in if nonce_key r \<in> fst ` set kept then (Inl (Bail ''replayed knock''), v1)
              else if length kept \<ge> max_nonces then (Inl (Bail ''admission capacity reached''), v1)
              else (Inr signed, v\<lparr>vf_nonces := put_nonce (nonce_key r)
                     (saturating_add (kr_issued r) (clock_skew + 1)) kept\<rparr>)))"

definition acknowledge :: "crypto \<Rightarrow> knock_request \<Rightarrow> nat \<Rightarrow> verifier \<Rightarrow> signed_ack res" where
  "acknowledge K r now v =
     rbind (ok_or (map_of (vf_secrets v) (kr_client r)) (Bail ''unknown client'')) (\<lambda>secret.
     Inr (issue_ack K r secret now))"

section \<open>Guards against replay\<close>

text \<open>
  The contract of a component that accepts messages at times given by a clock that does not go
  back: once a message is accepted its key is blocked, a blocked key stays blocked, and no
  message with a blocked key is accepted. \<open>safe t\<close> delimits the times for which the component
  promises this.
\<close>

locale replay_guard =
  fixes accept :: "'m \<Rightarrow> nat \<Rightarrow> 's \<Rightarrow> 'r option \<times> 's"
    and key_of :: "'r \<Rightarrow> 'k"
    and blocked :: "'k \<Rightarrow> nat \<Rightarrow> 's \<Rightarrow> bool"
    and safe :: "nat \<Rightarrow> bool"
  assumes accepted_is_blocked: "accept m t s = (Some r, s') \<Longrightarrow> safe t \<Longrightarrow> blocked (key_of r) t s'"
    and blocked_is_refused: "blocked k t s \<Longrightarrow> t \<le> t' \<Longrightarrow> accept m t' s = (Some r, s') \<Longrightarrow> key_of r \<noteq> k"
    and blocked_stays: "blocked k t s \<Longrightarrow> t \<le> t' \<Longrightarrow> accept m t' s = (x, s') \<Longrightarrow> blocked k t' s'"
begin

fun accepts :: "('m \<times> nat) list \<Rightarrow> 's \<Rightarrow> 'k list" where
  "accepts [] s = []"
| "accepts ((m, t) # ms) s =
     (case accept m t s of
        (None, s') \<Rightarrow> accepts ms s'
      | (Some r, s') \<Rightarrow> key_of r # accepts ms s')"

lemma blocked_never_accepted:
  "blocked k t s \<Longrightarrow> sorted (t # map snd ms) \<Longrightarrow> k \<notin> set (accepts ms s)"
proof (induction ms arbitrary: s t)
  case (Cons x ms)
  obtain m t' where x: "x = (m, t')" by (cases x)
  obtain r s' where a: "accept m t' s = (r, s')" by (cases "accept m t' s")
  from Cons.prems x have le: "t \<le> t'" and sorted: "sorted (t' # map snd ms)" by auto
  have "blocked k t' s'" by (rule blocked_stays [OF Cons.prems(1) le a])
  from Cons.IH [OF this sorted] have "k \<notin> set (accepts ms s')" .
  with x a blocked_is_refused [OF Cons.prems(1) le] show ?case by (cases r) auto
qed simp

lemma accepted_once:
  "sorted (map snd ms) \<Longrightarrow> \<forall>t \<in> set (map snd ms). safe t \<Longrightarrow> distinct (accepts ms s)"
proof (induction ms arbitrary: s)
  case (Cons x ms)
  obtain m t where x: "x = (m, t)" by (cases x)
  obtain r s' where a: "accept m t s = (r, s')" by (cases "accept m t s")
  from Cons.prems have IH: "distinct (accepts ms s')" by (intro Cons.IH) auto
  show ?case
  proof (cases r)
    case None
    with x a IH show ?thesis by simp
  next
    case (Some y)
    with a Cons.prems x have "blocked (key_of y) t s'" by (auto intro: accepted_is_blocked)
    then have "key_of y \<notin> set (accepts ms s')"
      by (rule blocked_never_accepted) (use Cons.prems x in auto)
    with x a Some IH show ?thesis by simp
  qed
qed simp

end

text \<open>The verifier's \<open>authenticate\<close> as such a component. A request is identified by its client,
  its nonce and the second it was issued.\<close>

definition verifier_accept :: "crypto \<Rightarrow> string \<Rightarrow> nat \<Rightarrow> verifier \<Rightarrow> signed_request option \<times> verifier" where
  "verifier_accept K bytes t v =
     (case authenticate K bytes t v of (Inl _, v') \<Rightarrow> (None, v') | (Inr r, v') \<Rightarrow> (Some r, v'))"

definition request_key :: "signed_request \<Rightarrow> (string \<times> string) \<times> nat" where
  "request_key s = (nonce_key (sr_request s), kr_issued (sr_request s))"

definition nonce_blocked :: "(string \<times> string) \<times> nat \<Rightarrow> nat \<Rightarrow> nonce_table \<Rightarrow> bool" where
  "nonce_blocked k t table \<longleftrightarrow> snd k + clock_skew < t \<or> (fst k, snd k + clock_skew + 1) \<in> set table"

definition clock_ok :: "nat \<Rightarrow> bool" where
  "clock_ok t \<longleftrightarrow> t + 2 * clock_skew + 1 \<le> u64_max"

lemma check_knock_Inr:
  assumes "check_knock K bytes now v = Inr s"
  shows "parse_signed K bytes = Some s \<and> length bytes \<le> max_knock_bytes \<and> kr_version (sr_request s) = 1
     \<and> (\<exists>secret. map_of (vf_secrets v) (kr_client (sr_request s)) = Some secret
          \<and> b64_decode K (sr_mac s) = Some (hmac K secret (knock_domain @ request_bytes K (sr_request s))))
     \<and> abs_diff (kr_issued (sr_request s)) now \<le> clock_skew
     \<and> ((kr_action (sr_request s) = Open) = (kr_key (sr_request s) = None))"
proof -
  have *: "verify_mac K secret dm bs enc = Inr u \<longleftrightarrow> b64_decode K enc = Some (hmac K secret (dm @ bs))"
    for secret dm bs enc u
    by (auto simp: verify_mac_def res_simps)
  show ?thesis
    using assms unfolding check_knock_def Let_def
    by (simp only: rbind_eq_Inr ensure_eq_Inr ok_or_eq_Inr *) (auto split: option.splits)
qed

lemma authenticate_Inr:
  assumes "authenticate K bytes now v = (Inr s, v')"
  shows "check_knock K bytes now v = Inr s
     \<and> nonce_key (sr_request s) \<notin> fst ` set (filter (\<lambda>x. snd x > now) (vf_nonces v))
     \<and> length (filter (\<lambda>x. snd x > now) (vf_nonces v)) < max_nonces
     \<and> v' = v\<lparr>vf_nonces := put_nonce (nonce_key (sr_request s))
          (saturating_add (kr_issued (sr_request s)) (clock_skew + 1))
          (filter (\<lambda>x. snd x > now) (vf_nonces v))\<rparr>"
  using assms
  by (auto simp: authenticate_def Let_def split: sum.splits if_splits)

lemma put_nonce_keeps: "k \<notin> fst ` set t \<Longrightarrow> set t \<subseteq> set (put_nonce k e t)"
  by (force simp: put_nonce_def)

lemma authenticate_nonces:
  assumes "authenticate K bytes now v = (x, v')"
  shows "set (filter (\<lambda>x. snd x > now) (vf_nonces v)) \<subseteq> set (vf_nonces v')"
proof (cases x)
  case (Inr s)
  with assms have i: "authenticate K bytes now v = (Inr s, v')" by simp
  note j = authenticate_Inr [OF i]
  have "vf_nonces v' = put_nonce (nonce_key (sr_request s))
      (saturating_add (kr_issued (sr_request s)) (clock_skew + 1))
      (filter (\<lambda>x. snd x > now) (vf_nonces v))" using j by simp
  with put_nonce_keeps [OF j [THEN conjunct2, THEN conjunct1]] show ?thesis by metis
next
  case (Inl e)
  with assms show ?thesis
    by (auto simp: authenticate_def Let_def split: sum.splits if_splits)
qed

interpretation verifier_guard: replay_guard "verifier_accept K" request_key
    "\<lambda>k t v. nonce_blocked k t (vf_nonces v)" clock_ok for K
proof
  fix m t s r s'
  assume a: "verifier_accept K m t s = (Some r, s')" and ok: "clock_ok t"
  then have au: "authenticate K m t s = (Inr r, s')"
    by (auto simp: verifier_accept_def split: prod.splits sum.splits)
  note i = authenticate_Inr [OF au]
  then have "abs_diff (kr_issued (sr_request r)) t \<le> clock_skew" using check_knock_Inr by blast
  with ok have "saturating_add (kr_issued (sr_request r)) (clock_skew + 1) = kr_issued (sr_request r) + clock_skew + 1"
    by (auto simp: saturating_add_def abs_diff_le clock_ok_def)
  with i show "nonce_blocked (request_key r) t (vf_nonces s')"
    by (simp add: nonce_blocked_def request_key_def put_nonce_def)
next
  fix k t s t' m r s'
  assume b: "nonce_blocked k t (vf_nonces s)" and le: "t \<le> t'" and a: "verifier_accept K m t' s = (Some r, s')"
  then have au: "authenticate K m t' s = (Inr r, s')"
    by (auto simp: verifier_accept_def split: prod.splits sum.splits)
  note i = authenticate_Inr [OF au]
  then have "abs_diff (kr_issued (sr_request r)) t' \<le> clock_skew" using check_knock_Inr by blast
  then have near: "t' \<le> kr_issued (sr_request r) + clock_skew" by (simp add: abs_diff_le)
  show "request_key r \<noteq> k"
  proof
    assume k: "request_key r = k"
    with b le near have "(nonce_key (sr_request r), kr_issued (sr_request r) + clock_skew + 1) \<in> set (vf_nonces s)"
      by (auto simp: nonce_blocked_def request_key_def)
    with near have "(nonce_key (sr_request r), kr_issued (sr_request r) + clock_skew + 1)
        \<in> set (filter (\<lambda>x. snd x > t') (vf_nonces s))" by simp
    then have "nonce_key (sr_request r) \<in> fst ` set (filter (\<lambda>x. snd x > t') (vf_nonces s))"
      by (metis fst_conv imageI)
    with i show False by blast
  qed
next
  fix k t s t' m x s'
  assume b: "nonce_blocked k t (vf_nonces s)" and le: "t \<le> t'" and a: "verifier_accept K m t' s = (x, s')"
  then obtain y where "authenticate K m t' s = (y, s')"
    by (auto simp: verifier_accept_def split: prod.splits sum.splits)
  from authenticate_nonces [OF this] b le show "nonce_blocked k t' (vf_nonces s')"
    by (auto simp: nonce_blocked_def)
qed

section \<open>What the verifier admits\<close>

text \<open>The requests a verifier admits from a sequence of datagrams, each with its arrival time.\<close>

fun admitted :: "crypto \<Rightarrow> (string \<times> nat) list \<Rightarrow> verifier \<Rightarrow> signed_request list" where
  "admitted K [] v = []"
| "admitted K ((bytes, t) # ms) v =
     (case authenticate K bytes t v of
        (Inl _, v') \<Rightarrow> admitted K ms v'
      | (Inr s, v') \<Rightarrow> s # admitted K ms v')"

lemma admitted_accepts: "verifier_guard.accepts K ms v = map request_key (admitted K ms v)"
proof (induction K ms v rule: admitted.induct)
  case (2 K bytes t ms v)
  obtain x v' where a: "authenticate K bytes t v = (x, v')" by (cases "authenticate K bytes t v")
  show ?case
  proof (cases x)
    case (Inl e)
    with a have "verifier_accept K bytes t v = (None, v')" by (simp add: verifier_accept_def)
    with 2(1) [OF a [symmetric] Inl] a Inl show ?thesis by simp
  next
    case (Inr s)
    with a have "verifier_accept K bytes t v = (Some s, v')" by (simp add: verifier_accept_def)
    with 2(2) [OF a [symmetric] Inr] a Inr show ?thesis by simp
  qed
qed simp

fun receive_one :: "crypto \<Rightarrow> string \<times> nat \<Rightarrow> verifier \<Rightarrow> verifier" where
  "receive_one K (bytes, t) v = snd (authenticate K bytes t v)"

definition nonces_ok :: "verifier \<Rightarrow> bool" where
  "nonces_ok v \<longleftrightarrow> length (vf_nonces v) \<le> max_nonces \<and> distinct (map fst (vf_nonces v))"

lemma distinct_filter_keys: "distinct (map fst t) \<Longrightarrow> distinct (map fst (filter P t))"
  by (rule distinct_map_filter)

lemma put_nonce_distinct: "distinct (map fst t) \<Longrightarrow> distinct (map fst (put_nonce k e t))"
  by (auto simp: put_nonce_def distinct_filter_keys)

lemma put_nonce_keys: "fst ` set (put_nonce k e t) \<subseteq> insert k (fst ` set t)"
  by (auto simp: put_nonce_def)

lemma put_nonce_length: "length (put_nonce k e t) \<le> Suc (length t)"
  by (simp add: put_nonce_def)

lemma authenticate_ok: "nonces_ok v \<Longrightarrow> nonces_ok (snd (authenticate K bytes t v))"
proof -
  assume ok: "nonces_ok v"
  let ?kept = "filter (\<lambda>x. snd x > t) (vf_nonces v)"
  obtain x v' where a: "authenticate K bytes t v = (x, v')" by (cases "authenticate K bytes t v")
  have kept: "length ?kept \<le> max_nonces \<and> distinct (map fst ?kept)"
    using ok by (auto simp: nonces_ok_def distinct_filter_keys intro: order_trans [OF length_filter_le])
  show ?thesis
  proof (cases x)
    case (Inr s)
    note i = authenticate_Inr [OF a [unfolded Inr]]
    then have "length ?kept < max_nonces" by blast
    then have "length (put_nonce k e ?kept) \<le> max_nonces" for k e
      using put_nonce_length [of k e ?kept] by linarith
    with i a kept show ?thesis by (simp add: nonces_ok_def put_nonce_distinct)
  next
    case (Inl e)
    with a ok kept show ?thesis
      by (auto simp: authenticate_def Let_def nonces_ok_def split: sum.splits if_splits)
  qed
qed

interpretation nonce_table: op_invariant "receive_one K" nonces_ok for K
proof
  fix s x assume "nonces_ok s"
  then show "nonces_ok (receive_one K x s)" by (cases x) (simp add: authenticate_ok)
qed

lemma restore_entries_ok:
  "distinct (map fst t) \<Longrightarrow> distinct (map fst (restore_entries now ids es t))
     \<and> length (restore_entries now ids es t) \<le> length t + length es"
proof (induction now ids es t rule: restore_entries.induct)
  case (2 now ids client nonce expiry es t)
  show ?case
  proof (cases "expiry > now \<and> (client, nonce) \<notin> set ids")
    case True
    with 2 put_nonce_distinct put_nonce_length [of "(client, nonce)" expiry t] show ?thesis by fastforce
  next
    case False
    with 2 show ?thesis by fastforce
  qed
qed simp

lemma restored_ok: "restore_nonces entries now new_verifier = Inr v \<Longrightarrow> nonces_ok v"
  using restore_entries_ok [of "[]" now "[]" entries]
  by (auto simp: restore_nonces_def new_verifier_def nonces_ok_def res_simps)

text \<open>What a restored table holds: every entry of a table with distinct keys that has not expired.\<close>

lemma restore_entries_keep:
  "distinct (map (\<lambda>(c, n, e). (c, n)) es) \<Longrightarrow> (\<forall>x \<in> set ids. x \<notin> (\<lambda>(c, n, e). (c, n)) ` set es) \<Longrightarrow>
   fst ` set t \<inter> (\<lambda>(c, n, e). (c, n)) ` set es = {} \<Longrightarrow>
   ((c, n, e) \<in> set es \<and> e > now \<longrightarrow> ((c, n), e) \<in> set (restore_entries now ids es t))
   \<and> set t \<subseteq> set (restore_entries now ids es t)"
proof (induction now ids es t rule: restore_entries.induct)
  case (2 now ids client nonce expiry es t)
  let ?k = "\<lambda>(c, n, e :: nat). (c, n)"
  have fresh: "(client, nonce) \<notin> ?k ` set es" using "2.prems"(1) by force
  have notid: "(client, nonce) \<notin> set ids" using "2.prems"(2) by force
  have nott: "(client, nonce) \<notin> fst ` set t" using "2.prems"(3) by auto
  have rest: "distinct (map ?k es)" "\<forall>x \<in> set ids. x \<notin> ?k ` set es" "fst ` set t \<inter> ?k ` set es = {}"
    using "2.prems" by auto
  show ?case
  proof (cases "expiry > now")
    case True
    then have go: "expiry > now \<and> (client, nonce) \<notin> set ids" using notid by simp
    have "\<forall>x \<in> set ((client, nonce) # ids). x \<notin> ?k ` set es" using rest(2) fresh by auto
    moreover have "fst ` set (put_nonce (client, nonce) expiry t) \<inter> ?k ` set es = {}"
    proof -
      have "fst ` set (put_nonce (client, nonce) expiry t) \<inter> ?k ` set es
          \<subseteq> insert (client, nonce) (fst ` set t) \<inter> ?k ` set es"
        by (rule Int_mono [OF put_nonce_keys subset_refl])
      also have "\<dots> = {}" by (simp only: Int_insert_left_if0 [OF fresh] rest(3))
      finally show ?thesis by simp
    qed
    ultimately have IH: "((c, n, e) \<in> set es \<and> e > now \<longrightarrow>
          ((c, n), e) \<in> set (restore_entries now ((client, nonce) # ids) es (put_nonce (client, nonce) expiry t)))
        \<and> set (put_nonce (client, nonce) expiry t)
           \<subseteq> set (restore_entries now ((client, nonce) # ids) es (put_nonce (client, nonce) expiry t))"
      using "2.IH"(1) [OF go rest(1)] by blast
    have head: "((client, nonce), expiry) \<in> set (put_nonce (client, nonce) expiry t)"
      by (simp add: put_nonce_def)
    show ?thesis using IH go head put_nonce_keeps [OF nott, of expiry] by auto
  next
    case False
    then show ?thesis using "2.IH"(2) [OF _ rest] by auto
  qed
qed simp

section \<open>Properties\<close>

text \<open>A verifier with one enrolled client and an instance of the primitives for it, at second 1000.\<close>

definition demo_signed :: signed_request where
  "demo_signed = \<lparr>
     sr_request = \<lparr>kr_version = 1, kr_client = ''laptop'', kr_issued = 1000, kr_nonce = ''0123456789abcdef'',
       kr_action = Open, kr_epoch = 0, kr_key = None\<rparr>,
     sr_mac = ''secret'' @ knock_domain @ ''laptop''\<rparr>"

definition demo_crypto :: crypto where
  "demo_crypto = \<lparr>hmac = (\<lambda>secret bytes. secret @ bytes), b64_encode = (\<lambda>x. x), b64_decode = Some,
     request_bytes = kr_client, ack_bytes = ak_client,
     signed_bytes = (\<lambda>_. ''knock''),
     parse_signed = (\<lambda>bytes. if bytes = ''knock'' then Some demo_signed else None)\<rparr>"

definition demo_verifier :: verifier where
  "demo_verifier = \<lparr>vf_secrets = [(''laptop'', ''secret'')], vf_nonces = []\<rparr>"

lemmas demo_knock =
  demo_signed_def demo_crypto_def demo_verifier_def check_knock_def verify_mac_def new_request_def
  mac_for_def abs_diff_def clock_skew_def max_knock_bytes_def Let_def

text \<open>C21: Whatever datagrams reach the verifier, in the order of a clock that does not go back, it
  admits no two requests with the same client, nonce and time of issue. (Near the end of the
  64-bit range the expiry saturates; the clock is at least 61 seconds away from it.)\<close>

lemma knock_never_replayed:
  "sorted (map snd ms) \<Longrightarrow> \<forall>t \<in> set (map snd ms). clock_ok t \<Longrightarrow>
   distinct (map request_key (admitted K ms v))"
  using verifier_guard.accepted_once [of ms K v] by (simp only: admitted_accepts)

lemma knock_never_replayed_witness:
  "admitted demo_crypto [(''knock'', 1000), (''knock'', 1010), (''knock'', 1100)] demo_verifier = [demo_signed]
   \<and> distinct (map request_key
        (admitted demo_crypto [(''knock'', 1000), (''knock'', 1010), (''knock'', 1100)] demo_verifier))"
proof
  show "admitted demo_crypto [(''knock'', 1000), (''knock'', 1010), (''knock'', 1100)] demo_verifier = [demo_signed]"
    by (simp add: authenticate_def demo_knock nonce_key_def put_nonce_def saturating_add_def u64_max_def
        max_nonces_def)
  show "distinct (map request_key
        (admitted demo_crypto [(''knock'', 1000), (''knock'', 1010), (''knock'', 1100)] demo_verifier))"
    by (rule knock_never_replayed) (simp_all add: clock_ok_def clock_skew_def u64_max_def)
qed

text \<open>The protection survives a restart. A request admitted before the table was written stays
  refused by the verifier that the table was restored into, at any later time, when its stored
  entries fit the bound.\<close>

lemma replay_protection_survives_restart:
  assumes "nonces_ok v" and "authenticate K bytes t v = (Inr s, v1)" and "clock_ok t"
    and "restore_nonces (nonce_entries v1) t' \<lparr>vf_secrets = secrets, vf_nonces = []\<rparr> = Inr v2"
    and "sorted (t # t' # map snd ms)"
  shows "request_key s \<notin> set (map request_key (admitted K ms v2))"
proof -
  obtain k where k: "k = request_key s" by simp
  have acc: "verifier_accept K bytes t v = (Some s, v1)" using assms(2) by (simp add: verifier_accept_def)
  have blocked: "nonce_blocked k t (vf_nonces v1)"
    unfolding k by (rule verifier_guard.accepted_is_blocked [OF acc assms(3)])
  have "nonces_ok v1" using authenticate_ok [OF assms(1), of K bytes t] assms(2) by simp
  then have "distinct (map (\<lambda>(c, n, e). (c, n)) (nonce_entries v1))"
    by (simp add: nonces_ok_def nonce_entries_def comp_def case_prod_beta)
  from restore_entries_keep [OF this, of "[]" "[]" _ _ _ t']
  have keep: "((c, n), e) \<in> set (vf_nonces v1) \<Longrightarrow> e > t' \<Longrightarrow> ((c, n), e) \<in> set (vf_nonces v2)" for c n e
    using assms(4) by (force simp: restore_nonces_def nonce_entries_def res_simps)
  have "nonce_blocked k t' (vf_nonces v2)"
    using blocked assms(5) keep [of "fst (fst k)" "snd (fst k)" "snd k + clock_skew + 1"]
    by (cases "snd k + clock_skew < t'") (auto simp: nonce_blocked_def)
  then have "k \<notin> set (verifier_guard.accepts K ms v2)"
    by (rule verifier_guard.blocked_never_accepted) (use assms(5) in auto)
  then show ?thesis by (simp only: admitted_accepts k not_False_eq_True)
qed

lemma replay_protection_survives_restart_witness:
  "let v1 = snd (authenticate demo_crypto ''knock'' 1000 demo_verifier) in
   case restore_nonces (nonce_entries v1) 1005 \<lparr>vf_secrets = vf_secrets v1, vf_nonces = []\<rparr> of
     Inl _ \<Rightarrow> False
   | Inr v2 \<Rightarrow> request_key demo_signed \<notin> set (map request_key (admitted demo_crypto [(''knock'', 1006)] v2))"
proof -
  define v1 where "v1 = snd (authenticate demo_crypto ''knock'' 1000 demo_verifier)"
  have ok: "nonces_ok demo_verifier" by (simp add: nonces_ok_def demo_verifier_def)
  have a: "authenticate demo_crypto ''knock'' 1000 demo_verifier = (Inr demo_signed, v1)"
    by (simp add: v1_def authenticate_def demo_knock max_nonces_def)
  have "length (nonce_entries v1) \<le> max_nonces"
    by (simp add: v1_def authenticate_def demo_knock max_nonces_def nonce_entries_def put_nonce_def)
  then obtain v2 where r: "restore_nonces (nonce_entries v1) 1005 \<lparr>vf_secrets = vf_secrets v1, vf_nonces = []\<rparr> = Inr v2"
    by (simp add: restore_nonces_def ensure_def)
  have c: "clock_ok 1000" by (simp add: clock_ok_def clock_skew_def u64_max_def)
  show ?thesis
    using replay_protection_survives_restart [OF ok a c r, of "[(''knock'', 1006)]"] r
    by (simp add: v1_def)
qed

text \<open>From the table a server restores at startup on, whatever arrives, the table keeps at most
  4096 entries, one for each client and nonce.\<close>

lemma nonce_table_is_bounded:
  assumes "restore_nonces entries now \<lparr>vf_secrets = secrets, vf_nonces = []\<rparr> = Inr v"
  shows "length (vf_nonces (run_ops (receive_one K) ms v)) \<le> 4096
     \<and> distinct (map fst (vf_nonces (run_ops (receive_one K) ms v)))"
proof -
  have "nonces_ok v"
    using assms restore_entries_ok [of "[]" now "[]" entries]
    by (auto simp: restore_nonces_def nonces_ok_def res_simps)
  then have "nonces_ok (run_ops (receive_one K) ms v)" by (rule nonce_table.run_inv)
  then show ?thesis by (simp add: nonces_ok_def max_nonces_def)
qed

lemma nonce_table_is_bounded_witness:
  "length (vf_nonces (run_ops (receive_one demo_crypto) [(''knock'', 1000), (''junk'', 1001)] demo_verifier)) \<le> 4096
   \<and> distinct (map fst (vf_nonces (run_ops (receive_one demo_crypto) [(''knock'', 1000), (''junk'', 1001)] demo_verifier)))"
  by (rule nonce_table_is_bounded [of "[]" 900 "[(''laptop'', ''secret'')]"])
    (simp add: restore_nonces_def demo_verifier_def ensure_def)

text \<open>An admitted datagram holds a request of an enrolled client with a valid code under this
  client's secret, issued within 30 seconds, with a key exactly when it is about a rotation, whose
  nonce is recorded; a refused datagram adds nothing to the table.\<close>

lemma admission_is_authenticated:
  "case authenticate K bytes now v of
     (Inl _, v') \<Rightarrow> set (vf_nonces v') \<subseteq> set (vf_nonces v) \<and> vf_secrets v' = vf_secrets v
   | (Inr s, v') \<Rightarrow>
       (let r = sr_request s in
        parse_signed K bytes = Some s
        \<and> (case map_of (vf_secrets v) (kr_client r) of
             None \<Rightarrow> False
           | Some secret \<Rightarrow> b64_decode K (sr_mac s) = Some (hmac K secret (knock_domain @ request_bytes K r)))
        \<and> abs_diff (kr_issued r) now \<le> 30 \<and> ((kr_action r = Open) = (kr_key r = None))
        \<and> nonce_key r \<in> fst ` set (vf_nonces v') \<and> vf_secrets v' = vf_secrets v)"
proof -
  obtain x v' where a: "authenticate K bytes now v = (x, v')" by (cases "authenticate K bytes now v")
  show ?thesis
  proof (cases x)
    case (Inl e)
    with a show ?thesis by (auto simp: authenticate_def Let_def split: sum.splits if_splits)
  next
    case (Inr s)
    note i = authenticate_Inr [OF a [unfolded Inr]]
    from i check_knock_Inr have c: "parse_signed K bytes = Some s"
      "\<exists>secret. map_of (vf_secrets v) (kr_client (sr_request s)) = Some secret
          \<and> b64_decode K (sr_mac s) = Some (hmac K secret (knock_domain @ request_bytes K (sr_request s)))"
      "abs_diff (kr_issued (sr_request s)) now \<le> clock_skew"
      "(kr_action (sr_request s) = Open) = (kr_key (sr_request s) = None)" by blast+
    have "nonce_key (sr_request s) \<in> fst ` set (vf_nonces v')" and "vf_secrets v' = vf_secrets v"
      using i by (simp_all add: put_nonce_def)
    with a Inr c show ?thesis by (auto simp: Let_def clock_skew_def)
  qed
qed

text \<open>C34: What an enrolled client signs is admitted: a new request of 16 random bytes, within the
  clock skew, with a key of 32 bytes exactly when it is about a rotation, is authenticated as the
  request that was made, while its nonce is new and the table has room. Base64 and JSON decode what
  they encode.\<close>

lemma genuine_knock_is_admitted:
  assumes "\<forall>x. b64_decode K (b64_encode K x) = Some x"
    and "s = new_request K nonce client secret issued action epoch key"
    and "parse_signed K (signed_bytes K s) = Some s" and "length (signed_bytes K s) \<le> max_knock_bytes"
    and "length nonce = 16" and "map_of (vf_secrets v) client = Some secret"
    and "abs_diff issued now \<le> clock_skew"
    and "(action = Open) = (key = None)" and "\<forall>x. key = Some x \<longrightarrow> is_ok (decode_key K x)"
    and "(client, b64_encode K nonce) \<notin> fst ` set (vf_nonces v)" and "length (vf_nonces v) < max_nonces"
  shows "fst (authenticate K (signed_bytes K s) now v) = Inr s"
proof -
  have req: "sr_request s = \<lparr>kr_version = 1, kr_client = client, kr_issued = issued, kr_nonce = b64_encode K nonce,
      kr_action = action, kr_epoch = epoch, kr_key = key\<rparr>"
    and mac: "sr_mac s = b64_encode K (hmac K secret (knock_domain @ request_bytes K (sr_request s)))"
    using assms(2) by (simp_all add: new_request_def Let_def mac_for_def)
  have key: "(case key of None \<Rightarrow> Inr [] | Some k \<Rightarrow> decode_key K k) = Inr (case key of None \<Rightarrow> []
      | Some k \<Rightarrow> case decode_key K k of Inr y \<Rightarrow> y | Inl _ \<Rightarrow> [])"
    using assms(9) by (cases key) (auto split: sum.splits)
  have "check_knock K (signed_bytes K s) now v = Inr s"
    using assms(1,3-8) by (simp add: check_knock_def Let_def verify_mac_def mac req key ensure_def)
      (cases action; simp)
  moreover have "nonce_key (sr_request s) \<notin> fst ` set (filter (\<lambda>x. snd x > now) (vf_nonces v))"
    using assms(10) by (auto simp: nonce_key_def req)
  moreover have "length (filter (\<lambda>x. snd x > now) (vf_nonces v)) < max_nonces"
    using assms(11) by (rule le_less_trans [OF length_filter_le])
  ultimately show ?thesis by (simp add: authenticate_def Let_def)
qed

lemma genuine_knock_is_admitted_witness:
  "fst (authenticate demo_crypto (signed_bytes demo_crypto demo_signed) 1010 demo_verifier) = Inr demo_signed"
proof (rule genuine_knock_is_admitted)
  show "demo_signed = new_request demo_crypto ''0123456789abcdef'' ''laptop'' ''secret'' 1000 Open 0 None"
    by (simp add: demo_knock)
qed (simp_all add: demo_knock max_nonces_def)

text \<open>An acknowledgement is good for one request and a short time: under the secret it was
  issued with, a client accepts it for a request exactly when client, nonce, epoch and key agree and
  its clock is within 30 seconds of the server's. Base64 decodes what it encodes.\<close>

lemma acknowledgement_matches_its_request:
  assumes "\<forall>x. b64_decode K (b64_encode K x) = Some x" and "t + admission_ttl \<le> u64_max"
  shows "is_ok (verify_ack K (issue_ack K r secret t) r' secret now) \<longleftrightarrow>
     kr_client r = kr_client r' \<and> kr_nonce r = kr_nonce r' \<and> kr_epoch r = kr_epoch r' \<and> kr_key r = kr_key r'
     \<and> abs_diff t now \<le> 30"
  using assms
  by (auto simp: verify_ack_def issue_ack_def Let_def verify_mac_def mac_for_def ensure_def saturating_add_def
      clock_skew_def admission_ttl_def abs_diff_le)

lemma acknowledgement_matches_its_request_witness:
  "is_ok (verify_ack demo_crypto (issue_ack demo_crypto (sr_request demo_signed) ''secret'' 1000)
     (sr_request demo_signed) ''secret'' 1020)"
proof -
  have "is_ok (verify_ack demo_crypto (issue_ack demo_crypto r secret 1000) r' secret now) \<longleftrightarrow>
     kr_client r = kr_client r' \<and> kr_nonce r = kr_nonce r' \<and> kr_epoch r = kr_epoch r' \<and> kr_key r = kr_key r'
     \<and> abs_diff 1000 now \<le> 30" for r r' secret now
    by (rule acknowledgement_matches_its_request) (simp_all add: demo_crypto_def admission_ttl_def u64_max_def)
  then show ?thesis by (simp add: abs_diff_def)
qed

end
