(* ===== verification/Rotation.thy ===== *)
theory Rotation
  imports Prelude
begin

text \<open>
  \<open>crates/omni-vpn/src/rotation.rs\<close>: the rotation of a client's static identity. A key pair is
  drawn from the operating system and its public half computed by x25519 (\<open>public_of\<close>, third-party
  code); the random bytes are an argument of the operations that draw them. Times are seconds on
  64 bits.
\<close>

section \<open>State and operations\<close>

definition rotation_seconds :: nat where "rotation_seconds = 1800"

definition overlap_seconds :: nat where "overlap_seconds = 30"

record key_epoch =
  ke_epoch :: nat
  ke_private :: string
  ke_public :: string

definition fresh_key :: "(string \<Rightarrow> string) \<Rightarrow> string \<Rightarrow> nat \<Rightarrow> key_epoch" where
  "fresh_key public_of priv epoch =
     \<lparr>ke_epoch = epoch, ke_private = priv, ke_public = public_of priv\<rparr>"

record rotation =
  ro_active :: key_epoch
  ro_pending :: "key_epoch option"
  ro_retired :: "(key_epoch \<times> nat) option"
  ro_next :: nat
  ro_interval :: nat

definition rotation_with_interval :: "(string \<Rightarrow> string) \<Rightarrow> string \<Rightarrow> nat \<Rightarrow> nat \<Rightarrow> rotation" where
  "rotation_with_interval public_of priv now interval =
     \<lparr>ro_active = fresh_key public_of priv 0, ro_pending = None, ro_retired = None,
      ro_next = saturating_add now (max interval 1), ro_interval = max interval 1\<rparr>"

definition new_rotation :: "(string \<Rightarrow> string) \<Rightarrow> string \<Rightarrow> nat \<Rightarrow> rotation" where
  "new_rotation public_of priv now = rotation_with_interval public_of priv now rotation_seconds"

definition rotation_due :: "nat \<Rightarrow> rotation \<Rightarrow> bool" where
  "rotation_due now r \<longleftrightarrow> now \<ge> ro_next r \<and> ro_pending r = None"

definition rotation_expire :: "nat \<Rightarrow> rotation \<Rightarrow> rotation" where
  "rotation_expire now r =
     (case ro_retired r of
        Some (k, expiry) \<Rightarrow> if now \<ge> expiry then r\<lparr>ro_retired := None\<rparr> else r
      | None \<Rightarrow> r)"

text \<open>The expiry of the overlap is kept when the preparation itself fails.\<close>

definition rotation_prepare ::
    "(string \<Rightarrow> string) \<Rightarrow> string \<Rightarrow> nat \<Rightarrow> rotation \<Rightarrow> key_epoch res \<times> rotation" where
  "rotation_prepare public_of priv now r0 =
     (let r = rotation_expire now r0 in
      case rbind (ensure (rotation_due now r) ''rotation not due or already pending'') (\<lambda>_.
           rbind (ensure (ro_retired r = None) ''previous overlap still active'') (\<lambda>_.
           rbind (ok_or (checked_add (ke_epoch (ro_active r)) 1) (Bail ''epoch overflow'')) (\<lambda>epoch.
           Inr (fresh_key public_of priv epoch)))) of
        Inl e \<Rightarrow> (Inl e, r)
      | Inr k \<Rightarrow> (Inr k, r\<lparr>ro_pending := Some k\<rparr>))"

definition rotation_acknowledge :: "nat \<Rightarrow> string \<Rightarrow> nat \<Rightarrow> rotation \<Rightarrow> rotation res" where
  "rotation_acknowledge epoch public now r =
     rbind (ok_or (ro_pending r) (Bail ''no pending rotation'')) (\<lambda>pending.
     rbind (ensure (ke_epoch pending = epoch \<and> ke_public pending = public)
       ''rotation acknowledgement mismatch'') (\<lambda>_.
     Inr (r\<lparr>ro_active := pending, ro_pending := None,
            ro_retired := Some (ro_active r, saturating_add now overlap_seconds),
            ro_next := saturating_add now (ro_interval r)\<rparr>)))"

definition rotation_cancel :: "rotation \<Rightarrow> rotation" where
  "rotation_cancel r = r\<lparr>ro_pending := None\<rparr>"

section \<open>Calls\<close>

datatype rotation_call =
    Prepare nat string
  | Acknowledge nat string nat
  | Expire nat
  | Cancel

fun rotation_run :: "(string \<Rightarrow> string) \<Rightarrow> rotation_call \<Rightarrow> rotation \<Rightarrow> rotation" where
  "rotation_run pub (Prepare now priv) r = snd (rotation_prepare pub priv now r)"
| "rotation_run pub (Acknowledge epoch public now) r =
     (case rotation_acknowledge epoch public now r of Inl _ \<Rightarrow> r | Inr r' \<Rightarrow> r')"
| "rotation_run pub (Expire now) r = rotation_expire now r"
| "rotation_run pub Cancel r = rotation_cancel r"

section \<open>The phases of a rotation\<close>

text \<open>What the component promises: an identity is stable, or its successor is prepared, or it has
  just replaced its predecessor, which is still served.\<close>

datatype phase = Stable nat | Prepared nat | Overlapping nat

inductive phase_step :: "phase \<Rightarrow> phase \<Rightarrow> bool" where
  ps_prepare: "phase_step (Stable e) (Prepared e)"
| ps_cancel: "phase_step (Prepared e) (Stable e)"
| ps_switch: "phase_step (Prepared e) (Overlapping (e + 1))"
| ps_expire: "phase_step (Overlapping e) (Stable e)"

inductive_cases phase_step_E [elim]: "phase_step p q"

inductive_simps phase_step_from_stable: "phase_step (Stable e) q"

definition phase_of :: "rotation \<Rightarrow> phase" where
  "phase_of r =
     (case ro_pending r of
        Some _ \<Rightarrow> Prepared (ke_epoch (ro_active r))
      | None \<Rightarrow> (case ro_retired r of
           Some _ \<Rightarrow> Overlapping (ke_epoch (ro_active r))
         | None \<Rightarrow> Stable (ke_epoch (ro_active r))))"

fun phase_epoch :: "phase \<Rightarrow> nat" where
  "phase_epoch (Stable e) = e"
| "phase_epoch (Prepared e) = e"
| "phase_epoch (Overlapping e) = e"

definition rotation_ok :: "rotation \<Rightarrow> bool" where
  "rotation_ok r \<longleftrightarrow>
     (case ro_pending r of
        Some k \<Rightarrow> ke_epoch k = ke_epoch (ro_active r) + 1 \<and> ro_retired r = None
      | None \<Rightarrow> (case ro_retired r of
           Some (k, _) \<Rightarrow> ke_epoch (ro_active r) = ke_epoch k + 1
         | None \<Rightarrow> True))"

lemma phase_step_epoch: "phase_step p q \<Longrightarrow> phase_epoch q \<le> phase_epoch p + 1 \<and> phase_epoch p \<le> phase_epoch q"
  by (cases rule: phase_step.cases) auto

lemma expire_phase:
  "rotation_ok r \<Longrightarrow> rotation_ok (rotation_expire now r)
     \<and> phase_step\<^sup>*\<^sup>* (phase_of r) (phase_of (rotation_expire now r))
     \<and> ro_active (rotation_expire now r) = ro_active r \<and> ro_pending (rotation_expire now r) = ro_pending r"
  by (auto simp: rotation_expire_def rotation_ok_def phase_of_def intro: ps_expire r_into_rtranclp
      split: option.splits)

lemma prepare_cases:
  assumes "rotation_prepare pub priv now r0 = (x, r')"
  obtains "r' = rotation_expire now r0" "\<not> is_ok x"
  | k where "x = Inr k" "r' = (rotation_expire now r0)\<lparr>ro_pending := Some k\<rparr>"
      "ke_epoch k = ke_epoch (ro_active r0) + 1" "ro_pending r0 = None" "ro_retired (rotation_expire now r0) = None"
      "ro_next r0 \<le> now"
proof -
  have same: "ro_active (rotation_expire now r0) = ro_active r0" "ro_pending (rotation_expire now r0) = ro_pending r0"
    "ro_next (rotation_expire now r0) = ro_next r0"
    by (auto simp: rotation_expire_def split: option.splits)
  show thesis
  proof (cases x)
    case (Inl e)
    with assms show thesis
      by (intro that(1)) (auto simp: rotation_prepare_def Let_def split: sum.splits)
  next
    case (Inr k)
    with assms same show thesis
      by (intro that(2) [of k])
        (auto simp: rotation_prepare_def Let_def res_simps rotation_due_def checked_add_Some fresh_key_def
          split: sum.splits)
  qed
qed

lemma prepare_phase:
  assumes "rotation_ok r" and "rotation_prepare pub priv now r = (x, r')"
  shows "rotation_ok r' \<and> phase_step\<^sup>*\<^sup>* (phase_of r) (phase_of r') \<and> ro_active r' = ro_active r"
  using assms(2)
proof (cases rule: prepare_cases)
  case 1
  with expire_phase [OF assms(1)] show ?thesis by simp
next
  case (2 k)
  note e = expire_phase [OF assms(1), of now]
  from 2 e have "phase_of (rotation_expire now r) = Stable (ke_epoch (ro_active r))"
    by (simp add: phase_of_def)
  moreover from 2 e have "phase_of r' = Prepared (ke_epoch (ro_active r))" by (simp add: phase_of_def)
  ultimately have "phase_step (phase_of (rotation_expire now r)) (phase_of r')" by (simp add: ps_prepare)
  with e have "phase_step\<^sup>*\<^sup>* (phase_of r) (phase_of r')" by (meson rtranclp.rtrancl_into_rtrancl)
  with 2 e show ?thesis by (simp add: rotation_ok_def)
qed

lemma acknowledge_phase:
  assumes "rotation_ok r" and "rotation_acknowledge epoch public now r = Inr r'"
  shows "rotation_ok r' \<and> phase_step (phase_of r) (phase_of r')
     \<and> ke_epoch (ro_active r') = ke_epoch (ro_active r) + 1 \<and> ro_pending r = Some (ro_active r')
     \<and> ke_public (ro_active r') = public \<and> ke_epoch (ro_active r') = epoch"
  using assms
  by (auto simp: rotation_acknowledge_def res_simps rotation_ok_def phase_of_def split: option.splits)
    (simp_all add: ps_switch [of "ke_epoch (ro_active r)", simplified])

lemma cancel_phase:
  "rotation_ok r \<Longrightarrow> rotation_ok (rotation_cancel r)
     \<and> phase_step\<^sup>*\<^sup>* (phase_of r) (phase_of (rotation_cancel r)) \<and> ro_active (rotation_cancel r) = ro_active r"
  by (auto simp: rotation_cancel_def rotation_ok_def phase_of_def intro: ps_cancel r_into_rtranclp
      split: option.splits)

lemma run_phase:
  assumes "rotation_ok r"
  shows "rotation_ok (rotation_run pub c r) \<and> phase_step\<^sup>*\<^sup>* (phase_of r) (phase_of (rotation_run pub c r))"
proof (cases c)
  case (Prepare now priv)
  obtain x r' where p: "rotation_prepare pub priv now r = (x, r')" by (cases "rotation_prepare pub priv now r")
  from prepare_phase [OF assms p] p Prepare show ?thesis by simp
next
  case (Acknowledge epoch public now)
  show ?thesis
  proof (cases "rotation_acknowledge epoch public now r")
    case (Inl e)
    with Acknowledge assms show ?thesis by simp
  next
    case (Inr r')
    with acknowledge_phase [OF assms Inr] Acknowledge show ?thesis by auto
  qed
next
  case (Expire now)
  with expire_phase [OF assms] show ?thesis by simp
next
  case Cancel
  with cancel_phase [OF assms] show ?thesis by simp
qed

interpretation rotation_machine: op_invariant "rotation_run pub" rotation_ok for pub
proof
  fix s x assume "rotation_ok s"
  then show "rotation_ok (rotation_run pub x s)" using run_phase by blast
qed

text \<open>The interface of \<open>op_monotone\<close> for a state that is kept well-formed.\<close>

interpretation rotation_refinement: op_monotone "rotation_run pub"
    "\<lambda>r r'. rotation_ok r \<longrightarrow> rotation_ok r' \<and> phase_step\<^sup>*\<^sup>* (phase_of r) (phase_of r')" for pub
  by unfold_locales (use run_phase in fastforce)+

section \<open>Properties\<close>

lemma new_rotation_ok: "rotation_ok (rotation_with_interval pub priv now interval)"
  by (simp add: rotation_with_interval_def rotation_ok_def)


text \<open>At most two identities are in use at any time: never a prepared and a retired one together,
  and the second one is the neighbour of the active epoch.\<close>

lemma at_most_two_identities:
  "let r = run_ops (rotation_run pub) calls (new_rotation pub priv now) in
     (ro_pending r = None \<or> ro_retired r = None)
     \<and> (case ro_pending r of None \<Rightarrow> True | Some k \<Rightarrow> ke_epoch k = ke_epoch (ro_active r) + 1)
     \<and> (case ro_retired r of None \<Rightarrow> True | Some (k, _) \<Rightarrow> ke_epoch k + 1 = ke_epoch (ro_active r))"
proof -
  have "rotation_ok (run_ops (rotation_run pub) calls (new_rotation pub priv now))"
    by (rule rotation_machine.run_inv) (simp add: new_rotation_def new_rotation_ok)
  then show ?thesis by (auto simp: rotation_ok_def Let_def split: option.splits)
qed

text \<open>The active identity changes only to the prepared one, when its own epoch and public key are
  acknowledged; its predecessor then stays for 30 seconds, and no rotation is due before the interval
  has passed.\<close>

lemma only_the_prepared_identity_takes_over:
  assumes "rotation_ok r" and "ro_active (rotation_run pub c r) \<noteq> ro_active r"
  shows "\<exists>epoch public now. c = Acknowledge epoch public now
     \<and> (let r' = rotation_run pub c r in
         ro_pending r = Some (ro_active r') \<and> ke_epoch (ro_active r') = epoch \<and> ke_public (ro_active r') = public
         \<and> epoch = ke_epoch (ro_active r) + 1
         \<and> (\<forall>t. rotation_expire t r' = (if t \<ge> saturating_add now 30 then r'\<lparr>ro_retired := None\<rparr> else r'))
         \<and> (\<forall>t < saturating_add now (ro_interval r). \<not> rotation_due t r'))"
proof (cases c)
  case (Prepare now priv)
  obtain x r' where p: "rotation_prepare pub priv now r = (x, r')" by (cases "rotation_prepare pub priv now r")
  from prepare_phase [OF assms(1) p] p Prepare assms(2) show ?thesis by simp
next
  case (Acknowledge epoch public now)
  then obtain r' where a: "rotation_acknowledge epoch public now r = Inr r'"
    using assms(2) by (cases "rotation_acknowledge epoch public now r") auto
  have "(\<forall>t. rotation_expire t r' = (if t \<ge> saturating_add now 30 then r'\<lparr>ro_retired := None\<rparr> else r'))"
    and "\<forall>t < saturating_add now (ro_interval r). \<not> rotation_due t r'"
    using a by (auto simp: rotation_acknowledge_def res_simps rotation_expire_def overlap_seconds_def rotation_due_def)
  with acknowledge_phase [OF assms(1) a] Acknowledge a show ?thesis by (simp add: Let_def)
next
  case (Expire now)
  with expire_phase [OF assms(1), of now] assms(2) show ?thesis by simp
next
  case Cancel
  with cancel_phase [OF assms(1)] assms(2) show ?thesis by simp
qed

definition demo_rotation :: rotation where
  "demo_rotation =
     run_ops (rotation_run (\<lambda>x. x)) [Prepare 2000 ''k1''] (new_rotation (\<lambda>x. x) ''k0'' 0)"

lemmas demo_rotation_defs =
  demo_rotation_def new_rotation_def rotation_with_interval_def rotation_prepare_def rotation_expire_def
  rotation_due_def rotation_seconds_def fresh_key_def saturating_add_def u64_max_def checked_add_def Let_def

lemma only_the_prepared_identity_takes_over_witness:
  "rotation_ok demo_rotation
   \<and> ro_active (rotation_run (\<lambda>x. x) (Acknowledge 1 ''k1'' 2010) demo_rotation) \<noteq> ro_active demo_rotation
   \<and> (\<exists>epoch public now. Acknowledge 1 ''k1'' 2010 = Acknowledge epoch public now
     \<and> (let r' = rotation_run (\<lambda>x. x) (Acknowledge 1 ''k1'' 2010) demo_rotation in
         ro_pending demo_rotation = Some (ro_active r') \<and> ke_epoch (ro_active r') = epoch
         \<and> ke_public (ro_active r') = public \<and> epoch = ke_epoch (ro_active demo_rotation) + 1
         \<and> (\<forall>t. rotation_expire t r' = (if t \<ge> saturating_add now 30 then r'\<lparr>ro_retired := None\<rparr> else r'))
         \<and> (\<forall>t < saturating_add now (ro_interval demo_rotation). \<not> rotation_due t r')))"
proof -
  have ok: "rotation_ok demo_rotation"
    unfolding demo_rotation_def
    by (rule rotation_machine.run_inv) (simp add: new_rotation_def new_rotation_ok)
  have "ro_active (rotation_run (\<lambda>x. x) (Acknowledge 1 ''k1'' 2010) demo_rotation) \<noteq> ro_active demo_rotation"
    by (simp add: demo_rotation_defs rotation_acknowledge_def)
  with ok only_the_prepared_identity_takes_over [OF ok this] show ?thesis by blast
qed

end
