(* ===== verification/VpnServer.thy ===== *)
theory VpnServer
  imports Knock Rotation
begin

text \<open>
  \<open>crates/omni-vpn/src/server.rs\<close>: the privileged control loop of the VPN hub. The commands
  \<open>wg\<close> and \<open>nft\<close>, the state file and the socket are the environment: the record \<open>os\<close> gives the
  outcome of each call from everything that happened before it, and the calls made are kept as a
  trace. Times are seconds; the sums \<open>timestamp + 60\<close> and \<open>timestamp + 30\<close> are far below \<open>2^64\<close>.
\<close>

section \<open>State\<close>

record enrollment =
  en_id :: string
  en_secret :: string
  en_key :: string
  en_address0 :: string
  en_address1 :: string

record pending_identity =
  pi_epoch :: nat
  pi_key :: string
  pi_expires :: nat

record previous_identity =
  qi_key :: string
  qi_expires :: nat

record client_state =
  cs_epoch :: nat
  cs_key :: string
  cs_pending :: "pending_identity option"
  cs_previous :: "previous_identity option"

text \<open>The hash map of the clients, in its iteration order.\<close>

record hub_state =
  hs_clients :: "(string \<times> client_state) list"
  hs_nonces :: "(string \<times> string \<times> nat) list"

section \<open>The environment\<close>

text \<open>Commands run (and whether they succeeded), saved states, failed saves and acknowledgements
  sent.\<close>

datatype event =
    Ran string "string list" bool
  | Saved hub_state
  | SaveFailed
  | Sent signed_ack string

record os =
  os_exec :: "event list \<Rightarrow> string \<Rightarrow> string list \<Rightarrow> string res"
  os_save :: "event list \<Rightarrow> hub_state \<Rightarrow> unit res"
  os_send :: "event list \<Rightarrow> signed_ack \<Rightarrow> string \<Rightarrow> unit res"

record hub =
  hb_state :: hub_state
  hb_verifier :: verifier
  hb_trace :: "event list"

type_synonym 'a ctl = "hub \<Rightarrow> 'a res \<times> hub"

definition ctl_then :: "'a res \<times> hub \<Rightarrow> ('a \<Rightarrow> 'b ctl) \<Rightarrow> 'b res \<times> hub" where
  "ctl_then x f = (case x of (Inl e, h) \<Rightarrow> (Inl e, h) | (Inr a, h) \<Rightarrow> f a h)"

definition execute :: "os \<Rightarrow> string \<Rightarrow> string list \<Rightarrow> string ctl" where
  "execute E prog args h =
     (let r = os_exec E (hb_trace h) prog args
      in (r, h\<lparr>hb_trace := hb_trace h @ [Ran prog args (is_ok r)]\<rparr>))"

definition remove_peer :: "os \<Rightarrow> string \<Rightarrow> string \<Rightarrow> unit ctl" where
  "remove_peer E iface key h =
     ctl_then (execute E ''wg'' [''set'', iface, ''peer'', key, ''remove''] h) (\<lambda>_ h. (Inr (), h))"

definition add_peer :: "os \<Rightarrow> string \<Rightarrow> string \<Rightarrow> string \<Rightarrow> unit ctl" where
  "add_peer E iface key address h =
     ctl_then (execute E ''wg'' [''set'', iface, ''peer'', key, ''allowed-ips'', address] h) (\<lambda>_ h. (Inr (), h))"

definition save :: "os \<Rightarrow> unit ctl" where
  "save E h =
     (case os_save E (hb_trace h) (hb_state h) of
        Inl e \<Rightarrow> (Inl e, h\<lparr>hb_trace := hb_trace h @ [SaveFailed]\<rparr>)
      | Inr _ \<Rightarrow> (Inr (), h\<lparr>hb_trace := hb_trace h @ [Saved (hb_state h)]\<rparr>))"

definition send_ack :: "os \<Rightarrow> signed_ack \<Rightarrow> string \<Rightarrow> unit ctl" where
  "send_ack E a ip h =
     (case os_send E (hb_trace h) a ip of
        Inl e \<Rightarrow> (Inl e, h)
      | Inr _ \<Rightarrow> (Inr (), h\<lparr>hb_trace := hb_trace h @ [Sent a ip]\<rparr>))"

text \<open>The entry may not exist when it is deleted; it must be added.\<close>

definition nft_add :: "string \<Rightarrow> string list" where
  "nft_add ip = [''add'', ''element'', ''inet'', ''omni_gate'', ''admitted4'', ''{'', ip,
     ''timeout'', show_nat admission_ttl @ ''s'', ''}'']"

definition admission :: "os \<Rightarrow> bool \<Rightarrow> string \<Rightarrow> unit ctl" where
  "admission E v4 ip h =
     (if \<not> v4 then (Inl (Bail ''production knock admission currently supports IPv4 endpoints only''), h)
      else let h1 = snd (execute E ''nft''
             [''delete'', ''element'', ''inet'', ''omni_gate'', ''admitted4'', ''{'', ip, ''}''] h)
           in ctl_then (execute E ''nft'' (nft_add ip) h1) (\<lambda>_ h. (Inr (), h)))"

text \<open>\<open>split_whitespace\<close>, and the first two fields of each line that \<open>wg show\<close> prints.\<close>

fun words_of :: "string \<Rightarrow> string \<Rightarrow> string list" where
  "words_of cur [] = (if cur = [] then [] else [cur])"
| "words_of cur (c # s) =
     (case find (\<lambda>w. w \<noteq> [] \<and> prefix w (c # s)) white_space of
        Some w \<Rightarrow> (if cur = [] then [] else [cur]) @ words_of [] (drop (length w - 1) s)
      | None \<Rightarrow> words_of (cur @ [c]) s)"

definition parse_u64 :: "string \<Rightarrow> nat option" where
  "parse_u64 s =
     (let t = (case s of c # cs \<Rightarrow> if c = CHR ''+'' then cs else s | [] \<Rightarrow> [])
      in if t = [] \<or> \<not> list_all ascii_digit t \<or> digits_value t > u64_max then None else Some (digits_value t))"

definition handshake_line :: "string \<Rightarrow> nat \<Rightarrow> string \<Rightarrow> bool" where
  "handshake_line key now line =
     (case words_of [] line of
        k # t # _ \<Rightarrow> k = key \<and> (case parse_u64 t of None \<Rightarrow> False | Some t \<Rightarrow> t > 0 \<and> abs_diff t now \<le> 30)
      | _ \<Rightarrow> False)"

definition recent_handshake :: "os \<Rightarrow> string \<Rightarrow> string \<Rightarrow> nat \<Rightarrow> bool ctl" where
  "recent_handshake E iface key now h =
     ctl_then (execute E ''wg'' [''show'', iface, ''latest-handshakes''] h) (\<lambda>text h.
     (Inr (list_ex (handshake_line key now) (split_on (CHR 0x0A) text)), h))"

section \<open>Clients\<close>

definition on_client :: "string \<Rightarrow> (client_state \<Rightarrow> client_state) \<Rightarrow> hub \<Rightarrow> hub" where
  "on_client i f h =
     h\<lparr>hb_state := (hb_state h)\<lparr>hs_clients :=
        map (\<lambda>(j, c). if j = i then (j, f c) else (j, c)) (hs_clients (hb_state h))\<rparr>\<rparr>"

definition client_of :: "string \<Rightarrow> hub \<Rightarrow> client_state option" where
  "client_of i h = map_of (hs_clients (hb_state h)) i"

text \<open>The two halves of the loop body of \<open>cleanup\<close>: the identity is dropped before its peer is
  removed.\<close>

definition drop_pending :: "os \<Rightarrow> string \<Rightarrow> nat \<Rightarrow> string \<Rightarrow> bool ctl" where
  "drop_pending E iface now i h =
     (case Option.bind (client_of i h) cs_pending of
        Some p \<Rightarrow>
          if now \<ge> pi_expires p
          then ctl_then (remove_peer E iface (pi_key p) (on_client i (\<lambda>c. c\<lparr>cs_pending := None\<rparr>) h))
                 (\<lambda>_ h. (Inr True, h))
          else (Inr False, h)
      | None \<Rightarrow> (Inr False, h))"

definition drop_previous :: "os \<Rightarrow> string \<Rightarrow> nat \<Rightarrow> string \<Rightarrow> bool ctl" where
  "drop_previous E iface now i h =
     (case Option.bind (client_of i h) cs_previous of
        Some p \<Rightarrow>
          if now \<ge> qi_expires p
          then ctl_then (remove_peer E iface (qi_key p) (on_client i (\<lambda>c. c\<lparr>cs_previous := None\<rparr>) h))
                 (\<lambda>_ h. (Inr True, h))
          else (Inr False, h)
      | None \<Rightarrow> (Inr False, h))"

fun cleanup_each :: "os \<Rightarrow> string \<Rightarrow> nat \<Rightarrow> string list \<Rightarrow> bool \<Rightarrow> bool ctl" where
  "cleanup_each E iface now [] changed h = (Inr changed, h)"
| "cleanup_each E iface now (i # ids) changed h =
     ctl_then (drop_pending E iface now i h) (\<lambda>a h.
     ctl_then (drop_previous E iface now i h) (\<lambda>b h.
     cleanup_each E iface now ids (changed \<or> a \<or> b) h))"

definition cleanup :: "os \<Rightarrow> string \<Rightarrow> nat \<Rightarrow> bool ctl" where
  "cleanup E iface now h = cleanup_each E iface now (map fst (hs_clients (hb_state h))) False h"

section \<open>Requests\<close>

definition holds_key :: "string \<Rightarrow> client_state \<Rightarrow> bool" where
  "holds_key key c \<longleftrightarrow> cs_key c = key
     \<or> (case cs_pending c of None \<Rightarrow> False | Some p \<Rightarrow> pi_key p = key)
     \<or> (case cs_previous c of None \<Rightarrow> False | Some p \<Rightarrow> qi_key p = key)"

definition assigned_elsewhere :: "string \<Rightarrow> string \<Rightarrow> hub \<Rightarrow> bool" where
  "assigned_elsewhere i key h = list_ex (\<lambda>(j, c). j \<noteq> i \<and> holds_key key c) (hs_clients (hb_state h))"

definition address_of :: "enrollment \<Rightarrow> nat \<Rightarrow> string" where
  "address_of e epoch = (if epoch mod 2 = 0 then en_address0 e else en_address1 e)"

definition key_of_request :: "knock_request \<Rightarrow> string" where
  "key_of_request r = (case kr_key r of None \<Rightarrow> [] | Some k \<Rightarrow> k)"

definition prepare_identity :: "os \<Rightarrow> string \<Rightarrow> enrollment \<Rightarrow> nat \<Rightarrow> knock_request \<Rightarrow> client_state \<Rightarrow> unit ctl" where
  "prepare_identity E iface e now r c h =
     (let key = key_of_request r in
      if \<not> (checked_add (cs_epoch c) 1 = Some (kr_epoch r) \<and> key \<noteq> cs_key c)
      then (Inl (Bail ''invalid next identity''), h)
      else if cs_previous c \<noteq> None then (Inl (Bail ''rotation overlap still active''), h)
      else case cs_pending c of
        Some p \<Rightarrow> (ensure (pi_epoch p = kr_epoch r \<and> pi_key p = key) ''different rotation pending'', h)
      | None \<Rightarrow>
          ctl_then (add_peer E iface key (address_of e (kr_epoch r)) h) (\<lambda>_ h.
          (Inr (), on_client (kr_client r) (\<lambda>c. c\<lparr>cs_pending :=
             Some \<lparr>pi_epoch = kr_epoch r, pi_key = key, pi_expires = now + 60\<rparr>\<rparr>) h)))"

text \<open>A repeated commit of the current identity is accepted.\<close>

definition commit_identity :: "os \<Rightarrow> string \<Rightarrow> nat \<Rightarrow> knock_request \<Rightarrow> client_state \<Rightarrow> unit ctl" where
  "commit_identity E iface now r c h =
     (let key = key_of_request r in
      if kr_epoch r = cs_epoch c \<and> key = cs_key c then (Inr (), h)
      else case cs_pending c of
        None \<Rightarrow> (Inl (Bail ''no prepared rotation''), h)
      | Some p \<Rightarrow>
          if \<not> (pi_epoch p = kr_epoch r \<and> pi_key p = key) then (Inl (Bail ''unprepared key''), h)
          else ctl_then (recent_handshake E iface key now h) (\<lambda>ok h.
            if \<not> ok then (Inl (Bail ''new identity has not completed a recent WireGuard handshake''), h)
            else (Inr (), on_client (kr_client r) (\<lambda>c. c\<lparr>
                cs_previous := Some \<lparr>qi_key = cs_key c, qi_expires = now + overlap_seconds\<rparr>,
                cs_epoch := kr_epoch r, cs_key := key, cs_pending := None\<rparr>) h)))"

definition change_identity :: "os \<Rightarrow> string \<Rightarrow> enrollment \<Rightarrow> nat \<Rightarrow> knock_request \<Rightarrow> unit ctl" where
  "change_identity E iface e now r h =
     (if kr_action r = PrepareRotation \<and> assigned_elsewhere (kr_client r) (key_of_request r) h
      then (Inl (Bail ''key already assigned''), h)
      else case client_of (kr_client r) h of
        None \<Rightarrow> (Inl (Bail ''missing client''), h)
      | Some c \<Rightarrow>
          (case kr_action r of
             Open \<Rightarrow> (ensure (kr_epoch r = cs_epoch c) ''stale client identity'', h)
           | PrepareRotation \<Rightarrow> prepare_identity E iface e now r c h
           | CommitRotation \<Rightarrow> commit_identity E iface now r c h))"

text \<open>The closure \<open>accepted\<close>. The verifier knows only enrolled clients, so the lookup of the
  enrollment does not fail.\<close>

definition accept_request ::
    "os \<Rightarrow> string \<Rightarrow> (string \<times> enrollment) list \<Rightarrow> nat \<Rightarrow> bool \<Rightarrow> string \<Rightarrow> knock_request \<Rightarrow> unit ctl" where
  "accept_request E iface es now v4 ip r h =
     (case map_of es (kr_client r) of
        None \<Rightarrow> (Inl (Bail ''unknown enrollment''), h)
      | Some e \<Rightarrow> ctl_then (change_identity E iface e now r h) (\<lambda>_ h. admission E v4 ip h))"

section \<open>The loop\<close>

datatype arrival = Quiet | Datagram string bool string | SocketError

definition handle_datagram ::
    "os \<Rightarrow> crypto \<Rightarrow> string \<Rightarrow> (string \<times> enrollment) list \<Rightarrow> nat \<Rightarrow> string \<Rightarrow> bool \<Rightarrow> string \<Rightarrow> unit ctl" where
  "handle_datagram E K iface es now bytes v4 ip h =
     (case authenticate K (take (max_knock_bytes + 1) bytes) now (hb_verifier h) of
        (Inl _, v) \<Rightarrow> (Inr (), h\<lparr>hb_verifier := v\<rparr>)
      | (Inr s, v) \<Rightarrow>
          ctl_then (save E (h\<lparr>hb_verifier := v, hb_state := (hb_state h)\<lparr>hs_nonces := nonce_entries v\<rparr>\<rparr>)) (\<lambda>_ h.
          case accept_request E iface es now v4 ip (sr_request s) h of
            (Inl _, h) \<Rightarrow> (Inr (), h)
          | (Inr _, h) \<Rightarrow>
              ctl_then (save E h) (\<lambda>_ h.
              case acknowledge K (sr_request s) now (hb_verifier h) of
                Inl e \<Rightarrow> (Inl e, h)
              | Inr a \<Rightarrow> send_ack E a ip h)))"

text \<open>One iteration; \<open>Inl\<close> leaves the loop, and with it the process.\<close>

definition serve_one ::
    "os \<Rightarrow> crypto \<Rightarrow> string \<Rightarrow> (string \<times> enrollment) list \<Rightarrow> nat \<Rightarrow> arrival \<Rightarrow> unit ctl" where
  "serve_one E K iface es now a h =
     ctl_then (cleanup E iface now h) (\<lambda>changed h.
     ctl_then (if changed then save E h else (Inr (), h)) (\<lambda>_ h.
     case a of
       Quiet \<Rightarrow> (Inr (), h)
     | SocketError \<Rightarrow> (Inl (Io ''recv''), h)
     | Datagram bytes v4 ip \<Rightarrow> handle_datagram E K iface es now bytes v4 ip h))"

section \<open>Start\<close>

text \<open>\<open>Ipv4Addr::from_str\<close> and \<open>is_private\<close>: four decimal numbers without leading zeros.\<close>

definition parse_octet :: "string \<Rightarrow> nat option" where
  "parse_octet s =
     (if s = [] \<or> length s > 3 \<or> \<not> list_all ascii_digit s \<or> (length s > 1 \<and> hd s = CHR ''0'')
        \<or> digits_value s > 255 then None else Some (digits_value s))"

definition parse_ipv4 :: "string \<Rightarrow> (nat \<times> nat \<times> nat \<times> nat) option" where
  "parse_ipv4 s =
     (case map parse_octet (split_on (CHR ''.'') s) of
        [Some a, Some b, Some c, Some d] \<Rightarrow> Some (a, b, c, d)
      | _ \<Rightarrow> None)"

fun ipv4_private :: "nat \<times> nat \<times> nat \<times> nat \<Rightarrow> bool" where
  "ipv4_private (a, b, c, d) \<longleftrightarrow> a = 10 \<or> (a = 172 \<and> 16 \<le> b \<and> b \<le> 31) \<or> (a = 192 \<and> b = 168)"

definition check_address :: "string \<Rightarrow> unit res" where
  "check_address address =
     rbind (ensure (suffix ''/32'' address) ''client addresses must be IPv4 /32'') (\<lambda>_.
     rbind (ok_or (parse_ipv4 (take (length address - 3) address)) (Decode ''address'')) (\<lambda>ip.
     ensure (ipv4_private ip) ''client address must be private''))"

definition clashes :: "enrollment \<Rightarrow> enrollment \<Rightarrow> bool" where
  "clashes x e \<longleftrightarrow> en_key x = en_key e
     \<or> en_address0 x \<in> {en_address0 e, en_address1 e} \<or> en_address1 x \<in> {en_address0 e, en_address1 e}"

fun enroll_all ::
    "crypto \<Rightarrow> enrollment list \<Rightarrow> verifier \<Rightarrow> (string \<times> enrollment) list
       \<Rightarrow> (verifier \<times> (string \<times> enrollment) list) res" where
  "enroll_all K [] v es = Inr (v, es)"
| "enroll_all K (e # rest) v es =
     rbind (decode_key K (en_key e)) (\<lambda>_.
     rbind (check_address (en_address0 e)) (\<lambda>_.
     rbind (check_address (en_address1 e)) (\<lambda>_.
     rbind (ensure (en_address0 e \<noteq> en_address1 e) ''rotation addresses must differ'') (\<lambda>_.
     rbind (ensure (\<not> list_ex (\<lambda>x. clashes (snd x) e) es) ''duplicate peer key/address'') (\<lambda>_.
     rbind (decode_key K (en_secret e)) (\<lambda>secret.
     rbind (enroll (en_id e) secret v) (\<lambda>v.
     enroll_all K rest v (es @ [(en_id e, e)]))))))))"

text \<open>A file, its permission bits and its decoded content.\<close>

record 'a disk_entry =
  dk_mode :: nat
  dk_content :: "'a option"

definition private_file :: "'a disk_entry option \<Rightarrow> unit res" where
  "private_file f =
     (case f of
        None \<Rightarrow> Inl (Io ''metadata'')
      | Some x \<Rightarrow> ensure (dk_mode x mod 64 = 0) ''must not be accessible to group/others'')"

definition read_decoded :: "'a disk_entry option \<Rightarrow> 'a res" where
  "read_decoded f = rbind (ok_or f (Io ''read'')) (\<lambda>x. ok_or (dk_content x) (Decode ''json''))"

definition first_state :: "enrollment \<Rightarrow> client_state" where
  "first_state e = \<lparr>cs_epoch = 0, cs_key = en_key e, cs_pending = None, cs_previous = None\<rparr>"

definition add_missing ::
    "(string \<times> enrollment) list \<Rightarrow> (string \<times> client_state) list \<Rightarrow> (string \<times> client_state) list" where
  "add_missing es cs =
     cs @ map (\<lambda>(i, e). (i, first_state e)) (filter (\<lambda>(i, _). i \<notin> fst ` set cs) es)"

fun add_client_peers :: "os \<Rightarrow> string \<Rightarrow> (string \<times> enrollment) list \<Rightarrow> (string \<times> client_state) list \<Rightarrow> unit ctl" where
  "add_client_peers E iface es [] h = (Inr (), h)"
| "add_client_peers E iface es ((i, c) # cs) h =
     (case map_of es i of
        None \<Rightarrow> (Inl (Bail ''unknown enrollment''), h)
      | Some e \<Rightarrow>
          ctl_then (add_peer E iface (cs_key c) (address_of e (cs_epoch c)) h) (\<lambda>_ h.
          ctl_then (case cs_pending c of
              None \<Rightarrow> (Inr (), h)
            | Some p \<Rightarrow> add_peer E iface (pi_key p) (address_of e (pi_epoch p)) h) (\<lambda>_ h.
          ctl_then (case cs_previous c of
              None \<Rightarrow> (Inr (), h)
            | Some p \<Rightarrow> add_peer E iface (qi_key p) (address_of e (cs_epoch c + 1)) h) (\<lambda>_ h.
          add_client_peers E iface es cs h))))"

definition valid_interface :: "string \<Rightarrow> bool" where
  "valid_interface i \<longleftrightarrow> i \<noteq> [] \<and> length i \<le> 15
     \<and> list_all (\<lambda>b. ascii_alphanumeric b \<or> b = CHR ''_'' \<or> b = CHR ''-'') i"

definition load_hub ::
    "crypto \<Rightarrow> string \<Rightarrow> enrollment list disk_entry option \<Rightarrow> hub_state disk_entry option \<Rightarrow> nat
       \<Rightarrow> ((string \<times> enrollment) list \<times> hub) res" where
  "load_hub K iface clients_file state_file now =
     rbind (ensure (valid_interface iface) ''invalid interface'') (\<lambda>_.
     rbind (private_file clients_file) (\<lambda>_.
     rbind (read_decoded clients_file) (\<lambda>clients.
     rbind (ensure (clients \<noteq> [] \<and> length clients \<le> 128) ''enroll 1..128 clients per hub'') (\<lambda>_.
     rbind (enroll_all K clients new_verifier []) (\<lambda>(v, es).
     rbind (case state_file of
         None \<Rightarrow> Inr \<lparr>hs_clients = [], hs_nonces = []\<rparr>
       | Some _ \<Rightarrow> rbind (private_file state_file) (\<lambda>_. read_decoded state_file)) (\<lambda>stored.
     let cs = add_missing es (hs_clients stored) in
     rbind (ensure (list_all (\<lambda>x. fst x \<in> fst ` set es) cs)
       ''state contains revoked/unconfigured client; reconcile explicitly before startup'') (\<lambda>_.
     rbind (restore_nonces (hs_nonces stored) now v) (\<lambda>v.
     Inr (es, \<lparr>hb_state = stored\<lparr>hs_clients := cs\<rparr>, hb_verifier = v, hb_trace = []\<rparr>)))))))))"

definition start_hub ::
    "os \<Rightarrow> crypto \<Rightarrow> string \<Rightarrow> enrollment list disk_entry option \<Rightarrow> hub_state disk_entry option \<Rightarrow> nat
       \<Rightarrow> ((string \<times> enrollment) list \<times> hub) res" where
  "start_hub E K iface clients_file state_file now =
     rbind (load_hub K iface clients_file state_file now) (\<lambda>(es, h).
     case ctl_then (cleanup E iface now h) (\<lambda>_ h.
          ctl_then (add_client_peers E iface es (hs_clients (hb_state h)) h) (\<lambda>_ h. save E h)) of
       (Inl e, _) \<Rightarrow> Inl e
     | (Inr _, h) \<Rightarrow> Inr (es, h))"

section \<open>What an operation may change\<close>

text \<open>
  A relation between the hub before and after: operations that run one after the other compose
  when the relation is reflexive and transitive.
\<close>

locale ctl_relation =
  fixes R :: "hub \<Rightarrow> hub \<Rightarrow> bool"
  assumes R_refl: "R h h"
    and R_trans: "R h h1 \<Longrightarrow> R h1 h2 \<Longrightarrow> R h h2"
begin

lemma then_rel:
  assumes "R h (snd x)" and "\<And>a h1. x = (Inr a, h1) \<Longrightarrow> R h1 (snd (f a h1))"
  shows "R h (snd (ctl_then x f))"
proof (cases x)
  case (Pair r h1)
  show ?thesis
  proof (cases r)
    case (Inl e)
    with Pair assms(1) show ?thesis by (simp add: ctl_then_def)
  next
    case (Inr a)
    with Pair assms(2) have "R h1 (snd (f a h1))" by simp
    with assms(1) Pair Inr show ?thesis by (auto simp: ctl_then_def intro: R_trans)
  qed
qed

lemma then_done: "R h (snd x) \<Longrightarrow> R h (snd (ctl_then x (\<lambda>a h. (g a, h))))"
  by (rule then_rel) (simp_all add: R_refl)

end

lemma ctl_then_Inr: "ctl_then x f = (Inr b, h') \<longleftrightarrow> (\<exists>a h1. x = (Inr a, h1) \<and> f a h1 = (Inr b, h'))"
  by (auto simp: ctl_then_def split: prod.splits sum.splits)

lemma ctl_then_simps [simp]: "ctl_then (Inr a, h) f = f a h" "ctl_then (Inl e, h) f = (Inl e, h)"
  by (simp_all add: ctl_then_def)

text \<open>The commands only extend the trace; they neither save nor send.\<close>

definition quiet :: "hub \<Rightarrow> hub \<Rightarrow> bool" where
  "quiet h h' \<longleftrightarrow> hs_nonces (hb_state h') = hs_nonces (hb_state h) \<and> hb_verifier h' = hb_verifier h
     \<and> (\<exists>es. hb_trace h' = hb_trace h @ es \<and> (\<forall>a ip. Sent a ip \<notin> set es) \<and> (\<forall>st. Saved st \<notin> set es))"

interpretation quiet_ctl: ctl_relation quiet
proof
  fix h h1 h2
  show "quiet h h" by (simp add: quiet_def)
  assume "quiet h h1" "quiet h1 h2"
  then show "quiet h h2" by (auto simp: quiet_def)
qed

lemma execute_simps [simp]:
  "hb_state (snd (execute E p a h)) = hb_state h" "hb_verifier (snd (execute E p a h)) = hb_verifier h"
  by (simp_all add: execute_def Let_def)

lemma execute_quiet: "quiet h (snd (execute E p a h))"
  by (simp add: quiet_def execute_def Let_def)

lemma peers_quiet:
  "quiet h (snd (remove_peer E iface key h))" "quiet h (snd (add_peer E iface key address h))"
  "quiet h (snd (recent_handshake E iface key now h))"
  unfolding remove_peer_def add_peer_def recent_handshake_def
  by (rule quiet_ctl.then_done, rule execute_quiet)+

lemma admission_quiet: "quiet h (snd (admission E v4 ip h))"
proof (cases v4)
  case True
  have "quiet h (snd (execute E ''nft''
      [''delete'', ''element'', ''inet'', ''omni_gate'', ''admitted4'', ''{'', ip, ''}''] h))" (is "quiet h ?h1")
    by (rule execute_quiet)
  moreover have "quiet ?h1 (snd (ctl_then (execute E ''nft'' (nft_add ip) ?h1) (\<lambda>_ h. (Inr (), h))))"
    by (rule quiet_ctl.then_done [OF execute_quiet])
  ultimately show ?thesis using True by (simp add: admission_def quiet_ctl.R_trans [of h ?h1] Let_def)
qed (simp add: admission_def quiet_def)

lemma on_client_quiet: "quiet h (on_client i f h)"
  by (simp add: quiet_def on_client_def)

text \<open>The clients are read and written only in place.\<close>

definition client_ids :: "hub \<Rightarrow> string list" where
  "client_ids h = map fst (hs_clients (hb_state h))"

text \<open>What may happen to one client: the life cycle of its identities.\<close>

inductive client_step :: "nat \<Rightarrow> client_state \<Rightarrow> client_state \<Rightarrow> bool" for now where
  drop_expired_pending:
    "cs_pending c = Some p \<Longrightarrow> pi_expires p \<le> now \<Longrightarrow> client_step now c (c\<lparr>cs_pending := None\<rparr>)"
| drop_expired_previous:
    "cs_previous c = Some q \<Longrightarrow> qi_expires q \<le> now \<Longrightarrow> client_step now c (c\<lparr>cs_previous := None\<rparr>)"
| prepare_next:
    "cs_pending c = None \<Longrightarrow> cs_previous c = None \<Longrightarrow> key \<noteq> cs_key c \<Longrightarrow>
     client_step now c (c\<lparr>cs_pending := Some \<lparr>pi_epoch = cs_epoch c + 1, pi_key = key, pi_expires = now + 60\<rparr>\<rparr>)"
| commit_prepared:
    "cs_pending c = Some p \<Longrightarrow>
     client_step now c (c\<lparr>cs_previous := Some \<lparr>qi_key = cs_key c, qi_expires = now + 30\<rparr>,
        cs_epoch := pi_epoch p, cs_key := pi_key p, cs_pending := None\<rparr>)"

inductive_cases client_stepE: "client_step now c c'"

definition evolves :: "nat \<Rightarrow> hub \<Rightarrow> hub \<Rightarrow> bool" where
  "evolves now h h' \<longleftrightarrow> distinct (client_ids h) \<longrightarrow>
     client_ids h' = client_ids h
     \<and> (\<forall>i c. client_of i h = Some c \<longrightarrow> (\<exists>c'. client_of i h' = Some c' \<and> (client_step now)\<^sup>*\<^sup>* c c'))"

interpretation evolution: ctl_relation "evolves now" for now
proof
  fix h h1 h2
  show "evolves now h h" by (auto simp: evolves_def)
  assume a: "evolves now h h1" and b: "evolves now h1 h2"
  show "evolves now h h2"
    unfolding evolves_def
  proof (intro impI conjI allI)
    assume d: "distinct (client_ids h)"
    from a d have ids: "client_ids h1 = client_ids h"
      and s1: "\<And>i c. client_of i h = Some c \<Longrightarrow> \<exists>c'. client_of i h1 = Some c' \<and> (client_step now)\<^sup>*\<^sup>* c c'"
      by (auto simp: evolves_def)
    from b d ids have ids2: "client_ids h2 = client_ids h1"
      and s2: "\<And>i c. client_of i h1 = Some c \<Longrightarrow> \<exists>c'. client_of i h2 = Some c' \<and> (client_step now)\<^sup>*\<^sup>* c c'"
      by (auto simp: evolves_def)
    show "client_ids h2 = client_ids h" by (simp add: ids ids2)
    fix i c assume "client_of i h = Some c"
    then obtain c1 where c1: "client_of i h1 = Some c1" "(client_step now)\<^sup>*\<^sup>* c c1" using s1 by blast
    then obtain c2 where "client_of i h2 = Some c2" "(client_step now)\<^sup>*\<^sup>* c1 c2" using s2 by blast
    with c1(2) show "\<exists>c'. client_of i h2 = Some c' \<and> (client_step now)\<^sup>*\<^sup>* c c'"
      by (meson rtranclp_trans)
  qed
qed

lemma map_of_update:
  "map_of (map (\<lambda>(j, c). if j = i then (j, f c) else (j, c)) xs) k
     = (if k = i then map_option f (map_of xs k) else map_of xs k)"
  by (induction xs) auto

lemma client_of_on_client:
  "client_of k (on_client i f h) = (if k = i then map_option f (client_of k h) else client_of k h)"
  by (simp add: client_of_def on_client_def map_of_update)

lemma client_ids_on_client [simp]: "client_ids (on_client i f h) = client_ids h"
  by (auto simp: client_ids_def on_client_def comp_def split_beta)

lemma same_clients_evolve:
  "hb_state h' = hb_state h \<Longrightarrow> evolves now h h'"
  by (auto simp: evolves_def client_ids_def client_of_def)

lemma on_client_evolves:
  "client_of i h = Some c \<Longrightarrow> client_step now c (f c) \<Longrightarrow> evolves now h (on_client i f h)"
  by (auto simp: evolves_def client_of_on_client)

lemma save_state [simp]: "hb_state (snd (save E h)) = hb_state h"
  by (simp add: save_def split: sum.splits)

lemma peers_state [simp]:
  "hb_state (snd (remove_peer E iface key h)) = hb_state h"
  "hb_state (snd (add_peer E iface key address h)) = hb_state h"
  "hb_state (snd (recent_handshake E iface key now h)) = hb_state h"
  "hb_state (snd (admission E v4 ip h)) = hb_state h"
  by (simp_all add: remove_peer_def add_peer_def recent_handshake_def admission_def execute_def ctl_then_def Let_def
      split: sum.splits)

lemma drop_pending_evolves: "evolves now h (snd (drop_pending E iface now i h))"
proof (cases "Option.bind (client_of i h) cs_pending")
  case None
  then show ?thesis by (simp add: drop_pending_def evolution.R_refl)
next
  case (Some p)
  then obtain c where c: "client_of i h = Some c" "cs_pending c = Some p" by (auto simp: bind_eq_Some_conv)
  show ?thesis
  proof (cases "now \<ge> pi_expires p")
    case True
    let ?h = "on_client i (\<lambda>c. c\<lparr>cs_pending := None\<rparr>) h"
    have "evolves now h ?h"
      by (rule on_client_evolves [OF c(1)]) (rule drop_expired_pending [OF c(2) True])
    moreover have "evolves now ?h (snd (remove_peer E iface (pi_key p) ?h))"
      by (rule same_clients_evolve) simp
    ultimately have "evolves now h (snd (remove_peer E iface (pi_key p) ?h))" by (rule evolution.R_trans)
    with Some True show ?thesis by (simp add: drop_pending_def evolution.then_done)
  qed (simp add: drop_pending_def Some evolution.R_refl)
qed

lemma drop_previous_evolves: "evolves now h (snd (drop_previous E iface now i h))"
proof (cases "Option.bind (client_of i h) cs_previous")
  case None
  then show ?thesis by (simp add: drop_previous_def evolution.R_refl)
next
  case (Some p)
  then obtain c where c: "client_of i h = Some c" "cs_previous c = Some p" by (auto simp: bind_eq_Some_conv)
  show ?thesis
  proof (cases "now \<ge> qi_expires p")
    case True
    let ?h = "on_client i (\<lambda>c. c\<lparr>cs_previous := None\<rparr>) h"
    have "evolves now h ?h"
      by (rule on_client_evolves [OF c(1)]) (rule drop_expired_previous [OF c(2) True])
    moreover have "evolves now ?h (snd (remove_peer E iface (qi_key p) ?h))"
      by (rule same_clients_evolve) simp
    ultimately have "evolves now h (snd (remove_peer E iface (qi_key p) ?h))" by (rule evolution.R_trans)
    with Some True show ?thesis by (simp add: drop_previous_def evolution.then_done)
  qed (simp add: drop_previous_def Some evolution.R_refl)
qed

lemma cleanup_each_evolves: "evolves now h (snd (cleanup_each E iface now ids changed h))"
proof (induction ids arbitrary: changed h)
  case (Cons i ids)
  show ?case
    by (simp, rule evolution.then_rel [OF drop_pending_evolves], rule evolution.then_rel [OF drop_previous_evolves],
        rule Cons.IH)
qed (simp add: evolution.R_refl)

lemma cleanup_evolves: "evolves now h (snd (cleanup E iface now h))"
  by (simp add: cleanup_def cleanup_each_evolves)

lemma prepare_identity_evolves:
  assumes "client_of (kr_client r) h = Some c"
  shows "evolves now h (snd (prepare_identity E iface e now r c h))"
proof (cases "checked_add (cs_epoch c) 1 = Some (kr_epoch r) \<and> key_of_request r \<noteq> cs_key c
    \<and> cs_previous c = None \<and> cs_pending c = None")
  case True
  then have ep: "kr_epoch r = cs_epoch c + 1" by (simp add: checked_add_Some)
  let ?key = "key_of_request r"
  let ?p = "\<lparr>pi_epoch = kr_epoch r, pi_key = ?key, pi_expires = now + 60\<rparr>"
  have step: "client_step now c (c\<lparr>cs_pending := Some ?p\<rparr>)"
    unfolding ep by (rule prepare_next) (use True in simp_all)
  have "evolves now h (snd (ctl_then (add_peer E iface ?key (address_of e (kr_epoch r)) h) (\<lambda>_ h.
      (Inr (), on_client (kr_client r) (\<lambda>c. c\<lparr>cs_pending := Some ?p\<rparr>) h))))"
  proof (rule evolution.then_rel)
    show "evolves now h (snd (add_peer E iface ?key (address_of e (kr_epoch r)) h))"
      by (rule same_clients_evolve) simp
    fix a h1 assume "add_peer E iface ?key (address_of e (kr_epoch r)) h = (Inr a, h1)"
    then have "hb_state h1 = hb_state h" using peers_state(2) by (metis snd_conv)
    then have "client_of (kr_client r) h1 = Some c" using assms by (simp add: client_of_def)
    from on_client_evolves [OF this, where f = "\<lambda>c. c\<lparr>cs_pending := Some ?p\<rparr>", OF step]
    show "evolves now h1 (snd (Inr (), on_client (kr_client r) (\<lambda>c. c\<lparr>cs_pending := Some ?p\<rparr>) h1))" by simp
  qed
  with True show ?thesis by (simp add: prepare_identity_def Let_def)
next
  case False
  then show ?thesis
    by (auto simp: prepare_identity_def Let_def evolution.R_refl split: option.splits)
qed

lemma commit_identity_evolves:
  assumes "client_of (kr_client r) h = Some c"
  shows "evolves now h (snd (commit_identity E iface now r c h))"
proof (cases "\<exists>p. cs_pending c = Some p \<and> pi_epoch p = kr_epoch r \<and> pi_key p = key_of_request r")
  case True
  let ?key = "key_of_request r"
  let ?f = "\<lambda>c. c\<lparr>cs_previous := Some \<lparr>qi_key = cs_key c, qi_expires = now + overlap_seconds\<rparr>,
      cs_epoch := kr_epoch r, cs_key := ?key, cs_pending := None\<rparr>"
  from True obtain p where p: "cs_pending c = Some p" "pi_epoch p = kr_epoch r" "pi_key p = ?key" by blast
  have step: "client_step now c (?f c)"
    using commit_prepared [OF p(1), of now] p(2,3) by (simp add: overlap_seconds_def)
  have "evolves now h (snd (ctl_then (recent_handshake E iface ?key now h) (\<lambda>ok h.
      if \<not> ok then (Inl (Bail ''new identity has not completed a recent WireGuard handshake''), h)
      else (Inr (), on_client (kr_client r) ?f h))))"
  proof (rule evolution.then_rel)
    show "evolves now h (snd (recent_handshake E iface ?key now h))" by (rule same_clients_evolve) simp
    fix a h1 assume "recent_handshake E iface ?key now h = (Inr a, h1)"
    then have "hb_state h1 = hb_state h" using peers_state(3) by (metis snd_conv)
    then have "client_of (kr_client r) h1 = Some c" using assms by (simp add: client_of_def)
    from on_client_evolves [OF this, where f = ?f, OF step]
    show "evolves now h1 (snd (if \<not> a
        then (Inl (Bail ''new identity has not completed a recent WireGuard handshake''), h1)
        else (Inr (), on_client (kr_client r) ?f h1)))"
      by (simp add: evolution.R_refl)
  qed
  with p show ?thesis by (simp add: commit_identity_def Let_def evolution.R_refl)
next
  case False
  then show ?thesis
    by (auto simp: commit_identity_def Let_def evolution.R_refl split: option.splits)
qed

lemma change_identity_evolves: "evolves now h (snd (change_identity E iface e now r h))"
  by (auto simp: change_identity_def evolution.R_refl prepare_identity_evolves commit_identity_evolves
      split: option.splits action.splits)

lemma accept_request_evolves: "evolves now h (snd (accept_request E iface es now v4 ip r h))"
proof (cases "map_of es (kr_client r)")
  case (Some e)
  have "evolves now h (snd (ctl_then (change_identity E iface e now r h) (\<lambda>_ h. admission E v4 ip h)))"
    by (rule evolution.then_rel [OF change_identity_evolves]) (simp add: same_clients_evolve)
  with Some show ?thesis by (simp add: accept_request_def)
qed (simp add: accept_request_def evolution.R_refl)

text \<open>
  What every operation of the loop respects, the loop respects: a relation kept by the clean-up, by
  saving and sending, by recording the verifier's nonces and by the closure \<open>accepted\<close>.
\<close>

locale loop_relation = ctl_relation +
  fixes E :: os and iface :: string and es :: "(string \<times> enrollment) list" and now :: nat
  assumes cleanup_rel: "R h (snd (cleanup E iface now h))"
    and save_rel: "R h (snd (save E h))"
    and send_rel: "R h (snd (send_ack E a ip h))"
    and verifier_rel: "R h (h\<lparr>hb_verifier := v\<rparr>)"
    and nonces_rel: "R h (h\<lparr>hb_verifier := v, hb_state := (hb_state h)\<lparr>hs_nonces := ns\<rparr>\<rparr>)"
    and accept_rel: "R h (snd (accept_request E iface es now v4 ip r h))"
begin

lemma reply_rel:
  "R h (snd (ctl_then (save E h) (\<lambda>_ h.
     case acknowledge K r now (hb_verifier h) of Inl e \<Rightarrow> (Inl e, h) | Inr a \<Rightarrow> send_ack E a ip h)))"
  by (rule then_rel [OF save_rel]) (auto simp: R_refl send_rel split: sum.splits)

lemma handle_datagram_rel: "R h (snd (handle_datagram E K iface es now bytes v4 ip h))"
proof -
  obtain x v where a: "authenticate K (take (max_knock_bytes + 1) bytes) now (hb_verifier h) = (x, v)"
    by (cases "authenticate K (take (max_knock_bytes + 1) bytes) now (hb_verifier h)")
  show ?thesis
  proof (cases x)
    case (Inl err)
    with a show ?thesis by (simp add: handle_datagram_def verifier_rel)
  next
    case (Inr s)
    let ?h = "h\<lparr>hb_verifier := v, hb_state := (hb_state h)\<lparr>hs_nonces := nonce_entries v\<rparr>\<rparr>"
    define rest where "rest h = (case accept_request E iface es now v4 ip (sr_request s) h of
            (Inl _, h) \<Rightarrow> (Inr (), h)
          | (Inr _, h) \<Rightarrow>
              ctl_then (save E h) (\<lambda>_ h.
              case acknowledge K (sr_request s) now (hb_verifier h) of
                Inl e \<Rightarrow> (Inl e, h)
              | Inr a \<Rightarrow> send_ack E a ip h))" for h
    have "R h1 (snd (rest h1))" for h1
    proof -
      obtain y h2 where y: "accept_request E iface es now v4 ip (sr_request s) h1 = (y, h2)"
        by (cases "accept_request E iface es now v4 ip (sr_request s) h1")
      have e2: "R h1 h2" using accept_rel [of h1 v4 ip "sr_request s"] y by simp
      show ?thesis using e2 R_trans [OF e2 reply_rel] by (cases y) (simp_all add: rest_def y)
    qed
    then have "R ?h (snd (ctl_then (save E ?h) (\<lambda>_. rest)))" by (intro then_rel save_rel)
    from R_trans [OF nonces_rel this] a Inr show ?thesis
      by (simp add: handle_datagram_def rest_def [abs_def])
  qed
qed

lemma serve_one_rel: "R h (snd (serve_one E K iface es now a h))"
  unfolding serve_one_def
proof (rule then_rel [OF cleanup_rel])
  fix changed h1
  show "R h1 (snd (ctl_then (if changed then save E h1 else (Inr (), h1)) (\<lambda>_ h.
     case a of
       Quiet \<Rightarrow> (Inr (), h)
     | SocketError \<Rightarrow> (Inl (Io ''recv''), h)
     | Datagram bytes v4 ip \<Rightarrow> handle_datagram E K iface es now bytes v4 ip h)))"
    by (rule then_rel) (auto simp: save_rel R_refl handle_datagram_rel split: arrival.splits)
qed

end

lemma send_ack_state [simp]: "hb_state (snd (send_ack E a ip h)) = hb_state h"
  by (simp add: send_ack_def split: sum.splits)

interpretation loop_evolution: loop_relation "evolves now" E iface es now for now E iface es
proof
  fix h v ns v4 ip r
  show "evolves now h (snd (cleanup E iface now h))" by (rule cleanup_evolves)
  show "evolves now h (snd (accept_request E iface es now v4 ip r h))" by (rule accept_request_evolves)
  show "evolves now h (h\<lparr>hb_verifier := v, hb_state := (hb_state h)\<lparr>hs_nonces := ns\<rparr>\<rparr>)"
    by (auto simp: evolves_def client_ids_def client_of_def)
qed (simp_all add: same_clients_evolve)

section \<open>Acknowledgements are durable\<close>

lemma drop_quiet: "quiet h (snd (drop_pending E iface now i h))" "quiet h (snd (drop_previous E iface now i h))"
proof -
  have "quiet h (snd (ctl_then (remove_peer E iface k (on_client i f h)) (\<lambda>_ h. (Inr True, h))))" for k f
    by (rule quiet_ctl.R_trans [OF on_client_quiet quiet_ctl.then_done [OF peers_quiet(1)]])
  then show "quiet h (snd (drop_pending E iface now i h))" "quiet h (snd (drop_previous E iface now i h))"
    by (auto simp: drop_pending_def drop_previous_def quiet_ctl.R_refl split: option.splits)
qed

lemma cleanup_quiet: "quiet h (snd (cleanup E iface now h))"
proof -
  have "quiet h (snd (cleanup_each E iface now ids changed h))" for ids changed
  proof (induction ids arbitrary: changed h)
    case (Cons i ids)
    show ?case
      by (simp, rule quiet_ctl.then_rel [OF drop_quiet(1)], rule quiet_ctl.then_rel [OF drop_quiet(2)],
          rule Cons.IH)
  qed (simp add: quiet_ctl.R_refl)
  then show ?thesis by (simp add: cleanup_def)
qed

lemma prepare_identity_quiet: "quiet h (snd (prepare_identity E iface e now r c h))"
  by (auto simp: prepare_identity_def Let_def quiet_ctl.R_refl on_client_quiet split: option.splits
      intro!: quiet_ctl.then_rel [OF peers_quiet(2)])

lemma commit_identity_quiet: "quiet h (snd (commit_identity E iface now r c h))"
  by (auto simp: commit_identity_def Let_def quiet_ctl.R_refl on_client_quiet split: option.splits
      intro!: quiet_ctl.then_rel [OF peers_quiet(3)])

lemma change_identity_quiet: "quiet h (snd (change_identity E iface e now r h))"
  by (auto simp: change_identity_def quiet_ctl.R_refl prepare_identity_quiet commit_identity_quiet
      split: option.splits action.splits)

lemma accept_request_quiet: "quiet h (snd (accept_request E iface es now v4 ip r h))"
proof (cases "map_of es (kr_client r)")
  case (Some e)
  have "quiet h (snd (ctl_then (change_identity E iface e now r h) (\<lambda>_ h. admission E v4 ip h)))"
    by (rule quiet_ctl.then_rel [OF change_identity_quiet]) (rule admission_quiet)
  with Some show ?thesis by (simp add: accept_request_def)
qed (simp add: accept_request_def quiet_ctl.R_refl)

text \<open>What a client's state must hold for a request to be acknowledged.\<close>

definition carried_out :: "knock_request \<Rightarrow> client_state \<Rightarrow> bool" where
  "carried_out r c \<longleftrightarrow>
     (case kr_action r of
        Open \<Rightarrow> cs_epoch c = kr_epoch r
      | PrepareRotation \<Rightarrow>
          (case cs_pending c of None \<Rightarrow> False | Some p \<Rightarrow> pi_epoch p = kr_epoch r \<and> pi_key p = key_of_request r)
      | CommitRotation \<Rightarrow> cs_epoch c = kr_epoch r \<and> cs_key c = key_of_request r)"

lemma add_peer_state: "add_peer E iface key address h = (x, h1) \<Longrightarrow> hb_state h1 = hb_state h"
  using peers_state(2) by (metis snd_conv)

lemma recent_handshake_state: "recent_handshake E iface key now h = (x, h1) \<Longrightarrow> hb_state h1 = hb_state h"
  using peers_state(3) by (metis snd_conv)

lemma change_identity_done:
  assumes "change_identity E iface e now r h = (Inr u, h')"
  shows "\<exists>c. client_of (kr_client r) h' = Some c \<and> carried_out r c"
proof -
  from assms obtain c where c: "client_of (kr_client r) h = Some c"
    by (auto simp: change_identity_def split: if_splits option.splits)
  note [simp] = c
  show ?thesis
  proof (cases "kr_action r")
    case Open
    with assms have "kr_epoch r = cs_epoch c" "h' = h" by (auto simp: change_identity_def ensure_eq_Inr)
    with Open c show ?thesis by (simp add: carried_out_def)
  next
    case PrepareRotation
    with assms have p: "prepare_identity E iface e now r c h = (Inr u, h')"
      by (auto simp: change_identity_def split: if_splits)
    show ?thesis
    proof (cases "cs_pending c")
      case (Some q)
      with p have "pi_epoch q = kr_epoch r" "pi_key q = key_of_request r" "h' = h"
        by (auto simp: prepare_identity_def Let_def ensure_eq_Inr split: if_splits)
      with Some PrepareRotation c show ?thesis by (simp add: carried_out_def)
    next
      case None
      with p obtain a h1 where "add_peer E iface (key_of_request r) (address_of e (kr_epoch r)) h = (Inr a, h1)"
        and h': "h' = on_client (kr_client r) (\<lambda>c. c\<lparr>cs_pending := Some \<lparr>pi_epoch = kr_epoch r,
            pi_key = key_of_request r, pi_expires = now + 60\<rparr>\<rparr>) h1"
        by (auto simp: prepare_identity_def Let_def ctl_then_Inr split: if_splits)
      from add_peer_state [OF this(1)] have "client_of (kr_client r) h1 = Some c"
        using c by (simp add: client_of_def)
      with h' PrepareRotation show ?thesis by (simp add: client_of_on_client carried_out_def)
    qed
  next
    case CommitRotation
    with assms have p: "commit_identity E iface now r c h = (Inr u, h')"
      by (auto simp: change_identity_def split: if_splits)
    show ?thesis
    proof (cases "kr_epoch r = cs_epoch c \<and> key_of_request r = cs_key c")
      case True
      with p have "h' = h" by (simp add: commit_identity_def Let_def)
      with True CommitRotation c show ?thesis by (simp add: carried_out_def)
    next
      case False
      then obtain a h1 where "recent_handshake E iface (key_of_request r) now h = (Inr a, h1)"
        and h': "h' = on_client (kr_client r) (\<lambda>c. c\<lparr>
              cs_previous := Some \<lparr>qi_key = cs_key c, qi_expires = now + overlap_seconds\<rparr>,
              cs_epoch := kr_epoch r, cs_key := key_of_request r, cs_pending := None\<rparr>) h1"
        using p by (auto simp: commit_identity_def Let_def ctl_then_Inr split: if_splits option.splits)
      from recent_handshake_state [OF this(1)] have "client_of (kr_client r) h1 = Some c"
        using c by (simp add: client_of_def)
      with h' CommitRotation show ?thesis by (simp add: client_of_on_client carried_out_def)
    qed
  qed
qed

lemma admission_done:
  assumes "admission E v4 ip h = (Inr u, h')"
  shows "hb_state h' = hb_state h \<and> (\<exists>es. hb_trace h' = hb_trace h @ es @ [Ran ''nft'' (nft_add ip) True]
     \<and> (\<forall>a ip. Sent a ip \<notin> set es))"
  using assms
  by (auto simp: admission_def execute_def Let_def ctl_then_Inr is_ok_def split: if_splits)

text \<open>The closure \<open>accepted\<close> returned \<open>Ok\<close>: the client's address was admitted, and its state carries
  the request out.\<close>

lemma accept_request_done:
  assumes "accept_request E iface es now v4 ip r h = (Inr u, h')"
  shows "(\<exists>c. client_of (kr_client r) h' = Some c \<and> carried_out r c)
     \<and> (\<exists>tr. hb_trace h' = hb_trace h @ tr @ [Ran ''nft'' (nft_add ip) True] \<and> (\<forall>a ip. Sent a ip \<notin> set tr))
     \<and> hs_nonces (hb_state h') = hs_nonces (hb_state h) \<and> hb_verifier h' = hb_verifier h"
proof -
  from assms obtain e a h1 where e: "map_of es (kr_client r) = Some e"
    and c: "change_identity E iface e now r h = (Inr a, h1)" and ad: "admission E v4 ip h1 = (Inr u, h')"
    by (auto simp: accept_request_def ctl_then_Inr split: option.splits)
  from admission_done [OF ad] obtain es1 where st: "hb_state h' = hb_state h1"
    and t1: "hb_trace h' = hb_trace h1 @ es1 @ [Ran ''nft'' (nft_add ip) True]" "\<forall>a ip. Sent a ip \<notin> set es1" by blast
  have q: "quiet h h1" using change_identity_quiet [of h E iface e now r] c by simp
  then obtain es0 where t0: "hb_trace h1 = hb_trace h @ es0" "\<forall>a ip. Sent a ip \<notin> set es0"
    and n: "hs_nonces (hb_state h1) = hs_nonces (hb_state h)" "hb_verifier h1 = hb_verifier h"
    by (auto simp: quiet_def)
  have "hb_verifier h' = hb_verifier h1" using admission_quiet [of h1 E v4 ip] ad by (simp add: quiet_def)
  moreover have "client_of (kr_client r) h' = client_of (kr_client r) h1" by (simp add: client_of_def st)
  moreover have "hb_trace h' = hb_trace h @ (es0 @ es1) @ [Ran ''nft'' (nft_add ip) True]"
    "\<forall>a ip. Sent a ip \<notin> set (es0 @ es1)" using t0 t1 by auto
  ultimately show ?thesis using change_identity_done [OF c] n st by metis
qed

lemma save_cases:
  obtains e where "save E h = (Inl e, h\<lparr>hb_trace := hb_trace h @ [SaveFailed]\<rparr>)"
  | "save E h = (Inr (), h\<lparr>hb_trace := hb_trace h @ [Saved (hb_state h)]\<rparr>)"
  by (cases "os_save E (hb_trace h) (hb_state h)") (simp_all add: save_def)

definition durable_reply :: "event list \<Rightarrow> hub_state \<Rightarrow> signed_ack \<Rightarrow> string \<Rightarrow> crypto \<Rightarrow> verifier \<Rightarrow> nat \<Rightarrow> bool" where
  "durable_reply es st a ip K v now \<longleftrightarrow>
     (\<exists>pre r secret c. es = pre @ [Ran ''nft'' (nft_add ip) True, Saved st, Sent a ip]
        \<and> map_of (vf_secrets v) (kr_client r) = Some secret \<and> a = issue_ack K r secret now
        \<and> nonce_key r \<in> (\<lambda>(i, n, e). (i, n)) ` set (hs_nonces st)
        \<and> map_of (hs_clients st) (kr_client r) = Some c \<and> carried_out r c)"

lemma durable_replyI:
  "es = pre @ [Ran ''nft'' (nft_add ip) True, Saved st, Sent a ip] \<Longrightarrow>
   map_of (vf_secrets v) (kr_client r) = Some secret \<Longrightarrow> a = issue_ack K r secret now \<Longrightarrow>
   nonce_key r \<in> (\<lambda>(i, n, e). (i, n)) ` set (hs_nonces st) \<Longrightarrow>
   map_of (hs_clients st) (kr_client r) = Some c \<Longrightarrow> carried_out r c \<Longrightarrow>
   durable_reply es st a ip K v now"
  unfolding durable_reply_def by blast

lemma handle_datagram_reply:
  assumes "handle_datagram E K iface es now bytes v4 ip h = (x, h')" and "hb_trace h' = hb_trace h @ tr"
    and "Sent a to \<in> set tr"
  shows "to = ip \<and> durable_reply tr (hb_state h') a ip K (hb_verifier h) now"
proof -
  obtain y v where au: "authenticate K (take (max_knock_bytes + 1) bytes) now (hb_verifier h) = (y, v)"
    by (cases "authenticate K (take (max_knock_bytes + 1) bytes) now (hb_verifier h)")
  show ?thesis
  proof (cases y)
    case (Inl err)
    with au assms(1) have "h' = h\<lparr>hb_verifier := v\<rparr>" by (simp add: handle_datagram_def)
    with assms(2,3) show ?thesis by simp
  next
    case (Inr s)
    let ?r = "sr_request s"
    let ?h = "h\<lparr>hb_verifier := v, hb_state := (hb_state h)\<lparr>hs_nonces := nonce_entries v\<rparr>\<rparr>"
    define rest where "rest h = (case accept_request E iface es now v4 ip ?r h of
            (Inl _, h) \<Rightarrow> (Inr (), h)
          | (Inr _, h) \<Rightarrow>
              ctl_then (save E h) (\<lambda>_ h.
              case acknowledge K ?r now (hb_verifier h) of
                Inl e \<Rightarrow> (Inl e, h)
              | Inr a \<Rightarrow> send_ack E a ip h))" for h
    have run: "ctl_then (save E ?h) (\<lambda>_. rest) = (x, h')"
      using assms(1) au Inr by (simp add: handle_datagram_def rest_def [abs_def])
    have secrets: "vf_secrets v = vf_secrets (hb_verifier h)"
      and nonce: "nonce_key ?r \<in> fst ` set (vf_nonces v)"
      using authenticate_Inr [OF au [unfolded Inr]] by (simp_all add: put_nonce_def)
    have stored: "nonce_key ?r \<in> (\<lambda>(i, n, e). (i, n)) ` set (nonce_entries v)"
      using nonce by (force simp: nonce_entries_def)
    from save_cases [of E ?h] show ?thesis
    proof cases
      case (1 e)
      with run assms(2,3) show ?thesis by auto
    next
      case 2
      let ?h1 = "?h\<lparr>hb_trace := hb_trace ?h @ [Saved (hb_state ?h)]\<rparr>"
      from run 2 have r1: "rest ?h1 = (x, h')" by simp
      obtain z h2 where z: "accept_request E iface es now v4 ip ?r ?h1 = (z, h2)"
        by (cases "accept_request E iface es now v4 ip ?r ?h1")
      show ?thesis
      proof (cases z)
        case (Inl e)
        from r1 z Inl have "h' = h2" by (simp add: rest_def)
        have "quiet ?h1 h2"
          using z accept_request_quiet [of ?h1 E iface es now v4 ip ?r] by simp
        with \<open>h' = h2\<close> assms(2,3) show ?thesis by (auto simp: quiet_def)
      next
        case (Inr u)
        from accept_request_done [OF z [unfolded Inr]] obtain c mid where
          c: "client_of (kr_client ?r) h2 = Some c" "carried_out ?r c"
          and t2: "hb_trace h2 = hb_trace ?h1 @ mid @ [Ran ''nft'' (nft_add ip) True]"
          and quiet: "\<forall>a ip. Sent a ip \<notin> set mid"
          and n: "hs_nonces (hb_state h2) = nonce_entries v" "hb_verifier h2 = v" by auto
        from r1 z Inr have r2: "ctl_then (save E h2) (\<lambda>_ h.
              case acknowledge K ?r now (hb_verifier h) of
                Inl e \<Rightarrow> (Inl e, h)
              | Inr a \<Rightarrow> send_ack E a ip h) = (x, h')" by (simp add: rest_def)
        from save_cases [of E h2] show ?thesis
        proof cases
          case (1 e)
          with r2 t2 quiet assms(2,3) show ?thesis by auto
        next
          case 2
          let ?h3 = "h2\<lparr>hb_trace := hb_trace h2 @ [Saved (hb_state h2)]\<rparr>"
          from r2 2 n have r3: "(case acknowledge K ?r now v of Inl e \<Rightarrow> (Inl e, ?h3)
              | Inr a \<Rightarrow> send_ack E a ip ?h3) = (x, h')" by simp
          show ?thesis
          proof (cases "acknowledge K ?r now v")
            case (Inl e)
            with r3 t2 quiet assms(2,3) show ?thesis by auto
          next
            case (Inr b)
            with r3 have r4: "send_ack E b ip ?h3 = (x, h')" by simp
            have t3: "hb_trace ?h3 = hb_trace h @ (Saved (hb_state ?h) # mid) @ [Ran ''nft'' (nft_add ip) True, Saved (hb_state h2)]"
              using t2 by simp
            show ?thesis
            proof (cases "os_send E (hb_trace ?h3) b ip")
              case (Inl e)
              with r4 t2 quiet assms(2,3) show ?thesis by (auto simp: send_ack_def)
            next
              case (Inr w)
              with r4 have h': "h' = ?h3\<lparr>hb_trace := hb_trace ?h3 @ [Sent b ip]\<rparr>" by (simp add: send_ack_def)
              then have tr: "tr = (Saved (hb_state ?h) # mid) @ [Ran ''nft'' (nft_add ip) True, Saved (hb_state h2), Sent b ip]"
                using assms(2) t3 by simp
              with assms(3) quiet have same: "a = b" "to = ip" by auto
              from \<open>acknowledge K ?r now v = Inr b\<close> obtain secret where
                sec: "map_of (vf_secrets v) (kr_client ?r) = Some secret" "b = issue_ack K ?r secret now"
                by (auto simp: acknowledge_def res_simps)
              have "durable_reply tr (hb_state h2) b ip K (hb_verifier h) now"
                by (rule durable_replyI [OF tr])
                  (use sec secrets n stored c in \<open>simp_all add: client_of_def\<close>)
              with h' same show ?thesis by simp
            qed
          qed
        qed
      qed
    qed
  qed
qed

section \<open>Keys stay apart\<close>

definition keys_of :: "client_state \<Rightarrow> string list" where
  "keys_of c = cs_key c # map pi_key (case cs_pending c of None \<Rightarrow> [] | Some p \<Rightarrow> [p])
     @ map qi_key (case cs_previous c of None \<Rightarrow> [] | Some q \<Rightarrow> [q])"

lemma holds_key_iff: "holds_key k c \<longleftrightarrow> k \<in> set (keys_of c)"
  by (auto simp: holds_key_def keys_of_def split: option.splits)

definition clients_apart :: "(string \<times> client_state) list \<Rightarrow> bool" where
  "clients_apart cs \<longleftrightarrow> distinct (map fst cs)
     \<and> (\<forall>i j c c'. map_of cs i = Some c \<longrightarrow> map_of cs j = Some c' \<longrightarrow> i \<noteq> j \<longrightarrow>
          set (keys_of c) \<inter> set (keys_of c') = {})"

definition keys_apart :: "hub \<Rightarrow> bool" where
  "keys_apart h \<longleftrightarrow> clients_apart (hs_clients (hb_state h))"

lemmas keys_apart_same = keys_apart_def

lemma keys_apart_iff:
  "keys_apart h \<longleftrightarrow> distinct (client_ids h)
     \<and> (\<forall>i j c c'. client_of i h = Some c \<longrightarrow> client_of j h = Some c' \<longrightarrow> i \<noteq> j \<longrightarrow>
          set (keys_of c) \<inter> set (keys_of c') = {})"
  by (simp add: keys_apart_def clients_apart_def client_ids_def client_of_def)

interpretation keys_ctl: ctl_relation "\<lambda>h h'. keys_apart h \<longrightarrow> keys_apart h'"
  by unfold_locales auto

lemma on_client_apart:
  assumes "keys_apart h"
    and "\<And>c k. client_of i h = Some c \<Longrightarrow> k \<in> set (keys_of (f c)) \<Longrightarrow> k \<in> set (keys_of c) \<or> \<not> assigned_elsewhere i k h"
  shows "keys_apart (on_client i f h)"
proof -
  have d: "distinct (client_ids h)" using assms(1) by (simp add: keys_apart_iff)
  have old: "set (keys_of c) \<inter> set (keys_of c') = {}"
    if "client_of j h = Some c" "client_of k h = Some c'" "j \<noteq> k" for j k c c'
    using assms(1) that by (auto simp: keys_apart_iff)
  have fresh: "k \<notin> set (keys_of c')"
    if "client_of i h = Some c" "k \<in> set (keys_of (f c))" "client_of j h = Some c'" "j \<noteq> i" for c k j c'
  proof
    assume k: "k \<in> set (keys_of c')"
    have "(j, c') \<in> set (hs_clients (hb_state h))" using that(3) by (auto simp: client_of_def dest: map_of_SomeD)
    with k that(4) have "assigned_elsewhere i k h"
      by (auto simp: assigned_elsewhere_def list_ex_iff holds_key_iff)
    with assms(2) [OF that(1,2)] have "k \<in> set (keys_of c)" by blast
    with k old [OF that(1,3)] that(4) show False by auto
  qed
  show ?thesis
    unfolding keys_apart_iff
  proof (intro conjI allI impI)
    show "distinct (client_ids (on_client i f h))" using d by simp
    fix j k c c'
    assume a: "client_of j (on_client i f h) = Some c" "client_of k (on_client i f h) = Some c'" "j \<noteq> k"
    consider "j = i" "k \<noteq> i" | "k = i" "j \<noteq> i" | "j \<noteq> i" "k \<noteq> i" using a(3) by blast
    then show "set (keys_of c) \<inter> set (keys_of c') = {}"
    proof cases
      case 1
      with a obtain c0 where "client_of i h = Some c0" "c = f c0" "client_of k h = Some c'"
        by (auto simp: client_of_on_client)
      with fresh 1 show ?thesis by blast
    next
      case 2
      with a obtain c0 where "client_of i h = Some c0" "c' = f c0" "client_of j h = Some c"
        by (auto simp: client_of_on_client)
      with fresh 2 show ?thesis by blast
    next
      case 3
      with a old show ?thesis by (auto simp: client_of_on_client)
    qed
  qed
qed

lemma drop_apart:
  "keys_apart h \<Longrightarrow> keys_apart (on_client i (\<lambda>c. c\<lparr>cs_pending := None\<rparr>) h)"
  "keys_apart h \<Longrightarrow> keys_apart (on_client i (\<lambda>c. c\<lparr>cs_previous := None\<rparr>) h)"
  by (rule on_client_apart; auto simp: keys_of_def)+

lemma drop_keys:
  "keys_apart h \<longrightarrow> keys_apart (snd (drop_pending E iface now i h))"
  "keys_apart h \<longrightarrow> keys_apart (snd (drop_previous E iface now i h))"
proof -
  have "keys_apart g \<longrightarrow> keys_apart (snd (ctl_then (remove_peer E iface k g) (\<lambda>_ h. (Inr True, h))))" for k g
    by (rule keys_ctl.then_done) (simp add: keys_apart_same)
  then show "keys_apart h \<longrightarrow> keys_apart (snd (drop_pending E iface now i h))"
    "keys_apart h \<longrightarrow> keys_apart (snd (drop_previous E iface now i h))"
    by (auto simp: drop_pending_def drop_previous_def drop_apart split: option.splits)
qed

lemma cleanup_keys: "keys_apart h \<longrightarrow> keys_apart (snd (cleanup E iface now h))"
proof -
  have "keys_apart h \<longrightarrow> keys_apart (snd (cleanup_each E iface now ids changed h))" for ids changed
  proof (induction ids arbitrary: changed h)
    case (Cons i ids)
    show ?case
      by (simp only: cleanup_each.simps, rule keys_ctl.then_rel [OF drop_keys(1)],
          rule keys_ctl.then_rel [OF drop_keys(2)], rule Cons.IH)
  qed simp
  then show ?thesis by (simp add: cleanup_def)
qed

lemma prepare_identity_keys:
  assumes "\<not> assigned_elsewhere (kr_client r) (key_of_request r) h"
  shows "keys_apart h \<longrightarrow> keys_apart (snd (prepare_identity E iface e now r c h))"
proof -
  let ?f = "\<lambda>c. c\<lparr>cs_pending := Some \<lparr>pi_epoch = kr_epoch r, pi_key = key_of_request r, pi_expires = now + 60\<rparr>\<rparr>"
  have "keys_apart h \<longrightarrow> keys_apart (snd (ctl_then (add_peer E iface (key_of_request r) (address_of e (kr_epoch r)) h)
      (\<lambda>_ h. (Inr (), on_client (kr_client r) ?f h))))"
  proof (rule keys_ctl.then_rel)
    fix a h1 assume "add_peer E iface (key_of_request r) (address_of e (kr_epoch r)) h = (Inr a, h1)"
    then have "hb_state h1 = hb_state h" by (rule add_peer_state)
    with assms have free: "\<not> assigned_elsewhere (kr_client r) (key_of_request r) h1"
      by (simp add: assigned_elsewhere_def)
    have "keys_apart (on_client (kr_client r) ?f h1)" if "keys_apart h1"
      by (rule on_client_apart [OF that]) (use free in \<open>auto simp: keys_of_def\<close>)
    then show "keys_apart h1 \<longrightarrow> keys_apart (snd (Inr () :: unit res, on_client (kr_client r) ?f h1))" by simp
  qed (simp add: keys_apart_same)
  then show ?thesis by (auto simp: prepare_identity_def Let_def split: option.splits)
qed

lemma commit_identity_keys:
  assumes "client_of (kr_client r) h = Some c"
  shows "keys_apart h \<longrightarrow> keys_apart (snd (commit_identity E iface now r c h))"
proof (cases "\<exists>p. cs_pending c = Some p \<and> pi_epoch p = kr_epoch r \<and> pi_key p = key_of_request r")
  case True
  let ?key = "key_of_request r"
  let ?f = "\<lambda>c. c\<lparr>cs_previous := Some \<lparr>qi_key = cs_key c, qi_expires = now + overlap_seconds\<rparr>,
      cs_epoch := kr_epoch r, cs_key := ?key, cs_pending := None\<rparr>"
  have "keys_apart h \<longrightarrow> keys_apart (snd (ctl_then (recent_handshake E iface ?key now h) (\<lambda>ok h.
      if \<not> ok then (Inl (Bail ''new identity has not completed a recent WireGuard handshake''), h)
      else (Inr (), on_client (kr_client r) ?f h))))"
  proof (rule keys_ctl.then_rel)
    fix a h1 assume "recent_handshake E iface ?key now h = (Inr a, h1)"
    then have "hb_state h1 = hb_state h" by (rule recent_handshake_state)
    then have c: "client_of (kr_client r) h1 = Some c" using assms by (simp add: client_of_def)
    have "keys_apart (on_client (kr_client r) ?f h1)" if "keys_apart h1"
      by (rule on_client_apart [OF that]) (use c True in \<open>auto simp: keys_of_def\<close>)
    then show "keys_apart h1 \<longrightarrow> keys_apart (snd (if \<not> a
        then (Inl (Bail ''new identity has not completed a recent WireGuard handshake''), h1)
        else (Inr (), on_client (kr_client r) ?f h1)))" by simp
  qed (simp add: keys_apart_same)
  with True show ?thesis by (auto simp: commit_identity_def Let_def)
next
  case False
  then show ?thesis by (auto simp: commit_identity_def Let_def split: option.splits)
qed

lemma accept_request_keys: "keys_apart h \<longrightarrow> keys_apart (snd (accept_request E iface es now v4 ip r h))"
proof (cases "map_of es (kr_client r)")
  case (Some e)
  have "keys_apart h \<longrightarrow> keys_apart (snd (change_identity E iface e now r h))"
    using prepare_identity_keys [of r h E iface e now] commit_identity_keys [of r h _ E iface now]
    by (auto simp: change_identity_def split: option.splits action.splits)
  then have "keys_apart h \<longrightarrow> keys_apart (snd (ctl_then (change_identity E iface e now r h) (\<lambda>_ h. admission E v4 ip h)))"
    by (rule keys_ctl.then_rel) (simp add: keys_apart_same)
  with Some show ?thesis by (simp add: accept_request_def)
qed (simp add: accept_request_def)

interpretation loop_keys: loop_relation "\<lambda>h h'. keys_apart h \<longrightarrow> keys_apart h'" E iface es now for E iface es now
proof
  fix h v4 ip r
  show "keys_apart h \<longrightarrow> keys_apart (snd (cleanup E iface now h))" by (rule cleanup_keys)
  show "keys_apart h \<longrightarrow> keys_apart (snd (accept_request E iface es now v4 ip r h))" by (rule accept_request_keys)
qed (simp_all add: keys_apart_def)

text \<open>The trace only grows.\<close>

interpretation trace_ctl: ctl_relation "\<lambda>h h'. prefix (hb_trace h) (hb_trace h')"
  by unfold_locales auto

lemma quiet_prefix: "quiet h h' \<Longrightarrow> prefix (hb_trace h) (hb_trace h')"
  by (auto simp: quiet_def)

interpretation loop_trace: loop_relation "\<lambda>h h'. prefix (hb_trace h) (hb_trace h')" E iface es now for E iface es now
proof
  fix h v4 ip r and a :: signed_ack
  show "prefix (hb_trace h) (hb_trace (snd (cleanup E iface now h)))" by (rule quiet_prefix [OF cleanup_quiet])
  show "prefix (hb_trace h) (hb_trace (snd (save E h)))" by (simp add: save_def split: sum.splits)
  show "prefix (hb_trace h) (hb_trace (snd (accept_request E iface es now v4 ip r h)))"
    by (rule quiet_prefix [OF accept_request_quiet])
  show "prefix (hb_trace h) (hb_trace (snd (send_ack E a ip h)))"
    by (simp add: send_ack_def split: sum.splits)
qed simp_all

lemma handle_datagram_trace:
  "handle_datagram E K iface es now bytes v4 ip h = (x, h') \<Longrightarrow> \<exists>tr. hb_trace h' = hb_trace h @ tr"
  using loop_trace.handle_datagram_rel [of h E K iface es now bytes v4 ip] by (auto simp: prefix_def)

section \<open>Expired identities\<close>

definition unexpired :: "nat \<Rightarrow> client_state \<Rightarrow> bool" where
  "unexpired now c \<longleftrightarrow> (case cs_pending c of None \<Rightarrow> True | Some p \<Rightarrow> now < pi_expires p)
     \<and> (case cs_previous c of None \<Rightarrow> True | Some q \<Rightarrow> now < qi_expires q)"

definition expire_pending :: "nat \<Rightarrow> client_state \<Rightarrow> client_state" where
  "expire_pending now c = (case cs_pending c of
     Some p \<Rightarrow> if now \<ge> pi_expires p then c\<lparr>cs_pending := None\<rparr> else c | None \<Rightarrow> c)"

definition expire_previous :: "nat \<Rightarrow> client_state \<Rightarrow> client_state" where
  "expire_previous now c = (case cs_previous c of
     Some p \<Rightarrow> if now \<ge> qi_expires p then c\<lparr>cs_previous := None\<rparr> else c | None \<Rightarrow> c)"

lemma expire_both: "unexpired now (expire_previous now (expire_pending now c))"
  by (auto simp: unexpired_def expire_previous_def expire_pending_def split: option.splits)

lemma drop_pending_done:
  assumes "drop_pending E iface now i h = (Inr b, h')"
  shows "client_of j h' = (if j = i then map_option (expire_pending now) (client_of i h)
     else client_of j h)"
proof (cases "Option.bind (client_of i h) cs_pending")
  case None
  with assms show ?thesis
    by (cases "client_of i h") (auto simp: drop_pending_def expire_pending_def)
next
  case (Some p)
  then obtain c where c: "client_of i h = Some c" "cs_pending c = Some p" by (auto simp: bind_eq_Some_conv)
  show ?thesis
  proof (cases "now \<ge> pi_expires p")
    case True
    let ?h = "on_client i (\<lambda>c. c\<lparr>cs_pending := None\<rparr>) h"
    from assms Some True have "hb_state h' = hb_state ?h"
      by (auto simp: drop_pending_def remove_peer_def ctl_then_Inr execute_def Let_def)
    then have "client_of j h' = client_of j ?h" by (simp add: client_of_def)
    with c True show ?thesis by (simp add: client_of_on_client expire_pending_def expire_previous_def)
  next
    case False
    with assms Some c show ?thesis by (auto simp: drop_pending_def expire_pending_def)
  qed
qed

lemma drop_previous_done:
  assumes "drop_previous E iface now i h = (Inr b, h')"
  shows "client_of j h' = (if j = i then map_option (expire_previous now) (client_of i h)
     else client_of j h)"
proof (cases "Option.bind (client_of i h) cs_previous")
  case None
  with assms show ?thesis
    by (cases "client_of i h") (auto simp: drop_previous_def expire_previous_def)
next
  case (Some p)
  then obtain c where c: "client_of i h = Some c" "cs_previous c = Some p" by (auto simp: bind_eq_Some_conv)
  show ?thesis
  proof (cases "now \<ge> qi_expires p")
    case True
    let ?h = "on_client i (\<lambda>c. c\<lparr>cs_previous := None\<rparr>) h"
    from assms Some True have "hb_state h' = hb_state ?h"
      by (auto simp: drop_previous_def remove_peer_def ctl_then_Inr execute_def Let_def)
    then have "client_of j h' = client_of j ?h" by (simp add: client_of_def)
    with c True show ?thesis by (simp add: client_of_on_client expire_pending_def expire_previous_def)
  next
    case False
    with assms Some c show ?thesis by (auto simp: drop_previous_def expire_previous_def)
  qed
qed

lemma cleanup_each_done:
  "cleanup_each E iface now ids changed h = (Inr b, h') \<Longrightarrow> client_of j h' = Some c' \<Longrightarrow>
   \<exists>c. client_of j h = Some c \<and> (j \<in> set ids \<or> unexpired now c \<longrightarrow> unexpired now c')"
proof (induction ids arbitrary: changed h)
  case (Cons i ids)
  from Cons.prems(1) obtain a h1 a2 h2 where p: "drop_pending E iface now i h = (Inr a, h1)"
    and q: "drop_previous E iface now i h1 = (Inr a2, h2)"
    and r: "cleanup_each E iface now ids (changed \<or> a \<or> a2) h2 = (Inr b, h')"
    by (auto simp: ctl_then_Inr)
  from Cons.IH [OF r Cons.prems(2)] obtain c2 where
    c2: "client_of j h2 = Some c2" "j \<in> set ids \<or> unexpired now c2 \<longrightarrow> unexpired now c'" by blast
  show ?case
  proof (cases "j = i")
    case True
    with c2(1) drop_previous_done [OF q, of i] drop_pending_done [OF p, of i] obtain c where
      "client_of j h = Some c" "c2 = expire_previous now (expire_pending now c)" by auto
    with c2 expire_both show ?thesis by blast
  next
    case False
    with c2 drop_previous_done [OF q, of j] drop_pending_done [OF p, of j] show ?thesis by auto
  qed
qed auto

lemma cleanup_done:
  assumes "cleanup E iface now h = (Inr b, h')" and "client_of i h' = Some c"
  shows "unexpired now c"
proof -
  from cleanup_each_done [OF assms(1) [unfolded cleanup_def] assms(2)] obtain c0 where
    "client_of i h = Some c0" and i: "i \<in> set (map fst (hs_clients (hb_state h))) \<longrightarrow> unexpired now c" by blast
  then have "(i, c0) \<in> set (hs_clients (hb_state h))" by (auto simp: client_of_def dest: map_of_SomeD)
  then show ?thesis using i by force
qed

lemma client_step_unexpired: "client_step now c c' \<Longrightarrow> unexpired now c \<Longrightarrow> unexpired now c'"
  by (elim client_stepE) (auto simp: unexpired_def split: option.splits)

text \<open>The invariant of a client: the prepared epoch follows the current one, and a prepared identity
  excludes a previous one.\<close>

definition identity_ok :: "client_state \<Rightarrow> bool" where
  "identity_ok c \<longleftrightarrow>
     (case cs_pending c of
        None \<Rightarrow> True
      | Some p \<Rightarrow> pi_epoch p = cs_epoch c + 1 \<and> pi_key p \<noteq> cs_key c \<and> cs_previous c = None)"

lemma client_step_identity: "client_step now c c' \<Longrightarrow> identity_ok c \<Longrightarrow> identity_ok c'"
  by (elim client_stepE) (auto simp: identity_ok_def split: option.splits)

lemma client_step_epoch:
  assumes "client_step now c c'" and "identity_ok c"
  shows "cs_epoch c' = cs_epoch c \<and> cs_key c' = cs_key c
     \<or> (\<exists>p. cs_pending c = Some p \<and> cs_epoch c' = cs_epoch c + 1 \<and> cs_key c' = pi_key p
          \<and> cs_previous c' = Some \<lparr>qi_key = cs_key c, qi_expires = now + 30\<rparr>)"
  using assms by (elim client_stepE) (auto simp: identity_ok_def)

lemma client_steps:
  "(client_step now)\<^sup>*\<^sup>* c c' \<Longrightarrow> identity_ok c \<Longrightarrow> identity_ok c' \<and> cs_epoch c \<le> cs_epoch c'
     \<and> (cs_epoch c' = cs_epoch c \<longrightarrow> cs_key c' = cs_key c)"
proof (induction rule: rtranclp_induct)
  case (step c1 c2)
  then have ok: "identity_ok c1" by blast
  from client_step_epoch [OF step(2) ok] client_step_identity [OF step(2) ok] step show ?case by force
qed simp

end
