(* ===== verification/ServerProperties.thy ===== *)
theory ServerProperties
  imports VpnServer
begin

text \<open>
  The control loop of the VPN hub as a whole: what an acknowledgement promises, what a start
  guarantees, who owns which key, and how the identity of each client evolves.
\<close>

section \<open>A started hub\<close>

definition enrolled :: "verifier \<Rightarrow> (string \<times> enrollment) list \<Rightarrow> bool" where
  "enrolled v es \<longleftrightarrow> distinct (map fst es) \<and> distinct (map (\<lambda>x. en_key (snd x)) es)
     \<and> (\<forall>x \<in> set es. map_of (vf_secrets v) (fst x) \<noteq> None)
     \<and> (\<forall>x \<in> set es. fst x = en_id (snd x) \<and> is_ok (check_address (en_address0 (snd x)))
          \<and> is_ok (check_address (en_address1 (snd x))) \<and> en_address0 (snd x) \<noteq> en_address1 (snd x))
     \<and> vf_nonces v = []"

lemma enroll_all_enrolled:
  "enroll_all K clients v es = Inr (v', es') \<Longrightarrow> enrolled v es \<Longrightarrow>
     enrolled v' es' \<and> length es' = length es + length clients"
proof (induction K clients v es rule: enroll_all.induct)
  case (2 K e rest v es)
  from "2.prems"(1) obtain k secret v1 where
    ok: "check_address (en_address0 e) = Inr ()" "check_address (en_address1 e) = Inr ()"
      "en_address0 e \<noteq> en_address1 e" "\<not> list_ex (\<lambda>x. clashes (snd x) e) es"
    and s: "decode_key K (en_key e) = Inr k" "decode_key K (en_secret e) = Inr secret" "enroll (en_id e) secret v = Inr v1"
    and rest: "enroll_all K rest v1 (es @ [(en_id e, e)]) = Inr (v', es')"
    by (auto simp: res_simps)
  have v1: "v1 = v\<lparr>vf_secrets := (en_id e, secret) # vf_secrets v\<rparr>" "map_of (vf_secrets v) (en_id e) = None"
    using s(3) by (auto simp: enroll_def res_simps)
  have "en_id e \<notin> fst ` set es" using "2.prems"(2) v1(2) by (force simp: enrolled_def)
  moreover have "en_key e \<notin> (\<lambda>x. en_key (snd x)) ` set es"
    using ok(4) by (force simp: list_ex_iff clashes_def)
  moreover have "map_of (vf_secrets v1) (fst x) \<noteq> None" if "x \<in> set (es @ [(en_id e, e)])" for x
  proof -
    have "\<forall>x \<in> set es. map_of (vf_secrets v) (fst x) \<noteq> None"
      using "2.prems"(2) by (simp only: enrolled_def) blast
    with that v1(1) show ?thesis by auto
  qed
  moreover have "distinct (map fst es)" "distinct (map (\<lambda>x. en_key (snd x)) es)" "vf_nonces v1 = []"
    "\<forall>x \<in> set es. fst x = en_id (snd x) \<and> is_ok (check_address (en_address0 (snd x)))
          \<and> is_ok (check_address (en_address1 (snd x))) \<and> en_address0 (snd x) \<noteq> en_address1 (snd x)"
    using "2.prems"(2) v1(1) by (simp_all add: enrolled_def)
  ultimately have "enrolled v1 (es @ [(en_id e, e)])"
    using ok unfolding enrolled_def by (intro conjI ballI) auto
  from "2.IH" [OF rest this] show ?case
    by (simp add: ensure_def)
qed auto

lemma add_peer_done:
  "add_peer E iface key address h = (Inr u, h') \<Longrightarrow>
     hb_trace h' = hb_trace h @ [Ran ''wg'' [''set'', iface, ''peer'', key, ''allowed-ips'', address] True]"
  by (auto simp: add_peer_def execute_def ctl_then_Inr Let_def is_ok_def)

lemma add_client_peers_done:
  "add_client_peers E iface es cs h = (Inr u, h') \<Longrightarrow>
     hb_state h' = hb_state h \<and> hb_verifier h' = hb_verifier h \<and> prefix (hb_trace h) (hb_trace h')
     \<and> (\<forall>(i, c) \<in> set cs. \<exists>e. map_of es i = Some e \<and>
          Ran ''wg'' [''set'', iface, ''peer'', cs_key c, ''allowed-ips'', address_of e (cs_epoch c)] True \<in> set (hb_trace h'))"
proof (induction cs arbitrary: h)
  case (Cons x cs)
  obtain i c where x: "x = (i, c)" by (cases x)
  from Cons.prems x obtain e h1 h2 h3 where e: "map_of es i = Some e"
    and p1: "add_peer E iface (cs_key c) (address_of e (cs_epoch c)) h = (Inr (), h1)"
    and p2: "(case cs_pending c of None \<Rightarrow> (Inr (), h1)
            | Some p \<Rightarrow> add_peer E iface (pi_key p) (address_of e (pi_epoch p)) h1) = (Inr (), h2)"
    and p3: "(case cs_previous c of None \<Rightarrow> (Inr (), h2)
            | Some p \<Rightarrow> add_peer E iface (qi_key p) (address_of e (cs_epoch c + 1)) h2) = (Inr (), h3)"
    and rest: "add_client_peers E iface es cs h3 = (Inr u, h')"
    by (cases "map_of es i") (simp_all add: ctl_then_Inr, blast)
  have peer: "hb_state g' = hb_state g \<and> hb_verifier g' = hb_verifier g \<and> prefix (hb_trace g) (hb_trace g')"
    if "add_peer E iface k ad g = (y, g')" for k ad g y g'
    using that peers_quiet(2) [of g E iface k ad] peers_state(2) [of E iface k ad g]
    by (simp add: quiet_def) (auto simp: quiet_prefix)
  have h2: "hb_state h2 = hb_state h1 \<and> hb_verifier h2 = hb_verifier h1 \<and> prefix (hb_trace h1) (hb_trace h2)"
    using p2 peer by (cases "cs_pending c") auto
  have h3: "hb_state h3 = hb_state h2 \<and> hb_verifier h3 = hb_verifier h2 \<and> prefix (hb_trace h2) (hb_trace h3)"
    using p3 peer by (cases "cs_previous c") auto
  from Cons.IH [OF rest] have r: "hb_state h' = hb_state h3" "hb_verifier h' = hb_verifier h3"
    "prefix (hb_trace h3) (hb_trace h')"
    "\<forall>(i, c) \<in> set cs. \<exists>e. map_of es i = Some e \<and>
       Ran ''wg'' [''set'', iface, ''peer'', cs_key c, ''allowed-ips'', address_of e (cs_epoch c)] True \<in> set (hb_trace h')"
    by auto
  have up: "prefix (hb_trace h1) (hb_trace h')" using h2 h3 r(3) by (meson prefix_order.trans)
  then have "Ran ''wg'' [''set'', iface, ''peer'', cs_key c, ''allowed-ips'', address_of e (cs_epoch c)] True
      \<in> set (hb_trace h')"
    using add_peer_done [OF p1] by (auto simp: prefix_def)
  moreover have "prefix (hb_trace h) (hb_trace h')" using peer [OF p1] up by (meson prefix_order.trans)
  ultimately show ?case using x e r h2 h3 peer [OF p1] by auto
qed auto

text \<open>The stored state that a start finds, and the one it goes on from.\<close>

definition stored_clients :: "hub_state disk_entry option \<Rightarrow> (string \<times> client_state) list" where
  "stored_clients f = (case Option.bind f dk_content of None \<Rightarrow> [] | Some st \<Rightarrow> hs_clients st)"

lemma load_hub_loaded:
  assumes "load_hub K iface clients_file state_file now = Inr (es, h)"
  shows "enrolled (hb_verifier h\<lparr>vf_nonces := []\<rparr>) es \<and> es \<noteq> [] \<and> length es \<le> 128
     \<and> (\<forall>i \<in> set (client_ids h). map_of es i \<noteq> None) \<and> nonces_ok (hb_verifier h)
     \<and> hs_clients (hb_state h) = add_missing es (stored_clients state_file) \<and> hb_trace h = []"
proof -
  from assms obtain clients v stored v' where c: "clients \<noteq> []" "length clients \<le> 128"
    and en: "enroll_all K clients new_verifier [] = Inr (v, es)"
    and st: "(case state_file of None \<Rightarrow> Inr \<lparr>hs_clients = [], hs_nonces = []\<rparr>
       | Some _ \<Rightarrow> rbind (private_file state_file) (\<lambda>_. read_decoded state_file)) = Inr stored"
    and all: "list_all (\<lambda>x. fst x \<in> fst ` set es) (add_missing es (hs_clients stored))"
    and re: "restore_nonces (hs_nonces stored) now v = Inr v'"
    and h: "h = \<lparr>hb_state = stored\<lparr>hs_clients := add_missing es (hs_clients stored)\<rparr>, hb_verifier = v', hb_trace = []\<rparr>"
    by (auto simp: load_hub_def Let_def res_simps)
  have e0: "enrolled new_verifier []" by (simp add: enrolled_def new_verifier_def)
  from enroll_all_enrolled [OF en e0] have e: "enrolled v es" "length es = length clients" by auto
  have v': "v'\<lparr>vf_nonces := []\<rparr> = v" "nonces_ok v'"
    using re e restore_entries_ok [of "[]" now "[]" "hs_nonces stored"]
    by (auto simp: restore_nonces_def res_simps enrolled_def nonces_ok_def)
  have ids: "\<forall>i \<in> set (client_ids h). map_of es i \<noteq> None"
    using all h by (auto simp: client_ids_def list_all_iff map_of_eq_None_iff)
  have "hs_clients stored = stored_clients state_file"
    using st by (cases state_file) (auto simp: stored_clients_def read_decoded_def res_simps)
  moreover have "es \<noteq> []" "length es \<le> 128" using e(2) c by auto
  ultimately show ?thesis using e(1) v' ids h by simp
qed

lemma start_hub_started:
  assumes "start_hub E K iface clients_file state_file now = Inr (es, h)"
  obtains h0 h1 h2 b where "load_hub K iface clients_file state_file now = Inr (es, h0)"
    "cleanup E iface now h0 = (Inr b, h1)"
    "add_client_peers E iface es (hs_clients (hb_state h1)) h1 = (Inr (), h2)" "save E h2 = (Inr (), h)"
proof -
  from assms obtain es0 h0 where l: "load_hub K iface clients_file state_file now = Inr (es0, h0)"
    and r: "(case ctl_then (cleanup E iface now h0) (\<lambda>_ h.
          ctl_then (add_client_peers E iface es0 (hs_clients (hb_state h)) h) (\<lambda>_ h. save E h)) of
       (Inl e, _) \<Rightarrow> Inl e | (Inr _, h) \<Rightarrow> Inr (es0, h)) = Inr (es, h)"
    by (auto simp: start_hub_def res_simps)
  obtain x h' where x: "ctl_then (cleanup E iface now h0) (\<lambda>_ h.
          ctl_then (add_client_peers E iface es0 (hs_clients (hb_state h)) h) (\<lambda>_ h. save E h)) = (x, h')"
    by fastforce
  with r have "es0 = es" "h' = h" "x = Inr ()" by (cases x; simp)+
  with x l show thesis by (auto simp: ctl_then_Inr intro: that)
qed

lemma first_clients_apart:
  assumes "enrolled v es"
  shows "clients_apart (map (\<lambda>(i, e). (i, first_state e)) es)"
proof -
  have m: "map_of (map (\<lambda>(i, e). (i, first_state e)) es) i = map_option first_state (map_of es i)" for i
    by (induction es) auto
  have keys: "set (keys_of (first_state e)) = {en_key e}" for e by (simp add: keys_of_def first_state_def)
  have inj: "i = j" if "map_of es i = Some e" "map_of es j = Some e'" "en_key e = en_key e'" for i j e e'
  proof -
    have e: "(i, e) \<in> set es" "(j, e') \<in> set es" using that by (auto dest: map_of_SomeD)
    have "inj_on (\<lambda>x. en_key (snd x)) (set es)" using assms by (simp add: enrolled_def distinct_map)
    from inj_onD [OF this, of "(i, e)" "(j, e')"] e that(3) show "i = j" by simp
  qed
  have "distinct (map fst (map (\<lambda>(i, e). (i, first_state e)) es))"
    using assms by (simp add: enrolled_def comp_def case_prod_beta)
  then show ?thesis
    unfolding clients_apart_def m using inj keys by (auto simp: keys)
qed

text \<open>Stored clients that a start may go on from: no key has two holders, and all the enrolled
  clients are there (or none is).\<close>

definition clients_ok :: "(string \<times> client_state) list \<Rightarrow> bool" where
  "clients_ok cs \<longleftrightarrow> clients_apart cs \<and> list_all (\<lambda>x. identity_ok (snd x)) cs"

definition hub_ok :: "hub \<Rightarrow> bool" where
  "hub_ok h \<longleftrightarrow> clients_ok (hs_clients (hb_state h))"

lemma add_missing_complete: "fst ` set es \<subseteq> fst ` set cs \<Longrightarrow> add_missing es cs = cs"
  by (force simp: add_missing_def filter_empty_conv)

lemma add_missing_first: "add_missing es [] = map (\<lambda>(i, e). (i, first_state e)) es"
  by (simp add: add_missing_def)

lemma hub_okI:
  assumes "evolves now h h'" and "keys_apart h \<longrightarrow> keys_apart h'" and "hub_ok h"
  shows "hub_ok h'"
proof -
  from assms(3) have k: "keys_apart h" and d: "distinct (client_ids h)"
    and ok: "\<And>i c. (i, c) \<in> set (hs_clients (hb_state h)) \<Longrightarrow> identity_ok c"
    by (auto simp: hub_ok_def clients_ok_def keys_apart_def clients_apart_def client_ids_def list_all_iff)
  from assms(1) d have ids: "client_ids h' = client_ids h" by (simp add: evolves_def)
  have "identity_ok x" if x: "(i, x) \<in> set (hs_clients (hb_state h'))" for i x
  proof -
    from x ids d have c': "client_of i h' = Some x" by (simp add: client_of_def client_ids_def)
    from x have "i \<in> set (client_ids h')" by (force simp: client_ids_def)
    then obtain y where y: "client_of i h = Some y"
      unfolding ids by (cases "client_of i h") (auto simp: client_of_def client_ids_def map_of_eq_None_iff)
    with assms(1) d c' have "(client_step now)\<^sup>*\<^sup>* y x" by (force simp: evolves_def)
    moreover have "identity_ok y" using y ok by (auto simp: client_of_def dest: map_of_SomeD)
    ultimately show ?thesis using client_steps by blast
  qed
  then show ?thesis
    using k assms(2) by (auto simp: hub_ok_def clients_ok_def keys_apart_def list_all_iff)
qed

lemma started_hub_ok:
  assumes "start_hub E K iface clients_file state_file now = Inr (es, h)"
    and "clients_ok (stored_clients state_file)"
    and "stored_clients state_file = [] \<or> fst ` set es \<subseteq> fst ` set (stored_clients state_file)"
  shows "hub_ok h"
proof -
  from assms(1) obtain h0 h1 h2 b where l: "load_hub K iface clients_file state_file now = Inr (es, h0)"
    and c: "cleanup E iface now h0 = (Inr b, h1)"
    and a: "add_client_peers E iface es (hs_clients (hb_state h1)) h1 = (Inr (), h2)" and s: "save E h2 = (Inr (), h)"
    by (rule start_hub_started)
  note loaded = load_hub_loaded [OF l]
  have "hub_ok h0"
    using assms(2,3) loaded first_clients_apart [OF loaded [THEN conjunct1]]
    by (auto simp: hub_ok_def clients_ok_def add_missing_complete add_missing_first list_all_iff first_state_def
        identity_ok_def)
  then have "hub_ok h1"
    using hub_okI [of now h0 h1] cleanup_evolves [of now h0 E iface] cleanup_keys [of h0 E iface now] c by simp
  moreover have "hb_state h = hb_state h1"
    using add_client_peers_done [OF a] s save_state [of E h2] by simp
  ultimately show ?thesis by (simp add: hub_ok_def)
qed

section \<open>Runs\<close>

fun serve_event ::
    "os \<Rightarrow> crypto \<Rightarrow> string \<Rightarrow> (string \<times> enrollment) list \<Rightarrow> nat \<times> arrival \<Rightarrow> hub \<Rightarrow> hub" where
  "serve_event E K iface es (now, a) h = snd (serve_one E K iface es now a h)"

interpretation key_ownership: op_invariant "serve_event E K iface es" keys_apart for E K iface es
proof
  fix h x assume "keys_apart h"
  then show "keys_apart (serve_event E K iface es x h)"
    using loop_keys.serve_one_rel [where h = h and E = E and K = K and iface = iface and es = es]
    by (cases x) simp
qed

text \<open>A run keeps the hub in order, and so is every state it saves.\<close>

definition sound :: "hub \<Rightarrow> hub \<Rightarrow> bool" where
  "sound h h' \<longleftrightarrow> hub_ok h \<longrightarrow> hub_ok h' \<and> client_ids h' = client_ids h
     \<and> (\<exists>tr. hb_trace h' = hb_trace h @ tr
          \<and> (\<forall>st. Saved st \<in> set tr \<longrightarrow> clients_ok (hs_clients st) \<and> map fst (hs_clients st) = client_ids h))"

interpretation sound_ctl: ctl_relation sound
proof
  fix h h1 h2
  show "sound h h" by (simp add: sound_def)
  assume a: "sound h h1" and b: "sound h1 h2"
  show "sound h h2"
    unfolding sound_def
  proof
    assume ok: "hub_ok h"
    with a obtain tr1 where 1: "hub_ok h1" "client_ids h1 = client_ids h" "hb_trace h1 = hb_trace h @ tr1"
      "\<forall>st. Saved st \<in> set tr1 \<longrightarrow> clients_ok (hs_clients st) \<and> map fst (hs_clients st) = client_ids h"
      by (auto simp: sound_def)
    with b obtain tr2 where 2: "hub_ok h2" "client_ids h2 = client_ids h1" "hb_trace h2 = hb_trace h1 @ tr2"
      "\<forall>st. Saved st \<in> set tr2 \<longrightarrow> clients_ok (hs_clients st) \<and> map fst (hs_clients st) = client_ids h1"
      by (auto simp: sound_def)
    from 1 2 show "hub_ok h2 \<and> client_ids h2 = client_ids h \<and> (\<exists>tr. hb_trace h2 = hb_trace h @ tr
          \<and> (\<forall>st. Saved st \<in> set tr \<longrightarrow> clients_ok (hs_clients st) \<and> map fst (hs_clients st) = client_ids h))"
      by (intro conjI exI [of _ "tr1 @ tr2"]) auto
  qed
qed

lemma hub_ok_distinct: "hub_ok h \<Longrightarrow> distinct (client_ids h)"
  by (simp add: hub_ok_def clients_ok_def clients_apart_def client_ids_def)

lemma quiet_sound:
  assumes "quiet h h'" and "evolves now h h'" and "keys_apart h \<longrightarrow> keys_apart h'"
  shows "sound h h'"
  unfolding sound_def
proof
  assume ok: "hub_ok h"
  with hub_okI [OF assms(2,3)] hub_ok_distinct assms(1,2)
  show "hub_ok h' \<and> client_ids h' = client_ids h \<and> (\<exists>tr. hb_trace h' = hb_trace h @ tr
          \<and> (\<forall>st. Saved st \<in> set tr \<longrightarrow> clients_ok (hs_clients st) \<and> map fst (hs_clients st) = client_ids h))"
    by (auto simp: quiet_def evolves_def)
qed

interpretation loop_sound: loop_relation sound E iface es now for E iface es now
proof
  fix h v4 ip r v ns and a :: signed_ack
  show "sound h (snd (cleanup E iface now h))" by (rule quiet_sound [OF cleanup_quiet cleanup_evolves cleanup_keys])
  show "sound h (snd (accept_request E iface es now v4 ip r h))"
    by (rule quiet_sound [OF accept_request_quiet accept_request_evolves accept_request_keys])
  show "sound h (snd (save E h))"
    by (auto simp: sound_def save_def hub_ok_def client_ids_def split: sum.splits)
  show "sound h (snd (send_ack E a ip h))"
    by (auto simp: sound_def send_ack_def hub_ok_def client_ids_def split: sum.splits)
  show "sound h (h\<lparr>hb_verifier := v\<rparr>)" by (simp add: sound_def hub_ok_def client_ids_def)
  show "sound h (h\<lparr>hb_verifier := v, hb_state := (hb_state h)\<lparr>hs_nonces := ns\<rparr>\<rparr>)"
    by (simp add: sound_def hub_ok_def client_ids_def)
qed

interpretation sound_run: op_monotone "serve_event E K iface es" sound for E K iface es
proof
  fix h h1 h2 :: hub and x
  show "sound h h" by (rule sound_ctl.R_refl)
  show "sound h h1 \<Longrightarrow> sound h1 h2 \<Longrightarrow> sound h h2" by (rule sound_ctl.R_trans)
  show "sound h (serve_event E K iface es x h)"
    using loop_sound.serve_one_rel [where h = h and E = E and K = K and iface = iface and es = es] by (cases x) simp
qed

text \<open>The identities of the clients only move forward.\<close>

definition forward :: "hub \<Rightarrow> hub \<Rightarrow> bool" where
  "forward h h' \<longleftrightarrow> hub_ok h \<longrightarrow> hub_ok h'
     \<and> (\<forall>i c. client_of i h = Some c \<longrightarrow> (\<exists>c'. client_of i h' = Some c' \<and> cs_epoch c \<le> cs_epoch c'
          \<and> (cs_epoch c' = cs_epoch c \<longrightarrow> cs_key c' = cs_key c)))"

interpretation forward_run: op_monotone "serve_event E K iface es" forward for E K iface es
proof
  fix h h1 h2 :: hub and x
  show "forward h h" by (simp add: forward_def)
  assume a: "forward h h1" and b: "forward h1 h2"
  show "forward h h2"
    unfolding forward_def
  proof (intro impI conjI allI)
    assume ok: "hub_ok h"
    with a b show "hub_ok h2" by (simp add: forward_def)
    fix i c assume "client_of i h = Some c"
    with a ok obtain c1 where c1: "client_of i h1 = Some c1" "cs_epoch c \<le> cs_epoch c1"
      "cs_epoch c1 = cs_epoch c \<longrightarrow> cs_key c1 = cs_key c" by (auto simp: forward_def)
    moreover from a ok have "hub_ok h1" by (simp add: forward_def)
    ultimately obtain c2 where "client_of i h2 = Some c2" "cs_epoch c1 \<le> cs_epoch c2"
      "cs_epoch c2 = cs_epoch c1 \<longrightarrow> cs_key c2 = cs_key c1" using b by (auto simp: forward_def)
    with c1 show "\<exists>c'. client_of i h2 = Some c' \<and> cs_epoch c \<le> cs_epoch c'
          \<and> (cs_epoch c' = cs_epoch c \<longrightarrow> cs_key c' = cs_key c)" by force
  qed
next
  fix h :: hub and x :: "nat \<times> arrival"
  obtain now a where x: "x = (now, a)" by (cases x)
  let ?h = "serve_event E K iface es x h"
  have ev: "evolves now h ?h"
    using loop_evolution.serve_one_rel [where h = h and E = E and K = K and iface = iface and es = es] x by simp
  have "sound h ?h" by (rule sound_run.step_rel)
  then show "forward h ?h"
    unfolding forward_def
  proof (intro impI conjI allI)
    assume s: "sound h ?h" and ok: "hub_ok h"
    then show "hub_ok ?h" by (simp add: sound_def)
    fix i c assume c: "client_of i h = Some c"
    with ev hub_ok_distinct [OF ok] obtain c' where c': "client_of i ?h = Some c'" "(client_step now)\<^sup>*\<^sup>* c c'"
      by (force simp: evolves_def)
    have "identity_ok c" using c ok
      by (force simp: hub_ok_def clients_ok_def list_all_iff client_of_def dest: map_of_SomeD)
    from client_steps [OF c'(2) this] c'(1) show "\<exists>c'. client_of i ?h = Some c' \<and> cs_epoch c \<le> cs_epoch c'
          \<and> (cs_epoch c' = cs_epoch c \<longrightarrow> cs_key c' = cs_key c)" by blast
  qed
qed

text \<open>Cleaning up does not touch the current identities.\<close>

definition current :: "hub \<Rightarrow> string \<Rightarrow> (nat \<times> string) option" where
  "current h i = map_option (\<lambda>c. (cs_epoch c, cs_key c)) (client_of i h)"

interpretation current_ctl: ctl_relation "\<lambda>h h'. current h' = current h"
  by unfold_locales auto

lemma current_same: "hb_state h' = hb_state h \<Longrightarrow> current h' = current h"
  by (simp add: current_def client_of_def fun_eq_iff)

lemma current_on_client:
  "(\<And>c. cs_epoch (f c) = cs_epoch c \<and> cs_key (f c) = cs_key c) \<Longrightarrow> current (on_client i f h) = current h"
  by (simp add: current_def client_of_on_client fun_eq_iff option.map_comp comp_def)

lemma drop_current:
  "current (snd (drop_pending E iface now i h)) = current h"
  "current (snd (drop_previous E iface now i h)) = current h"
proof -
  have "current (snd (ctl_then (remove_peer E iface k g) (\<lambda>_ h. (Inr True, h)))) = current g" for k g
    by (rule current_ctl.then_done) (rule current_same, simp)
  then show "current (snd (drop_pending E iface now i h)) = current h"
    "current (snd (drop_previous E iface now i h)) = current h"
    by (simp_all add: drop_pending_def drop_previous_def current_on_client split: option.split)
qed

lemma cleanup_current: "current (snd (cleanup E iface now h)) = current h"
proof -
  have "current (snd (cleanup_each E iface now ids changed h)) = current h" for ids changed
  proof (induction ids arbitrary: changed h)
    case (Cons i ids)
    show ?case
      by (simp only: cleanup_each.simps, rule current_ctl.then_rel [OF drop_current(1)],
          rule current_ctl.then_rel [OF drop_current(2)], rule Cons.IH)
  qed simp
  then show ?thesis by (simp add: cleanup_def)
qed

lemma started_current:
  assumes "start_hub E K iface clients_file state_file now = Inr (es, h)"
  shows "current h i = map_option (\<lambda>c. (cs_epoch c, cs_key c)) (map_of (add_missing es (stored_clients state_file)) i)"
proof -
  from assms obtain h0 h1 h2 b where l: "load_hub K iface clients_file state_file now = Inr (es, h0)"
    and c: "cleanup E iface now h0 = (Inr b, h1)"
    and a: "add_client_peers E iface es (hs_clients (hb_state h1)) h1 = (Inr (), h2)" and s: "save E h2 = (Inr (), h)"
    by (rule start_hub_started)
  have "hb_state h = hb_state h1"
    using add_client_peers_done [OF a] s save_state [of E h2] by simp
  then have "current h = current h1" by (rule current_same)
  also have "current h1 = current h0" using cleanup_current [of E iface now h0] c by simp
  finally have "current h = current h0" .
  moreover have "hs_clients (hb_state h0) = add_missing es (stored_clients state_file)"
    using load_hub_loaded [OF l] by simp
  ultimately show ?thesis by (simp add: current_def client_of_def)
qed

text \<open>The enrolled clients depend on the configuration only.\<close>

lemma load_hub_enroll:
  assumes "load_hub K iface clients_file state_file now = Inr (es, h)"
  obtains clients v where "read_decoded clients_file = Inr clients" "enroll_all K clients new_verifier [] = Inr (v, es)"
  using assms by (auto simp: load_hub_def Let_def res_simps)

lemma load_hub_enrolled:
  assumes "load_hub K iface clients_file state_file now = Inr (es, h)"
    and "load_hub K iface' clients_file state_file' now' = Inr (es', h')"
  shows "es' = es"
proof -
  from assms(1) obtain c v where "read_decoded clients_file = Inr c" "enroll_all K c new_verifier [] = Inr (v, es)"
    by (rule load_hub_enroll)
  moreover from assms(2) obtain c' v' where "read_decoded clients_file = Inr c'"
    "enroll_all K c' new_verifier [] = Inr (v', es')" by (rule load_hub_enroll)
  ultimately show ?thesis by simp
qed

lemma loaded_ids:
  assumes "load_hub K iface clients_file state_file now = Inr (es, h)"
  shows "fst ` set es \<subseteq> set (client_ids h)"
proof -
  have "hs_clients (hb_state h) = add_missing es (stored_clients state_file)" using load_hub_loaded [OF assms] by simp
  then show ?thesis by (force simp: client_ids_def add_missing_def)
qed

section \<open>A small hub\<close>

text \<open>Two enrolled clients, commands that succeed and a peer that shook hands at second 1010; the
  first client prepares its next key and commits it.\<close>

definition demo_first_key :: string where "demo_first_key = ''AAAAAAAAAAAAAAAAAAAAAAAAAAAAAAAA''"

definition demo_next_key :: string where "demo_next_key = ''BBBBBBBBBBBBBBBBBBBBBBBBBBBBBBBB''"

definition demo_other_key :: string where "demo_other_key = ''CCCCCCCCCCCCCCCCCCCCCCCCCCCCCCCC''"

definition demo_secret :: string where "demo_secret = ''ssssssssssssssssssssssssssssssss''"

definition demo_request :: "action \<Rightarrow> string \<Rightarrow> nat \<Rightarrow> signed_request" where
  "demo_request a nonce t = \<lparr>
     sr_request = \<lparr>kr_version = 1, kr_client = ''laptop'', kr_issued = t, kr_nonce = nonce,
       kr_action = a, kr_epoch = 1, kr_key = Some demo_next_key\<rparr>,
     sr_mac = demo_secret @ knock_domain @ ''laptop''\<rparr>"

definition hub_crypto :: crypto where
  "hub_crypto = \<lparr>hmac = (\<lambda>secret bytes. secret @ bytes), b64_encode = (\<lambda>x. x), b64_decode = Some,
     request_bytes = kr_client, ack_bytes = ak_client, signed_bytes = (\<lambda>_. ''knock''),
     parse_signed = (\<lambda>bytes.
       if bytes = ''prepare'' then Some (demo_request PrepareRotation ''0123456789abcdef'' 1000)
       else if bytes = ''commit'' then Some (demo_request CommitRotation ''fedcba9876543210'' 1015) else None)\<rparr>"

definition demo_os :: os where
  "demo_os = \<lparr>os_exec = (\<lambda>_ _ args. Inr (if hd args = ''show'' then demo_next_key @ '' 1010'' else [])),
     os_save = (\<lambda>_ _. Inr ()), os_send = (\<lambda>_ _ _. Inr ())\<rparr>"

definition demo_enrollment :: enrollment where
  "demo_enrollment = \<lparr>en_id = ''laptop'', en_secret = demo_secret, en_key = demo_first_key,
     en_address0 = ''10.7.0.2/32'', en_address1 = ''10.7.0.3/32''\<rparr>"

definition demo_other :: enrollment where
  "demo_other = \<lparr>en_id = ''phone'', en_secret = demo_secret, en_key = demo_other_key,
     en_address0 = ''10.7.0.4/32'', en_address1 = ''10.7.0.5/32''\<rparr>"

definition demo_file :: "enrollment list disk_entry option" where
  "demo_file = Some \<lparr>dk_mode = 384, dk_content = Some [demo_enrollment, demo_other]\<rparr>"

lemma demo_keys [simp]:
  "decode_key hub_crypto demo_first_key = Inr demo_first_key"
  "decode_key hub_crypto demo_next_key = Inr demo_next_key"
  "decode_key hub_crypto demo_secret = Inr demo_secret" "demo_first_key \<noteq> demo_next_key"
  "demo_next_key \<noteq> demo_first_key" "decode_key hub_crypto demo_other_key = Inr demo_other_key"
  "demo_first_key \<noteq> demo_other_key" "demo_other_key \<noteq> demo_first_key"
  "demo_other_key \<noteq> demo_next_key" "demo_next_key \<noteq> demo_other_key"
  by (simp_all add: decode_key_def hub_crypto_def demo_first_key_def demo_next_key_def demo_secret_def demo_other_key_def
      trim_def trim_start_def trim_end_def strip_with.simps white_space_def)

lemma demo_handshake [simp]:
  "list_ex (handshake_line demo_next_key 1015) (split_on (CHR 0x0A) (demo_next_key @ '' 1010''))"
  by (simp add: handshake_line_def demo_next_key_def white_space_def parse_u64_def digits_value_def
      ascii_digit_def u64_max_def abs_diff_def)

lemma demo_addresses [simp]: "check_address ''10.7.0.2/32'' = Inr ()" "check_address ''10.7.0.3/32'' = Inr ()"
  "check_address ''10.7.0.4/32'' = Inr ()" "check_address ''10.7.0.5/32'' = Inr ()"
  by (simp_all add: check_address_def parse_ipv4_def parse_octet_def ascii_digit_def digits_value_def
      suffix_def)

definition demo_hub :: hub where
  "demo_hub =
     (let st = \<lparr>hs_clients = [(''laptop'', first_state demo_enrollment), (''phone'', first_state demo_other)],
               hs_nonces = []\<rparr>
      in \<lparr>hb_state = st, hb_verifier = \<lparr>vf_secrets = [(''phone'', demo_secret), (''laptop'', demo_secret)], vf_nonces = []\<rparr>,
          hb_trace = [Ran ''wg'' [''set'', ''wg0'', ''peer'', demo_first_key, ''allowed-ips'', ''10.7.0.2/32''] True,
            Ran ''wg'' [''set'', ''wg0'', ''peer'', demo_other_key, ''allowed-ips'', ''10.7.0.4/32''] True,
            Saved st]\<rparr>)"

abbreviation demo_clients :: "(string \<times> enrollment) list" where
  "demo_clients \<equiv> [(''laptop'', demo_enrollment), (''phone'', demo_other)]"

lemma demo_start: "start_hub demo_os hub_crypto ''wg0'' demo_file None 900 = Inr (demo_clients, demo_hub)"
  by (simp add: start_hub_def load_hub_def valid_interface_def ascii_alphanumeric_def ascii_digit_def
      ascii_upper_def ascii_lower_def private_file_def
      demo_file_def read_decoded_def clashes_def demo_enrollment_def demo_other_def enroll_def valid_client_id_def new_verifier_def
      restore_nonces_def add_missing_def first_state_def cleanup_def client_of_def drop_pending_def
      drop_previous_def demo_os_def address_of_def add_peer_def execute_def save_def demo_hub_def
      max_nonces_def is_ok_def Let_def)

definition demo_prepared :: hub where
  "demo_prepared =
     snd (serve_one demo_os hub_crypto ''wg0'' demo_clients 1000 (Datagram ''prepare'' True ''203.0.113.5'') demo_hub)"

lemmas demo_serve =
  serve_one_def cleanup_def client_of_def drop_pending_def drop_previous_def handle_datagram_def
  authenticate_def check_knock_def verify_mac_def abs_diff_def clock_skew_def max_knock_bytes_def
  max_nonces_def nonce_key_def put_nonce_def nonce_entries_def saturating_add_def u64_max_def save_def
  accept_request_def change_identity_def assigned_elsewhere_def holds_key_def prepare_identity_def
  commit_identity_def checked_add_def key_of_request_def add_peer_def execute_def admission_def
  acknowledge_def issue_ack_def send_ack_def on_client_def recent_handshake_def address_of_def
  first_state_def mac_for_def overlap_seconds_def is_ok_def Let_def

lemma hub_crypto_fields:
  "hmac hub_crypto = (\<lambda>secret bytes. secret @ bytes)" "b64_encode hub_crypto = (\<lambda>x. x)"
  "b64_decode hub_crypto = Some" "request_bytes hub_crypto = kr_client" "ack_bytes hub_crypto = ak_client"
  "parse_signed hub_crypto = (\<lambda>bytes.
       if bytes = ''prepare'' then Some (demo_request PrepareRotation ''0123456789abcdef'' 1000)
       else if bytes = ''commit'' then Some (demo_request CommitRotation ''fedcba9876543210'' 1015) else None)"
  by (simp_all add: hub_crypto_def)

lemma demo_prepared:
  "hb_state demo_prepared = \<lparr>hs_clients = [(''laptop'', (first_state demo_enrollment)\<lparr>cs_pending :=
       Some \<lparr>pi_epoch = 1, pi_key = demo_next_key, pi_expires = 1060\<rparr>\<rparr>), (''phone'', first_state demo_other)],
     hs_nonces = [(''laptop'', ''0123456789abcdef'', 1031)]\<rparr>"
  "hb_verifier demo_prepared = \<lparr>vf_secrets = [(''phone'', demo_secret), (''laptop'', demo_secret)],
     vf_nonces = [((''laptop'', ''0123456789abcdef''), 1031)]\<rparr>"
  by (simp_all add: demo_prepared_def demo_hub_def demo_serve demo_os_def demo_enrollment_def demo_other_def hub_crypto_fields demo_request_def)

definition demo_rotated :: hub where
  "demo_rotated =
     snd (serve_one demo_os hub_crypto ''wg0'' demo_clients 1015 (Datagram ''commit'' True ''203.0.113.5'') demo_prepared)"

lemma demo_rotated:
  "hb_state demo_rotated =
     \<lparr>hs_clients = [(''laptop'', \<lparr>cs_epoch = 1, cs_key = demo_next_key, cs_pending = None,
        cs_previous = Some \<lparr>qi_key = demo_first_key, qi_expires = 1045\<rparr>\<rparr>), (''phone'', first_state demo_other)],
      hs_nonces = [(''laptop'', ''fedcba9876543210'', 1046), (''laptop'', ''0123456789abcdef'', 1031)]\<rparr>"
  by (simp add: demo_rotated_def demo_serve demo_prepared demo_os_def demo_enrollment_def demo_other_def
      hub_crypto_fields demo_request_def)

definition demo_events :: "(nat \<times> arrival) list" where
  "demo_events = [(1000, Datagram ''prepare'' True ''203.0.113.5''), (1015, Datagram ''commit'' True ''203.0.113.5'')]"

lemma demo_run: "run_ops (serve_event demo_os hub_crypto ''wg0'' demo_clients) demo_events demo_hub = demo_rotated"
  by (simp add: demo_events_def demo_prepared_def demo_rotated_def)

lemma demo_stored:
  "clients_ok (stored_clients None)" "stored_clients None = []" "clients_ok (hs_clients (hb_state demo_rotated))"
  "clients_ok (hs_clients (hb_state demo_hub))"
proof -
  show a: "clients_ok (stored_clients None)" "stored_clients None = []"
    by (simp_all add: stored_clients_def clients_ok_def clients_apart_def)
  have "hub_ok demo_hub" by (rule started_hub_ok [OF demo_start a(1)]) (simp add: a)
  moreover have "sound demo_hub demo_rotated" unfolding demo_run [symmetric] by (rule sound_run.run_rel)
  ultimately show "clients_ok (hs_clients (hb_state demo_rotated))" "clients_ok (hs_clients (hb_state demo_hub))"
    by (simp_all add: sound_def hub_ok_def)
qed

section \<open>Properties\<close>

text \<open>C22: An acknowledgement is durable before it is sent: when an iteration of the hub answers a
  datagram, the reply goes to its sender and is the last event, right after the sender's address
  was admitted and the state was saved; that state records the nonce of the acknowledged request
  and carries the request out, and the reply is signed with the secret of its client.\<close>

theorem acknowledgements_are_durable:
  assumes "serve_one E K iface es now (Datagram bytes v4 ip) h = (x, h')"
    and "hb_trace h' = hb_trace h @ tr" and "Sent a to \<in> set tr"
  shows "to = ip \<and> durable_reply tr (hb_state h') a ip K (hb_verifier h) now"
proof -
  from assms(1) obtain y h1 where c: "cleanup E iface now h = (y, h1)" by (cases "cleanup E iface now h")
  have q1: "quiet h h1" using cleanup_quiet [of h E iface now] c by simp
  show ?thesis
  proof (cases y)
    case (Inl e)
    with assms(1) c have "h' = h1" by (simp add: serve_one_def)
    with q1 assms(2,3) show ?thesis by (auto simp: quiet_def)
  next
    case (Inr changed)
    obtain z h2 where s: "(if changed then save E h1 else (Inr (), h1)) = (z, h2)"
      by (cases "if changed then save E h1 else (Inr (), h1)")
    have "hb_verifier h2 = hb_verifier h1 \<and> (\<exists>es. hb_trace h2 = hb_trace h1 @ es \<and> (\<forall>a ip. Sent a ip \<notin> set es))"
      using s by (auto simp: save_def split: if_splits sum.splits)
    with q1 obtain es0 where t2: "hb_trace h2 = hb_trace h @ es0" "\<forall>a ip. Sent a ip \<notin> set es0"
      and v2: "hb_verifier h2 = hb_verifier h" by (auto simp: quiet_def)
    show ?thesis
    proof (cases z)
      case (Inl e)
      with assms(1) c Inr s have "h' = h2" by (simp add: serve_one_def)
      with t2 assms(2,3) show ?thesis by auto
    next
      case (Inr u)
      with assms(1) c \<open>y = Inr changed\<close> s have d: "handle_datagram E K iface es now bytes v4 ip h2 = (x, h')"
        by (simp add: serve_one_def)
      obtain tr2 where tr2: "hb_trace h' = hb_trace h2 @ tr2" using handle_datagram_trace [OF d] by blast
      with t2 assms(2,3) have "tr = es0 @ tr2" "Sent a to \<in> set tr2" by auto
      with handle_datagram_reply [OF d tr2] have "to = ip" "durable_reply tr2 (hb_state h') a ip K (hb_verifier h) now"
        by (auto simp: v2)
      with \<open>tr = es0 @ tr2\<close> show ?thesis by (auto simp: durable_reply_def intro: exI [of _ "es0 @ _"])
    qed
  qed
qed

lemma acknowledgements_are_durable_witness:
  "let x = serve_one demo_os hub_crypto ''wg0'' demo_clients 1000 (Datagram ''prepare'' True ''203.0.113.5'') demo_hub in
   Saved (hb_state (snd x)) \<in> set (drop 3 (hb_trace (snd x)))
   \<and> durable_reply (drop 3 (hb_trace (snd x))) (hb_state (snd x))
       (issue_ack hub_crypto (sr_request (demo_request PrepareRotation ''0123456789abcdef'' 1000)) demo_secret 1000)
       ''203.0.113.5'' hub_crypto (hb_verifier demo_hub) 1000"
proof -
  obtain x h' where s: "serve_one demo_os hub_crypto ''wg0'' demo_clients 1000
      (Datagram ''prepare'' True ''203.0.113.5'') demo_hub = (x, h')" by fastforce
  let ?a = "issue_ack hub_crypto (sr_request (demo_request PrepareRotation ''0123456789abcdef'' 1000)) demo_secret 1000"
  have h': "h' = demo_prepared" using s by (simp add: demo_prepared_def)
  have "hb_trace h' = hb_trace demo_hub @ drop 3 (hb_trace h')" and "Sent ?a ''203.0.113.5'' \<in> set (drop 3 (hb_trace h'))"
    by (simp_all add: h' demo_prepared_def demo_hub_def demo_serve demo_os_def demo_enrollment_def demo_other_def hub_crypto_fields
        demo_request_def)
  from acknowledgements_are_durable [OF s this]
  have "durable_reply (drop 3 (hb_trace h')) (hb_state h') ?a ''203.0.113.5'' hub_crypto (hb_verifier demo_hub) 1000" ..
  moreover from this have "Saved (hb_state h') \<in> set (drop 3 (hb_trace h'))" by (auto simp: durable_reply_def)
  ultimately show ?thesis by (simp add: s)
qed







text \<open>Nothing expired is kept: after an iteration that did not fail, no client has a prepared or
  a previous identity whose time is over, whatever the datagram of that iteration was.\<close>

theorem no_expired_identity_is_kept:
  assumes "serve_one E K iface es now a h = (Inr u, h')" and "clients_ok (hs_clients (hb_state h))"
    and "client_of i h' = Some c"
  shows "(case cs_pending c of None \<Rightarrow> True | Some p \<Rightarrow> now < pi_expires p)
     \<and> (case cs_previous c of None \<Rightarrow> True | Some q \<Rightarrow> now < qi_expires q)"
proof -
  from assms(1) obtain b h1 h2 where cl: "cleanup E iface now h = (Inr b, h1)"
    and s: "(if b then save E h1 else (Inr (), h1)) = (Inr (), h2)"
    and d: "(case a of Quiet \<Rightarrow> (Inr (), h2) | SocketError \<Rightarrow> (Inl (Io ''recv''), h2)
       | Datagram bytes v4 ip \<Rightarrow> handle_datagram E K iface es now bytes v4 ip h2) = (Inr u, h')"
    by (auto simp: serve_one_def ctl_then_Inr)
  have ok1: "hub_ok h1" using assms(2) cl loop_sound.cleanup_rel [of h E iface now] by (simp add: sound_def hub_ok_def)
  have st: "hb_state h2 = hb_state h1" using s by (auto simp: save_def split: if_splits sum.splits)
  have "evolves now h2 h'"
    using d loop_evolution.handle_datagram_rel [where h = h2 and E = E and K = K and iface = iface and es = es]
    by (cases a) (auto simp: evolution.R_refl, metis snd_conv)
  moreover have dist: "distinct (client_ids h2)" using hub_ok_distinct [OF ok1] by (simp add: client_ids_def st)
  ultimately have ids: "client_ids h' = client_ids h2"
    and steps: "\<And>c0. client_of i h2 = Some c0 \<Longrightarrow> \<exists>c'. client_of i h' = Some c' \<and> (client_step now)\<^sup>*\<^sup>* c0 c'"
    by (auto simp: evolves_def)
  have "i \<in> set (client_ids h2)" unfolding ids [symmetric] using assms(3)
    by (simp add: client_ids_def client_of_def) (metis map_of_SomeD fst_conv image_eqI)
  then obtain c0 where c0: "client_of i h2 = Some c0"
    by (cases "client_of i h2") (auto simp: client_of_def client_ids_def map_of_eq_None_iff)
  have c1: "client_of i h1 = Some c0" using c0 by (simp add: client_of_def st)
  have "unexpired now c0" by (rule cleanup_done [OF cl c1])
  from steps [OF c0] assms(3) have "(client_step now)\<^sup>*\<^sup>* c0 c" by auto
  then have "unexpired now c"
    by (induction rule: rtranclp_induct) (use \<open>unexpired now c0\<close> client_step_unexpired in auto)
  then show ?thesis by (simp add: unexpired_def)
qed

lemma no_expired_identity_is_kept_witness:
  "let (r, h) = serve_one demo_os hub_crypto ''wg0'' demo_clients 1050 Quiet demo_rotated in
   r = Inr () \<and> client_of ''laptop'' demo_rotated \<noteq> client_of ''laptop'' h
   \<and> (case client_of ''laptop'' h of None \<Rightarrow> False | Some c \<Rightarrow>
        (case cs_pending c of None \<Rightarrow> True | Some p \<Rightarrow> 1050 < pi_expires p)
        \<and> (case cs_previous c of None \<Rightarrow> True | Some q \<Rightarrow> 1050 < qi_expires q))"
proof -
  obtain h c where s: "serve_one demo_os hub_crypto ''wg0'' demo_clients 1050 Quiet demo_rotated = (Inr (), h)"
    and c: "client_of ''laptop'' h = Some c" and n: "client_of ''laptop'' demo_rotated \<noteq> client_of ''laptop'' h"
    by (simp add: demo_serve remove_peer_def demo_rotated demo_os_def demo_other_def)
  from no_expired_identity_is_kept [OF s demo_stored(3) c] show ?thesis using s c n by simp
qed

text \<open>A hub that started is configured: there are 1 to 128 enrolled clients with distinct names
  and keys and, each, two distinct private addresses; it serves enrolled clients only, has made
  each of them a peer with its current key and the address of its epoch, and has saved its state.\<close>

theorem started_hub_is_configured:
  assumes "start_hub E K iface clients_file state_file t0 = Inr (es, h)"
  shows "1 \<le> length es \<and> length es \<le> 128 \<and> distinct (map fst es) \<and> distinct (map (\<lambda>x. en_key (snd x)) es)
     \<and> (\<forall>x \<in> set es. is_ok (check_address (en_address0 (snd x))) \<and> is_ok (check_address (en_address1 (snd x)))
          \<and> en_address0 (snd x) \<noteq> en_address1 (snd x))
     \<and> (\<forall>(i, c) \<in> set (hs_clients (hb_state h)). \<exists>e. map_of es i = Some e
          \<and> Ran ''wg'' [''set'', iface, ''peer'', cs_key c, ''allowed-ips'', address_of e (cs_epoch c)] True
              \<in> set (hb_trace h))
     \<and> last (hb_trace h) = Saved (hb_state h)"
proof -
  from assms obtain h0 h1 h2 b where l: "load_hub K iface clients_file state_file t0 = Inr (es, h0)"
    and a: "add_client_peers E iface es (hs_clients (hb_state h1)) h1 = (Inr (), h2)" and s: "save E h2 = (Inr (), h)"
    by (rule start_hub_started)
  have en: "enrolled (hb_verifier h0\<lparr>vf_nonces := []\<rparr>) es" "es \<noteq> []" "length es \<le> 128"
    using load_hub_loaded [OF l] by blast+
  have h: "h = h2\<lparr>hb_trace := hb_trace h2 @ [Saved (hb_state h2)]\<rparr>" using s by (auto simp: save_def split: sum.splits)
  have p: "hb_state h2 = hb_state h1" "\<forall>(i, c) \<in> set (hs_clients (hb_state h1)). \<exists>e. map_of es i = Some e
      \<and> Ran ''wg'' [''set'', iface, ''peer'', cs_key c, ''allowed-ips'', address_of e (cs_epoch c)] True \<in> set (hb_trace h2)"
    using add_client_peers_done [OF a] by auto
  have "1 \<le> length es" using en(2) by (cases es) simp_all
  then show ?thesis
    using en(1,3) h p unfolding enrolled_def by auto
qed

lemma started_hub_is_configured_witness:
  "length demo_clients \<le> 128 \<and> last (hb_trace demo_hub) = Saved (hb_state demo_hub)
   \<and> list_all (\<lambda>(i, c). case map_of demo_clients i of None \<Rightarrow> False | Some e \<Rightarrow>
        Ran ''wg'' [''set'', ''wg0'', ''peer'', cs_key c, ''allowed-ips'', address_of e (cs_epoch c)] True
          \<in> set (hb_trace demo_hub)) (hs_clients (hb_state demo_hub))"
  using started_hub_is_configured [OF demo_start] by (auto simp: list_all_iff split: option.split)

end
