(* ===== verification/Wire.thy ===== *)
theory Wire
  imports Prelude "HOL-Library.Word"
begin

text \<open>
  \<open>crates/omni-vpn/src/wire.rs\<close>: the IPv4/UDP frames of the simulation workload, with their
  checksums in 16- and 32-bit arithmetic, and the loops around the WireGuard implementation
  (\<open>boringtun\<close>, third-party code: the parameters \<open>tunnel\<close>).
\<close>

unbundle bit_operations_syntax

type_synonym byte = "8 word"

lemma byte_lt: "unat (b :: 8 word) < 256"
  using unsigned_less [of b, where 'a = nat] by simp

lemma word16_lt: "unat (w :: 16 word) < 65536"
  using unsigned_less [of w, where 'a = nat] by simp

lemma word32_lt: "unat (w :: 32 word) < 4294967296"
  using unsigned_less [of w, where 'a = nat] by simp

section \<open>Big-endian pairs\<close>

definition from_be :: "byte \<Rightarrow> byte \<Rightarrow> 16 word" where
  "from_be hi lo = (push_bit 8 (ucast hi)) OR ucast lo"

definition to_be :: "16 word \<Rightarrow> byte list" where
  "to_be w = [ucast (drop_bit 8 w), ucast w]"

lemma unat_from_be: "unat (from_be hi lo) = 256 * unat hi + unat lo"
proof -
  have lt: "unat hi < 256" "unat lo < 256" by (rule byte_lt)+
  have "unat (from_be hi lo) = unat (push_bit 8 (ucast hi) :: 16 word) + unat (ucast lo :: 16 word)"
  proof -
    have "(push_bit 8 (ucast hi) :: 16 word) AND ucast lo = 0"
      by (rule bit_word_eqI) (auto simp: bit_simps dest: bit_imp_le_length)
    then have "from_be hi lo = push_bit 8 (ucast hi) + ucast lo"
      by (simp add: from_be_def disjunctive_add_eq_or)
    moreover have "unat (push_bit 8 (ucast hi) :: 16 word) = 256 * unat hi"
      using lt by (simp add: push_bit_eq_mult unat_word_ariths unsigned_ucast_eq take_bit_eq_mod)
    moreover have "unat (ucast lo :: 16 word) = unat lo" using lt by (simp add: unsigned_ucast_eq take_bit_eq_mod)
    ultimately show ?thesis using lt by (simp add: unat_word_ariths)
  qed
  with lt show ?thesis by (simp add: push_bit_eq_mult unat_word_ariths unsigned_ucast_eq take_bit_eq_mod)
qed

lemma unat_to_be: "to_be w = [hi, lo] \<Longrightarrow> unat hi = unat w div 256 \<and> unat lo = unat w mod 256"
  using word16_lt [of w] less_mult_imp_div_less [of "unat w" 256 256]
  by (auto simp: to_be_def unsigned_ucast_eq take_bit_eq_mod drop_bit_eq_div unat_div)

lemma from_to_be: "to_be w = [hi, lo] \<Longrightarrow> from_be hi lo = w"
proof -
  assume "to_be w = [hi, lo]"
  then have "unat (from_be hi lo) = unat w" by (simp add: unat_from_be unat_to_be)
  then show ?thesis by (simp add: word_unat_eq_iff)
qed

section \<open>Checksums\<close>

text \<open>\<open>chunks(2)\<close>: a missing second byte counts as zero. The sum has 32 bits, the carries are folded
  into the low 16 bits until there are none.\<close>

fun sum_chunks :: "byte list \<Rightarrow> 32 word \<Rightarrow> 32 word" where
  "sum_chunks [] acc = acc"
| "sum_chunks [a] acc = acc + ucast (from_be a 0)"
| "sum_chunks (a # b # bytes) acc = sum_chunks bytes (acc + ucast (from_be a b))"

lemma fold_step: "unat (((s :: 32 word) AND 65535) + drop_bit 16 s) = unat s mod 65536 + unat s div 65536"
proof -
  have m: "unat (s AND 65535) = unat s mod 65536"
  proof -
    have "s AND 65535 = s AND mask 16" by (simp add: mask_eq_exp_minus_1)
    then show ?thesis by (simp add: take_bit_eq_mask [symmetric] unsigned_take_bit_eq take_bit_eq_mod unat_mod)
  qed
  have d: "unat (drop_bit 16 s) = unat s div 65536" by (simp add: drop_bit_eq_div unat_div)
  have "unat s div 65536 < 65536" using word32_lt [of s] by (intro less_mult_imp_div_less) simp
  moreover have "unat s mod 65536 < 65536" by simp
  ultimately have "unat s mod 65536 + unat s div 65536 < 2 ^ 32" by (simp del: mod_less_divisor)
  with m d show ?thesis by (simp add: unat_word_ariths)
qed

function fold_carry :: "32 word \<Rightarrow> 32 word" where
  "fold_carry s = (if s > 65535 then fold_carry ((s AND 65535) + drop_bit 16 s) else s)"
  by auto

termination
proof (relation "measure unat")
  fix s :: "32 word"
  assume "s > 65535"
  then have "unat s > 65535" by (simp add: word_less_nat_alt)
  moreover have "unat s = 65536 * (unat s div 65536) + unat s mod 65536" by simp
  ultimately have "unat s mod 65536 + unat s div 65536 < unat s" by linarith
  then show "((s AND 65535) + drop_bit 16 s, s) \<in> measure unat" by (simp add: fold_step)
qed simp

declare fold_carry.simps [simp del]

definition checksum :: "byte list \<Rightarrow> 16 word" where
  "checksum bytes = NOT (ucast (fold_carry (sum_chunks bytes 0)))"

text \<open>The sum over the integers, and what folding preserves: its residue modulo 65535 and whether it
  is zero.\<close>

fun pair_sum :: "byte list \<Rightarrow> nat" where
  "pair_sum [] = 0"
| "pair_sum [a] = 256 * unat a"
| "pair_sum (a # b # bytes) = 256 * unat a + unat b + pair_sum bytes"

lemma pair_sum_bound: "pair_sum bytes \<le> 65535 * length bytes"
proof (induction bytes rule: pair_sum.induct)
  case (2 a)
  with byte_lt [of a] show ?case by simp
next
  case (3 a b bytes)
  with byte_lt [of a] byte_lt [of b] show ?case by simp
qed simp

lemma sum_chunks_nat:
  "unat acc + pair_sum bytes < 2 ^ 32 \<Longrightarrow> unat (sum_chunks bytes acc) = unat acc + pair_sum bytes"
proof (induction bytes acc rule: sum_chunks.induct)
  case (2 a acc)
  then show ?case by (simp add: unat_word_ariths unsigned_ucast_eq take_bit_eq_mod unat_from_be)
next
  case (3 a b bytes acc)
  have c: "unat (ucast (from_be a b) :: 32 word) = 256 * unat a + unat b"
    using byte_lt [of a] byte_lt [of b] by (simp add: unsigned_ucast_eq take_bit_eq_mod unat_from_be)
  with 3(2) have "unat (acc + ucast (from_be a b)) = unat acc + (256 * unat a + unat b)"
    by (simp add: unat_word_ariths)
  with 3 show ?case by simp
qed simp

lemma fold_carry_nat:
  "unat (fold_carry s) \<le> 65535 \<and> unat (fold_carry s) mod 65535 = unat s mod 65535
   \<and> (unat (fold_carry s) = 0 \<longleftrightarrow> unat s = 0)"
proof (induction s rule: fold_carry.induct)
  case (1 s)
  show ?case
  proof (cases "s > 65535")
    case True
    let ?q = "unat s div 65536" and ?r = "unat s mod 65536"
    have s: "unat s = 65535 * ?q + (?r + ?q)" by simp
    then have "(?r + ?q) mod 65535 = unat s mod 65535" by (metis mod_mult_self4)
    moreover have "unat s > 65535" using True by (simp add: word_less_nat_alt)
    then have "?r + ?q \<noteq> 0" using s by auto
    ultimately show ?thesis using 1 True \<open>unat s > 65535\<close>
      by (simp only: fold_carry.simps [of s] if_True fold_step) simp
  next
    case False
    then have "unat s \<le> 65535" by (simp add: word_less_nat_alt)
    with False show ?thesis by (simp add: fold_carry.simps [of s])
  qed
qed

lemma unat_not: "unat (NOT (w :: 16 word)) = 65535 - unat w"
proof -
  have "NOT w = - 1 - w" by (simp add: not_eq_complement)
  moreover have "w \<le> - 1" by simp
  ultimately show ?thesis by (simp only: unat_sub) (simp add: unsigned_minus_1_eq_mask mask_eq_exp_minus_1)
qed

lemma checksum_nat:
  assumes "pair_sum bytes < 2 ^ 32"
  obtains f where "f \<le> 65535" "unat (checksum bytes) = 65535 - f"
    "f mod 65535 = pair_sum bytes mod 65535" "f = 0 \<longleftrightarrow> pair_sum bytes = 0"
proof -
  let ?s = "fold_carry (sum_chunks bytes 0)"
  note fold = fold_carry_nat [of "sum_chunks bytes 0"]
  have s: "unat (sum_chunks bytes 0) = pair_sum bytes" using sum_chunks_nat [of 0 bytes] assms by simp
  have "unat (ucast ?s :: 16 word) = unat ?s"
    using fold by (simp add: unsigned_ucast_eq take_bit_eq_mod)
  then have "unat (checksum bytes) = 65535 - unat ?s" by (simp add: checksum_def unat_not)
  with fold s show thesis by (intro that [of "unat ?s"]) simp_all
qed

lemma checksum_zero:
  "pair_sum bytes < 2 ^ 32 \<Longrightarrow> checksum bytes = 0 \<longleftrightarrow> pair_sum bytes mod 65535 = 0 \<and> pair_sum bytes \<noteq> 0"
proof -
  assume "pair_sum bytes < 2 ^ 32"
  then obtain f where f: "f \<le> 65535" "unat (checksum bytes) = 65535 - f"
    "f mod 65535 = pair_sum bytes mod 65535" "f = 0 \<longleftrightarrow> pair_sum bytes = 0" by (rule checksum_nat)
  have "checksum bytes = 0 \<longleftrightarrow> unat (checksum bytes) = 0" by (simp only: unsigned_eq_0_iff)
  also have "\<dots> \<longleftrightarrow> f = 65535" unfolding f(2) using f(1) by linarith
  also have "\<dots> \<longleftrightarrow> f mod 65535 = 0 \<and> f \<noteq> 0"
  proof
    assume "f mod 65535 = 0 \<and> f \<noteq> 0"
    then have "65535 dvd f" "f > 0" by (auto simp: dvd_eq_mod_eq_0)
    then have "65535 \<le> f" by (rule dvd_imp_le)
    with f(1) show "f = 65535" by simp
  qed simp
  finally show ?thesis using f(3,4) by simp
qed

lemma checksum_complements:
  assumes "pair_sum bytes < 2 ^ 32"
  shows "(pair_sum bytes + unat (checksum bytes)) mod 65535 = 0 \<and> pair_sum bytes + unat (checksum bytes) \<noteq> 0"
proof -
  obtain f where f: "f \<le> 65535" "unat (checksum bytes) = 65535 - f"
    "f mod 65535 = pair_sum bytes mod 65535" "f = 0 \<longleftrightarrow> pair_sum bytes = 0"
    using assms by (rule checksum_nat)
  have "(pair_sum bytes + (65535 - f)) mod 65535 = (f + (65535 - f)) mod 65535"
    by (rule mod_add_cong) (simp_all add: f(3))
  also have "\<dots> = 0" using f(1) by simp
  finally show ?thesis using f by (cases "f = 0") auto
qed

section \<open>Frames\<close>

type_synonym ipv4 = "byte \<times> byte \<times> byte \<times> byte"

fun octets :: "ipv4 \<Rightarrow> byte list" where
  "octets (a, b, c, d) = [a, b, c, d]"

text \<open>\<open>packet[i..i + n].copy_from_slice(xs)\<close>\<close>

definition put_at :: "nat \<Rightarrow> byte list \<Rightarrow> byte list \<Rightarrow> byte list" where
  "put_at i xs p = take i p @ xs @ drop (i + length xs) p"

definition udp_frame :: "ipv4 \<Rightarrow> ipv4 \<Rightarrow> byte list \<Rightarrow> byte list res" where
  "udp_frame source destination payload =
     rbind (ensure (length payload \<le> 1200) ''simulation payload exceeds MTU budget'') (\<lambda>_.
     let p0 = (replicate (28 + length payload) 0)[0 := 0x45];
         p1 = put_at 2 (to_be (of_nat (length p0))) p0;
         p2 = p1[6 := 0x40, 8 := 64, 9 := 17];
         p3 = put_at 16 (octets destination) (put_at 12 (octets source) p2);
         header_sum = checksum (take 20 p3);
         p4 = put_at 10 (to_be header_sum) p3;
         p5 = put_at 22 (to_be 42001) (put_at 20 (to_be 42000) p4);
         udp_length = of_nat (length payload) + 8;
         p6 = put_at 28 payload (put_at 24 (to_be udp_length) p5);
         pseudo = octets source @ octets destination @ [0, 17] @ to_be udp_length @ drop 20 p6;
         sum = checksum pseudo
     in Inr (put_at 26 (to_be (if sum = 0 then 65535 else sum)) p6))"

definition udp_payload :: "byte list \<Rightarrow> byte list res" where
  "udp_payload packet =
     rbind (ensure (length packet \<ge> 28 \<and> packet ! 0 = 0x45 \<and> packet ! 9 = 17) ''expected IPv4/UDP'') (\<lambda>_.
     rbind (ensure (unat (from_be (packet ! 2) (packet ! 3)) = length packet) ''IP length mismatch'') (\<lambda>_.
     rbind (ensure (checksum (take 20 packet) = 0) ''IP checksum mismatch'') (\<lambda>_.
     rbind (ensure (unat (from_be (packet ! 24) (packet ! 25)) = length packet - 20) ''UDP length mismatch'') (\<lambda>_.
     let pseudo = take 8 (drop 12 packet) @ [0, 17] @ take 2 (drop 24 packet) @ drop 20 packet in
     rbind (ensure (checksum pseudo = 0) ''UDP checksum mismatch'') (\<lambda>_.
     Inr (drop 28 packet))))))"

text \<open>The frame laid out, with its two length fields and its two checksums.\<close>

definition layout :: "ipv4 \<Rightarrow> ipv4 \<Rightarrow> byte list \<Rightarrow> 16 word \<Rightarrow> 16 word \<Rightarrow> 16 word \<Rightarrow> 16 word \<Rightarrow> byte list" where
  "layout src dst payload n hsum m usum =
     [0x45, 0] @ to_be n @ [0, 0, 0x40, 0, 64, 17] @ to_be hsum @ octets src @ octets dst
     @ to_be 42000 @ to_be 42001 @ to_be m @ to_be usum @ payload"

definition header_total :: "ipv4 \<Rightarrow> ipv4 \<Rightarrow> nat \<Rightarrow> nat" where
  "header_total src dst n = 256 * 0x45 + n + 256 * 0x40 + (256 * 64 + 17) + pair_sum (octets src) + pair_sum (octets dst)"

definition pseudo_total :: "ipv4 \<Rightarrow> ipv4 \<Rightarrow> byte list \<Rightarrow> nat \<Rightarrow> nat" where
  "pseudo_total src dst payload m =
     pair_sum (octets src) + pair_sum (octets dst) + 17 + m + (42000 + 42001 + m + pair_sum payload)"

lemma to_be_two: "to_be w = [ucast (drop_bit 8 w), ucast w]"
  by (simp add: to_be_def)

lemma to_be_sum: "256 * unat (ucast (drop_bit 8 (w :: 16 word)) :: byte) + unat (ucast w :: byte) = unat w"
  using unat_to_be [OF to_be_two, of w] by simp

lemma to_be_length [simp]: "length (to_be w) = 2"
  by (simp add: to_be_def)

lemma octets_length [simp]: "length (octets a) = 4"
  by (cases a) simp

lemma zeros: "replicate (28 + n) x = [x, x, x, x, x, x, x, x, x, x] @ [x, x] @ [x, x, x, x] @ [x, x, x, x]
    @ [x, x] @ [x, x] @ [x, x] @ [x, x] @ replicate n x"
proof -
  have "replicate 28 x = [x, x, x, x, x, x, x, x, x, x] @ [x, x] @ [x, x, x, x] @ [x, x, x, x]
    @ [x, x] @ [x, x] @ [x, x] @ [x, x]" by (simp add: numeral_eq_Suc)
  then show ?thesis by (simp only: replicate_add append_assoc)
qed

lemma put_at_split: "length a = i \<Longrightarrow> length b = length xs \<Longrightarrow> put_at i xs (a @ b @ c) = a @ xs @ c"
  by (simp add: put_at_def)

text \<open>The writes in the order of the code.\<close>

lemma frame_start:
  "(put_at 2 (to_be w) ((replicate (28 + n) 0)[0 := 0x45]))[6 := 0x40, 8 := 64, 9 := 17]
     = [0x45, 0] @ to_be w @ [0, 0, 0x40, 0, 64, 17] @ [0, 0] @ [0, 0, 0, 0] @ [0, 0, 0, 0]
       @ [0, 0] @ [0, 0] @ [0, 0] @ [0, 0] @ replicate n 0"
  unfolding zeros put_at_def to_be_two by (simp add: numeral_eq_Suc)

lemma frame_addresses:
  "put_at 16 (octets dst) (put_at 12 (octets src)
     ([0x45, 0] @ to_be w @ [0, 0, 0x40, 0, 64, 17] @ [0, 0] @ [0, 0, 0, 0] @ [0, 0, 0, 0] @ rest))
   = [0x45, 0] @ to_be w @ [0, 0, 0x40, 0, 64, 17] @ [0, 0] @ octets src @ octets dst @ rest"
proof -
  let ?h = "[0x45, 0] @ to_be w @ [0, 0, 0x40, 0, 64, 17] @ [0, 0]"
  have "put_at 12 (octets src) (?h @ [0, 0, 0, 0] @ [0, 0, 0, 0] @ rest) = ?h @ octets src @ [0, 0, 0, 0] @ rest"
    by (rule put_at_split) simp_all
  moreover have "put_at 16 (octets dst) ((?h @ octets src) @ [0, 0, 0, 0] @ rest) = (?h @ octets src) @ octets dst @ rest"
    by (rule put_at_split) simp_all
  ultimately show ?thesis by simp
qed

lemma frame_header_sum:
  "put_at 10 (to_be h) ([0x45, 0] @ to_be w @ [0, 0, 0x40, 0, 64, 17] @ [0, 0] @ rest)
   = [0x45, 0] @ to_be w @ [0, 0, 0x40, 0, 64, 17] @ to_be h @ rest"
  using put_at_split [of "[0x45, 0] @ to_be w @ [0, 0, 0x40, 0, 64, 17]" 10 "[0, 0]" "to_be h" rest]
  by simp

lemma frame_udp:
  assumes "length head = 20" and "length payload = n"
  shows "put_at 28 payload (put_at 24 (to_be m) (put_at 22 (to_be q) (put_at 20 (to_be p)
     (head @ [0, 0] @ [0, 0] @ [0, 0] @ [0, 0] @ replicate n 0))))
   = head @ to_be p @ to_be q @ to_be m @ [0, 0] @ payload"
proof -
  have "put_at 20 (to_be p) (head @ [0, 0] @ [0, 0] @ [0, 0] @ [0, 0] @ replicate n 0)
      = head @ to_be p @ [0, 0] @ [0, 0] @ [0, 0] @ replicate n 0"
    by (rule put_at_split) (simp_all add: assms)
  moreover have "put_at 22 (to_be q) ((head @ to_be p) @ [0, 0] @ [0, 0] @ [0, 0] @ replicate n 0)
      = (head @ to_be p) @ to_be q @ [0, 0] @ [0, 0] @ replicate n 0"
    by (rule put_at_split) (simp_all add: assms)
  moreover have "put_at 24 (to_be m) ((head @ to_be p @ to_be q) @ [0, 0] @ [0, 0] @ replicate n 0)
      = (head @ to_be p @ to_be q) @ to_be m @ [0, 0] @ replicate n 0"
    by (rule put_at_split) (simp_all add: assms)
  moreover have "put_at 28 payload ((head @ to_be p @ to_be q @ to_be m @ [0, 0]) @ replicate n 0 @ [])
      = (head @ to_be p @ to_be q @ to_be m @ [0, 0]) @ payload @ []"
    by (rule put_at_split) (simp_all add: assms)
  ultimately show ?thesis by simp
qed

lemma frame_udp_sum:
  assumes "length head = 20"
  shows "put_at 26 (to_be u) (head @ to_be p @ to_be q @ to_be m @ [0, 0] @ payload)
   = head @ to_be p @ to_be q @ to_be m @ to_be u @ payload"
  using put_at_split [of "head @ to_be p @ to_be q @ to_be m" 26 "[0, 0]" "to_be u" payload] assms
  by simp

lemma udp_frame_layout:
  assumes "length payload \<le> 1200"
  shows "udp_frame src dst payload =
     (let n = of_nat (28 + length payload); m = of_nat (length payload) + 8;
          h = checksum (take 20 (layout src dst payload n 0 m 0));
          u = checksum (octets src @ octets dst @ [0, 17] @ to_be m @ drop 20 (layout src dst payload n h m 0))
      in Inr (layout src dst payload n h m (if u = 0 then 65535 else u)))"
proof -
  define n :: "16 word" where "n = of_nat (28 + length payload)"
  define m :: "16 word" where "m = of_nat (length payload) + 8"
  define head where "head h = [0x45, 0] @ to_be n @ [0, 0, 0x40, 0, 64, 17] @ to_be h @ octets src @ octets dst" for h
  let ?rest = "[0, 0] @ [0, 0] @ [0, 0] @ [0, 0] @ replicate (length payload) 0"
  have head: "length (head h) = 20" for h by (simp add: head_def)
  have zero: "to_be 0 = [0, 0]" by (simp add: to_be_def)
  have lay: "layout src dst payload n h m u = head h @ to_be 42000 @ to_be 42001 @ to_be m @ to_be u @ payload" for h u
    by (simp add: layout_def head_def)
  have addr: "put_at 16 (octets dst) (put_at 12 (octets src)
       ((put_at 2 (to_be n) ((replicate (28 + length payload) 0)[0 := 0x45]))[6 := 0x40, 8 := 64, 9 := 17]))
     = head 0 @ ?rest"
    unfolding frame_start frame_addresses by (simp add: head_def zero)
  have hsum: "put_at 10 (to_be h) (head 0 @ ?rest) = head h @ ?rest" for h
    using frame_header_sum [of h n "octets src @ octets dst @ ?rest"] by (simp add: head_def zero)
  have len: "of_nat (length ((replicate (28 + length payload) (0 :: byte))[0 := 0x45])) = n"
    by (simp only: length_list_update length_replicate n_def)
  have tk: "take 20 (head h @ xs) = head h" and dr: "drop 20 (head h @ xs) = xs" for h and xs :: "byte list"
    by (simp_all add: head)
  have ok: "ensure (length payload \<le> 1200) msg = Inr ()" for msg using assms by (simp add: ensure_def)
  show ?thesis
    unfolding udp_frame_def Let_def ok len addr tk hsum m_def [symmetric] n_def [symmetric] rbind_Inr
      frame_udp [OF head refl] lay dr frame_udp_sum [OF head] zero
    by simp
qed

section \<open>Sums of a frame\<close>

lemma pair_sum_append: "even (length xs) \<Longrightarrow> pair_sum (xs @ ys) = pair_sum xs + pair_sum ys"
  by (induction xs rule: pair_sum.induct) auto

lemma pair_sum_to_be [simp]: "pair_sum (to_be w @ ys) = unat w + pair_sum ys"
  using to_be_sum [of w] by (simp add: to_be_two)

lemma pair_sum_octets [simp]: "pair_sum (octets a @ ys) = pair_sum (octets a) + pair_sum ys"
  by (rule pair_sum_append) simp

lemma header_pair_sum:
  "pair_sum (take 20 (layout src dst payload n h m u)) = header_total src dst (unat n) + unat h"
proof -
  have "take 20 (layout src dst payload n h m u)
      = [0x45, 0] @ to_be n @ [0, 0, 0x40, 0, 64, 17] @ to_be h @ octets src @ octets dst @ []"
    by (simp add: layout_def)
  then show ?thesis
    by (simp only: pair_sum_to_be pair_sum_octets append.simps pair_sum.simps) (simp add: header_total_def)
qed

lemma pseudo_pair_sum:
  "pair_sum (octets src @ octets dst @ [0, 17] @ to_be m @ drop 20 (layout src dst payload n h m u))
   = pseudo_total src dst payload (unat m) + unat u"
proof -
  have "drop 20 (layout src dst payload n h m u)
      = to_be 42000 @ to_be 42001 @ to_be m @ to_be u @ payload"
    by (simp add: layout_def)
  then show ?thesis
    by (simp only: pair_sum_to_be pair_sum_octets append.simps pair_sum.simps) (simp add: pseudo_total_def)
qed

lemma layout_nth:
  "layout src dst payload n h m u ! 0 = 0x45" "layout src dst payload n h m u ! 9 = 17"
  "from_be (layout src dst payload n h m u ! 2) (layout src dst payload n h m u ! 3) = n"
  "from_be (layout src dst payload n h m u ! 24) (layout src dst payload n h m u ! 25) = m"
  "take 8 (drop 12 (layout src dst payload n h m u)) = octets src @ octets dst"
  "take 2 (drop 24 (layout src dst payload n h m u)) = to_be m"
  "drop 28 (layout src dst payload n h m u) = payload"
proof -
  obtain a b c d where src: "src = (a, b, c, d)" by (cases src)
  obtain e f g k where dst: "dst = (e, f, g, k)" by (cases dst)
  show "layout src dst payload n h m u ! 0 = 0x45" "layout src dst payload n h m u ! 9 = 17"
    "from_be (layout src dst payload n h m u ! 2) (layout src dst payload n h m u ! 3) = n"
    "from_be (layout src dst payload n h m u ! 24) (layout src dst payload n h m u ! 25) = m"
    "take 8 (drop 12 (layout src dst payload n h m u)) = octets src @ octets dst"
    "take 2 (drop 24 (layout src dst payload n h m u)) = to_be m"
    "drop 28 (layout src dst payload n h m u) = payload"
    by (simp_all add: layout_def to_be_two src dst from_to_be [OF to_be_two])
qed

lemma layout_length: "length (layout src dst payload n h m u) = 28 + length payload"
  by (simp add: layout_def)

lemma pair_sum_small: "length bytes \<le> 65535 \<Longrightarrow> pair_sum bytes < 2 ^ 32"
proof -
  assume "length bytes \<le> 65535"
  then have "65535 * length bytes \<le> 65535 * 65535" by (rule mult_le_mono2)
  with pair_sum_bound [of bytes] show ?thesis by simp
qed

text \<open>What \<open>udp_payload\<close> accepts.\<close>

definition pseudo_bytes :: "byte list \<Rightarrow> byte list" where
  "pseudo_bytes packet = take 8 (drop 12 packet) @ [0, 17] @ take 2 (drop 24 packet) @ drop 20 packet"

lemma udp_payload_ok:
  "udp_payload g = Inr q \<longleftrightarrow>
     28 \<le> length g \<and> g ! 0 = 0x45 \<and> g ! 9 = 17 \<and> unat (from_be (g ! 2) (g ! 3)) = length g
     \<and> checksum (take 20 g) = 0 \<and> unat (from_be (g ! 24) (g ! 25)) = length g - 20
     \<and> checksum (pseudo_bytes g) = 0 \<and> q = drop 28 g"
  by (auto simp: udp_payload_def pseudo_bytes_def Let_def res_simps)

lemma accepted_sums:
  assumes "udp_payload g = Inr q"
  shows "pair_sum (take 20 g) mod 65535 = 0" "pair_sum (pseudo_bytes g) mod 65535 = 0"
proof -
  have len: "length g \<le> 65535"
    using assms word16_lt [of "from_be (g ! 2) (g ! 3)"] by (simp add: udp_payload_ok)
  show "pair_sum (take 20 g) mod 65535 = 0"
    using assms checksum_zero [OF pair_sum_small [of "take 20 g"]] by (simp add: udp_payload_ok)
  have "length (pseudo_bytes g) \<le> 65535" using len by (simp add: pseudo_bytes_def)
  then show "pair_sum (pseudo_bytes g) mod 65535 = 0"
    using assms checksum_zero [OF pair_sum_small [of "pseudo_bytes g"]] by (simp add: udp_payload_ok)
qed

text \<open>One byte changed moves the sum by at most 65280, so not by a multiple of 65535.\<close>

definition weight :: "nat \<Rightarrow> nat" where
  "weight i = (if even i then 256 else 1)"

lemma pair_sum_update:
  "i < length xs \<Longrightarrow> pair_sum (xs[i := b]) + weight i * unat (xs ! i) = pair_sum xs + weight i * unat b"
proof (induction xs arbitrary: i rule: pair_sum.induct)
  case (2 a)
  then show ?case by (simp add: weight_def)
next
  case (3 a c bytes)
  consider "i = 0" | "i = 1" | j where "i = Suc (Suc j)" by (metis One_nat_def not0_implies_Suc)
  then show ?case
  proof cases
    case 3
    with "3.IH" [of j] "3.prems" show ?thesis by (simp add: weight_def)
  qed (simp_all add: weight_def)
qed simp

lemma residue_apart:
  assumes "w = 256 \<or> w = 1" and "x < 256" and "y < 256"
    and "a + w * x = c + w * y" and "a mod 65535 = (0 :: nat)" and "c mod 65535 = 0"
  shows "x = y"
proof -
  obtain k where k: "a = 65535 * k" using assms(5) by auto
  obtain l where l: "c = 65535 * l" using assms(6) by auto
  have bound: "w * x < 65535" "w * y < 65535" using assms(1-3) by auto
  have eq: "65535 * k + w * x = 65535 * l + w * y" using assms(4) k l by simp
  have "k = l"
  proof (rule linorder_cases)
    assume "k < l"
    then have "65535 * (k + 1) \<le> 65535 * l" by simp
    with eq bound show ?thesis by linarith
  next
    assume "l < k"
    then have "65535 * (l + 1) \<le> 65535 * k" by simp
    with eq bound show ?thesis by linarith
  qed
  with eq assms(1) show ?thesis by auto
qed

lemma update_apart:
  assumes "i < length xs" and "pair_sum xs mod 65535 = 0" and "pair_sum (xs[i := b]) mod 65535 = 0"
  shows "b = xs ! i"
proof -
  have "weight i = 256 \<or> weight i = 1" by (simp add: weight_def)
  from residue_apart [OF this byte_lt byte_lt pair_sum_update [OF assms(1)] assms(3,2)]
  show ?thesis by (simp add: word_unat_eq_iff)
qed

lemma pseudo_bytes_sum:
  assumes "28 \<le> length g"
  shows "pair_sum (pseudo_bytes g)
    = pair_sum (take 8 (drop 12 g)) + 17 + pair_sum (take 2 (drop 24 g)) + pair_sum (drop 20 g)"
  using assms by (simp add: pseudo_bytes_def pair_sum_append)

section \<open>The WireGuard peer\<close>

text \<open>\<open>boringtun\<close>'s results; the state of the tunnel and its operations are third-party code.\<close>

datatype tunn_result =
    WriteToNetwork "byte list"
  | WriteToTunnel "byte list"
  | TunnDone
  | TunnErr string

record 't tunnel =
  encapsulate :: "byte list \<Rightarrow> 't \<Rightarrow> tunn_result \<times> 't"
  decapsulate :: "byte list \<Rightarrow> 't \<Rightarrow> tunn_result \<times> 't"
  update_timers :: "'t \<Rightarrow> tunn_result \<times> 't"

record received =
  rv_network :: "byte list list"
  rv_packets :: "byte list list"

definition peer_encapsulate :: "'t tunnel \<Rightarrow> byte list \<Rightarrow> 't \<Rightarrow> byte list list res \<times> 't" where
  "peer_encapsulate T packet t =
     (if length packet > 65535 then (Inl (Bail ''IP packet too large''), t)
      else case encapsulate T packet t of
        (WriteToNetwork bytes, t') \<Rightarrow> (Inr [bytes], t')
      | (TunnDone, t') \<Rightarrow> (Inr [], t')
      | (TunnErr e, t') \<Rightarrow> (Inl (Bail (''WireGuard encapsulation: '' @ e)), t')
      | (_, t') \<Rightarrow> (Inl (Bail ''unexpected encapsulation output''), t'))"

fun receive_loop :: "'t tunnel \<Rightarrow> nat \<Rightarrow> byte list \<Rightarrow> received \<Rightarrow> 't \<Rightarrow> received res \<times> 't" where
  "receive_loop T 0 current acc t = (Inl (Bail ''WireGuard output queue exceeded limit''), t)"
| "receive_loop T (Suc n) current acc t =
     (case decapsulate T current t of
        (WriteToNetwork bytes, t') \<Rightarrow> receive_loop T n [] (acc\<lparr>rv_network := rv_network acc @ [bytes]\<rparr>) t'
      | (WriteToTunnel bytes, t') \<Rightarrow> receive_loop T n [] (acc\<lparr>rv_packets := rv_packets acc @ [bytes]\<rparr>) t'
      | (TunnDone, t') \<Rightarrow> (Inr acc, t')
      | (TunnErr e, t') \<Rightarrow> (Inl (Bail (''WireGuard authentication/packet error: '' @ e)), t'))"

definition peer_receive :: "'t tunnel \<Rightarrow> byte list \<Rightarrow> 't \<Rightarrow> received res \<times> 't" where
  "peer_receive T datagram t =
     (if length datagram > 65535 then (Inl (Bail ''datagram too large''), t)
      else receive_loop T 256 datagram \<lparr>rv_network = [], rv_packets = []\<rparr> t)"

definition peer_timers :: "'t tunnel \<Rightarrow> 't \<Rightarrow> byte list list res \<times> 't" where
  "peer_timers T t =
     (case update_timers T t of
        (WriteToNetwork bytes, t') \<Rightarrow> (Inr [bytes], t')
      | (TunnDone, t') \<Rightarrow> (Inr [], t')
      | (TunnErr e, t') \<Rightarrow> (Inl (Bail (''WireGuard timer error: '' @ e)), t')
      | (_, t') \<Rightarrow> (Inl (Bail ''unexpected timer output''), t'))"

lemma receive_loop_bound:
  "receive_loop T n current acc t = (Inr r, t') \<Longrightarrow>
     length (rv_network r) + length (rv_packets r) < length (rv_network acc) + length (rv_packets acc) + n"
  by (induction T n current acc t rule: receive_loop.induct)
    (fastforce split: tunn_result.splits prod.splits)+

text \<open>The same loop without its bound: the tunnel is asked until it says that it is done or fails, after
  the given number of calls.\<close>

inductive drain :: "'t tunnel \<Rightarrow> byte list \<Rightarrow> received \<Rightarrow> 't \<Rightarrow> nat \<Rightarrow> received res \<Rightarrow> 't \<Rightarrow> bool" for T where
  drain_done: "decapsulate T current t = (TunnDone, t') \<Longrightarrow> drain T current acc t 1 (Inr acc) t'"
| drain_err: "decapsulate T current t = (TunnErr e, t') \<Longrightarrow>
    drain T current acc t 1 (Inl (Bail (''WireGuard authentication/packet error: '' @ e))) t'"
| drain_network: "decapsulate T current t = (WriteToNetwork bytes, t1) \<Longrightarrow>
    drain T [] (acc\<lparr>rv_network := rv_network acc @ [bytes]\<rparr>) t1 k r t' \<Longrightarrow> drain T current acc t (Suc k) r t'"
| drain_tunnel: "decapsulate T current t = (WriteToTunnel bytes, t1) \<Longrightarrow>
    drain T [] (acc\<lparr>rv_packets := rv_packets acc @ [bytes]\<rparr>) t1 k r t' \<Longrightarrow> drain T current acc t (Suc k) r t'"

definition queue_exceeded :: "received res" where
  "queue_exceeded = Inl (Bail ''WireGuard output queue exceeded limit'')"

lemma drain_positive: "drain T current acc t k r t' \<Longrightarrow> 0 < k"
  by (induction rule: drain.induct) auto

lemma drain_loop:
  "drain T current acc t k r t' \<Longrightarrow>
     (if k \<le> n then receive_loop T n current acc t = (r, t') else fst (receive_loop T n current acc t) = queue_exceeded)"
proof (induction arbitrary: n rule: drain.induct)
  case (drain_done current t t' acc)
  then show ?case by (cases n) (simp_all add: queue_exceeded_def)
next
  case (drain_err current t e t' acc)
  then show ?case by (cases n) (simp_all add: queue_exceeded_def)
next
  case (drain_network current t bytes t1 acc k r t')
  from drain_network.IH [of "n - 1"] drain_network.hyps show ?case by (cases n) (auto simp: queue_exceeded_def)
next
  case (drain_tunnel current t bytes t1 acc k r t')
  from drain_tunnel.IH [of "n - 1"] drain_tunnel.hyps show ?case by (cases n) (auto simp: queue_exceeded_def)
qed

lemma loop_drains:
  "receive_loop T n current acc t = (r, t') \<Longrightarrow> r = queue_exceeded \<or> (\<exists>k. drain T current acc t k r t')"
proof (induction T n current acc t rule: receive_loop.induct)
  case (1 T current acc t)
  then show ?case by (simp add: queue_exceeded_def)
next
  case (2 T n current acc t)
  obtain x t1 where d: "decapsulate T current t = (x, t1)" by (rule prod.exhaust)
  show ?case
  proof (cases x)
    case (WriteToNetwork b)
    with 2 d show ?thesis by (auto intro: drain_network)
  next
    case (WriteToTunnel b)
    with 2 d show ?thesis by (auto intro: drain_tunnel)
  next
    case TunnDone
    with 2 d show ?thesis by (auto intro: drain_done)
  next
    case (TunnErr e)
    from drain_err [OF d [unfolded TunnErr], of acc] 2 d TunnErr show ?thesis by auto
  qed
qed

section \<open>Properties\<close>

lemma frame_accepted:
  assumes "length payload \<le> 1200"
  shows "\<exists>f. udp_frame src dst payload = Inr f \<and> udp_payload f = Inr payload \<and> length f = 28 + length payload"
proof -
  define n :: "16 word" where "n = of_nat (28 + length payload)"
  define m :: "16 word" where "m = of_nat (length payload) + 8"
  define h where "h = checksum (take 20 (layout src dst payload n 0 m 0))"
  define u where "u = checksum (octets src @ octets dst @ [0, 17] @ to_be m @ drop 20 (layout src dst payload n h m 0))"
  define v where "v = (if u = 0 then 65535 else u)"
  let ?f = "layout src dst payload n h m v"
  have frame: "udp_frame src dst payload = Inr ?f"
    using udp_frame_layout [OF assms, of src dst] by (simp only: Let_def n_def m_def h_def u_def v_def)
  have n: "unat n = 28 + length payload" using assms by (simp only: n_def unat_of_nat take_bit_eq_mod) simp
  have "m = of_nat (length payload + 8)" by (simp add: m_def)
  then have m: "unat m = length payload + 8" using assms by (simp only: unat_of_nat take_bit_eq_mod) simp
  have addr: "pair_sum (octets src) \<le> 65535 * 4" "pair_sum (octets dst) \<le> 65535 * 4"
    using pair_sum_bound [of "octets src"] pair_sum_bound [of "octets dst"] by simp_all
  have pay: "pair_sum payload \<le> 65535 * 1200" using pair_sum_bound [of payload] assms by linarith
  have hsmall: "header_total src dst (unat n) < 2 ^ 32" using addr n assms by (simp add: header_total_def)
  have psmall: "pseudo_total src dst payload (unat m) < 2 ^ 31" using addr m assms pay by (simp add: pseudo_total_def)
  have hs: "pair_sum (take 20 (layout src dst payload n 0 m 0)) = header_total src dst (unat n)"
    by (simp add: header_pair_sum)
  have us: "pair_sum (octets src @ octets dst @ [0, 17] @ to_be m @ drop 20 (layout src dst payload n h m 0))
      = pseudo_total src dst payload (unat m)"
    unfolding pseudo_pair_sum by simp
  have "checksum (take 20 ?f) = 0"
  proof -
    have "unat h < 65536" by (rule word16_lt)
    have "pair_sum (take 20 ?f) = header_total src dst (unat n) + unat h" by (rule header_pair_sum)
    moreover have "header_total src dst (unat n) + unat h < 2 ^ 32"
      using addr n assms \<open>unat h < 65536\<close> by (simp add: header_total_def)
    moreover note checksum_complements [of "take 20 (layout src dst payload n 0 m 0)", unfolded hs, OF hsmall, folded h_def]
    ultimately show ?thesis by (simp add: checksum_zero)
  qed
  moreover have "checksum (pseudo_bytes ?f) = 0"
  proof -
    have v: "unat v mod 65535 = unat u mod 65535" "unat v < 65536" by (auto simp: v_def intro: word16_lt)
    have "v \<noteq> 0" by (simp add: v_def)
    then have "unat v \<noteq> 0" by (simp only: unsigned_eq_0_iff not_False_eq_True)
    have p: "pair_sum (pseudo_bytes ?f) = pseudo_total src dst payload (unat m) + unat v"
      using pseudo_pair_sum [of src dst m payload n h v] by (simp add: pseudo_bytes_def layout_nth)
    have c: "(pseudo_total src dst payload (unat m) + unat u) mod 65535 = 0"
      using checksum_complements [of "octets src @ octets dst @ [0, 17] @ to_be m @ drop 20 (layout src dst payload n h m 0)",
          unfolded us, folded u_def] psmall by simp
    have "(pseudo_total src dst payload (unat m) + unat v) mod 65535 = 0"
      using c v(1) by (metis mod_add_right_eq)
    then show ?thesis
      using p psmall v(2) \<open>unat v \<noteq> 0\<close> by (subst checksum_zero) simp_all
  qed
  ultimately have "udp_payload ?f = Inr payload"
    by (simp add: udp_payload_ok layout_nth layout_length n m)
  with frame show ?thesis by (simp add: layout_length)
qed

text \<open>C36: A frame round-trips: the payload of up to 1200 bytes that is put in a UDP frame is what the
  receiver takes out of it, every length and checksum test passed.\<close>

lemma udp_frame_roundtrip:
  assumes "length payload \<le> 1200"
  shows "rbind (udp_frame src dst payload) udp_payload = Inr payload"
  using frame_accepted [OF assms, of src dst] by auto

lemma udp_frame_roundtrip_witness:
  "rbind (udp_frame (10, 66, 66, 2) (10, 66, 66, 1) [1, 2, 3]) udp_payload = Inr [1, 2, 3]"
  by (rule udp_frame_roundtrip) simp

text \<open>A frame in which any single byte is changed is refused: in the header by the header's
  checksum, in the lengths by the length tests, elsewhere by the UDP checksum.\<close>

lemma corrupted_byte_is_refused:
  assumes "udp_payload f = Inr p" and "i < length f" and "b \<noteq> f ! i"
  shows "\<not> is_ok (udp_payload (f[i := b]))"
proof
  let ?g = "f[i := b]"
  assume "is_ok (udp_payload ?g)"
  then obtain q where g: "udp_payload ?g = Inr q" by (auto simp: is_ok_def split: sum.splits)
  have len: "28 \<le> length f" using assms(1) by (simp add: udp_payload_ok)
  consider "i < 20" | "i = 24" | "i = 25" | "20 \<le> i" "i \<noteq> 24" "i \<noteq> 25" by linarith
  then show False
  proof cases
    case 1
    then have "take 20 ?g = (take 20 f)[i := b]" by (simp add: take_update_swap)
    with update_apart [of i "take 20 f" b] accepted_sums(1) [OF assms(1)] accepted_sums(1) [OF g] 1 len assms(3)
    show False by simp
  next
    case 2
    from assms(1) g have "unat (from_be (f ! 24) (f ! 25)) = unat (from_be (?g ! 24) (?g ! 25))"
      by (simp add: udp_payload_ok)
    with 2 len assms(3) show False by (simp add: unat_from_be word_unat_eq_iff)
  next
    case 3
    from assms(1) g have "unat (from_be (f ! 24) (f ! 25)) = unat (from_be (?g ! 24) (?g ! 25))"
      by (simp add: udp_payload_ok)
    with 3 len assms(3) show False by (simp add: unat_from_be word_unat_eq_iff)
  next
    case 4
    have d: "drop 20 ?g = (drop 20 f)[i - 20 := b]" using 4 by (simp add: drop_update_swap)
    have "take 8 (drop 12 ?g) = take 8 (drop 12 f)" and "take 2 (drop 24 ?g) = take 2 (drop 24 f)"
      using 4 len by (auto simp: list_eq_iff_nth_eq nth_list_update)
    then have s: "pair_sum (pseudo_bytes ?g) = pair_sum (take 8 (drop 12 f)) + 17 + pair_sum (take 2 (drop 24 f))
        + pair_sum ((drop 20 f)[i - 20 := b])"
      using len d by (simp add: pseudo_bytes_sum)
    have w: "weight (i - 20) = 256 \<or> weight (i - 20) = 1" by (simp add: weight_def)
    have i: "i - 20 < length (drop 20 f)" using 4 assms(2) by simp
    have at: "drop 20 f ! (i - 20) = f ! i" using 4 assms(2) len by simp
    have "pair_sum (pseudo_bytes ?g) + weight (i - 20) * unat (f ! i)
        = pair_sum (pseudo_bytes f) + weight (i - 20) * unat b"
      using pair_sum_update [OF i, of b] s at by (simp add: pseudo_bytes_sum [OF len])
    from residue_apart [OF w byte_lt byte_lt this accepted_sums(2) [OF g] accepted_sums(2) [OF assms(1)]]
    show False using assms(3) by (simp add: word_unat_eq_iff)
  qed
qed

lemma corrupted_byte_is_refused_witness:
  "case udp_frame (10, 66, 66, 2) (10, 66, 66, 1) [1, 2, 3] of
     Inl _ \<Rightarrow> False
   | Inr f \<Rightarrow> \<not> is_ok (udp_payload (f[30 := f ! 30 + 1])) \<and> \<not> is_ok (udp_payload (f[12 := f ! 12 + 1]))"
proof -
  obtain f where f: "udp_frame (10, 66, 66, 2) (10, 66, 66, 1) [1, 2, 3] = Inr f" "udp_payload f = Inr [1, 2, 3]"
    "length f = 31"
    using frame_accepted [of "[1, 2, 3]" "(10, 66, 66, 2)" "(10, 66, 66, 1)"] by auto
  have "\<not> is_ok (udp_payload (f[i := f ! i + 1]))" if "i < 31" for i
    using corrupted_byte_is_refused [OF f(2), of i "f ! i + 1"] that f(3) by simp
  with f(1) show ?thesis by simp
qed

text \<open>C39: Receiving a datagram always ends, also where the tunnel never stops giving output: what the tunnel
  gives within 256 calls is returned, all of it and in its order; if it is not done by then, or never
  is, receiving gives an error.\<close>

theorem receiving_always_ends:
  assumes "length datagram \<le> 65535"
  shows "(\<forall>k r t'. drain T datagram \<lparr>rv_network = [], rv_packets = []\<rparr> t k r t' \<longrightarrow>
      (if k \<le> 256 then peer_receive T datagram t = (r, t') else fst (peer_receive T datagram t) = queue_exceeded))
    \<and> ((\<nexists>k r t'. drain T datagram \<lparr>rv_network = [], rv_packets = []\<rparr> t k r t') \<longrightarrow>
      fst (peer_receive T datagram t) = queue_exceeded)"
proof -
  let ?a = "\<lparr>rv_network = [], rv_packets = []\<rparr>"
  have p: "peer_receive T datagram t = receive_loop T 256 datagram ?a t" using assms by (simp add: peer_receive_def)
  obtain r t' where r: "receive_loop T 256 datagram ?a t = (r, t')" by (rule prod.exhaust)
  show ?thesis
    unfolding p
  proof (intro conjI allI impI)
    fix k r t'
    assume "drain T datagram ?a t k r t'"
    then show "if k \<le> 256 then receive_loop T 256 datagram ?a t = (r, t')
      else fst (receive_loop T 256 datagram ?a t) = queue_exceeded" by (rule drain_loop)
  next
    assume "\<nexists>k r t'. drain T datagram ?a t k r t'"
    with loop_drains [OF r] r show "fst (receive_loop T 256 datagram ?a t) = queue_exceeded" by auto
  qed
qed

text \<open>A tunnel with one answer pending, and one that never ends.\<close>

definition answering :: "bool tunnel" where
  "answering = \<lparr>encapsulate = (\<lambda>_ t. (TunnDone, t)),
     decapsulate = (\<lambda>bytes t. if t then (WriteToNetwork bytes, False) else (TunnDone, False)),
     update_timers = (\<lambda>t. (TunnDone, t))\<rparr>"

definition endless :: "unit tunnel" where
  "endless = \<lparr>encapsulate = (\<lambda>_ t. (TunnDone, t)), decapsulate = (\<lambda>bytes t. (WriteToTunnel bytes, t)),
     update_timers = (\<lambda>t. (TunnDone, t))\<rparr>"

lemma endless_never_drains: "drain endless current acc t k r t' \<Longrightarrow> False"
  by (induction rule: drain.induct) (simp_all add: endless_def)

lemma receiving_always_ends_witness:
  "peer_receive answering [1, 2] True = (Inr \<lparr>rv_network = [[1, 2]], rv_packets = []\<rparr>, False)
   \<and> fst (peer_receive endless [1, 2] ()) = queue_exceeded"
proof -
  have "drain answering [] \<lparr>rv_network = [[1, 2]], rv_packets = []\<rparr> False 1 (Inr \<lparr>rv_network = [[1, 2]], rv_packets = []\<rparr>) False"
    by (rule drain_done) (simp add: answering_def)
  then have "drain answering [1, 2] \<lparr>rv_network = [], rv_packets = []\<rparr> True (Suc 1) (Inr \<lparr>rv_network = [[1, 2]], rv_packets = []\<rparr>) False"
    by (intro drain_network) (simp_all add: answering_def)
  with receiving_always_ends [of "[1, 2]" answering True] receiving_always_ends [of "[1, 2]" endless "()"]
    endless_never_drains
  show ?thesis by fastforce
qed

text \<open>Receiving ends after at most 256 calls of the tunnel, with at most 255 outputs.\<close>

lemma receive_is_bounded:
  "peer_receive T datagram t = (Inr r, t') \<Longrightarrow> length (rv_network r) + length (rv_packets r) \<le> 255"
  using receive_loop_bound [of T 256 datagram "\<lparr>rv_network = [], rv_packets = []\<rparr>" t r t']
  by (auto simp: peer_receive_def split: if_splits)

end
