(* ===== verification/Exchange.thy ===== *)
theory Exchange
  imports JournalProperties
begin

text \<open>
  The exchange with a provider in \<open>crates/omni-core/src/http.rs\<close>: the guard \<open>ExchangeTrace\<close>, which
  follows a response, reads the usage counts from its JSON values and server-sent events, and completes
  the journal entry exactly once; and the bounded readers of bodies and streams. The elapsed time, the
  state of the vault's lock and the moment are given with each event; a journal write whose result the
  code ignores leaves the store as it was when it fails.
\<close>

section \<open>State\<close>

record token_usage =
  tk_uncached :: "nat option"
  tk_read :: "nat option"
  tk_written :: "nat option"

record trace =
  tr_id :: string
  tr_finish :: interaction_finish
  tr_completed :: bool
  tr_streaming :: bool
  tr_protocol :: string
  tr_stream_error :: bool
  tr_stream_ended :: bool
  tr_no_cache_write :: bool
  tr_anthropic :: "token_usage option"
  tr_pending :: string
  tr_discard :: bool

text \<open>When something happens: the draw of the journal, whether \<open>AppState::vault\<close> gives the vault (the
  lock is usable, and the administration rows, which the opening of the exchange has put there, are
  readable), and the milliseconds since the exchange began.\<close>

record occasion =
  oc_draw :: draw
  oc_lock :: bool
  oc_elapsed :: nat

definition elapsed_ms :: "occasion \<Rightarrow> nat" where
  "elapsed_ms q = min (oc_elapsed q) u64_max"

definition new_trace :: "platform \<Rightarrow> draw \<Rightarrow> interaction_start \<Rightarrow> db \<Rightarrow> trace stmts" where
  "new_trace P w entry d =
     then_stmt (journal_start P w entry d) (\<lambda>_ d.
     (Inr \<lparr>tr_id = is_id entry, tr_finish = default_finish, tr_completed = False,
        tr_streaming = is_streaming entry, tr_protocol = is_protocol entry, tr_stream_error = False,
        tr_stream_ended = False, tr_no_cache_write = False, tr_anthropic = None, tr_pending = [],
        tr_discard = False\<rparr>, d))"

definition write_finish :: "platform \<Rightarrow> occasion \<Rightarrow> trace \<Rightarrow> db \<Rightarrow> db" where
  "write_finish P q t d =
     (if oc_lock q then snd (commit (journal_finish P (oc_draw q) (tr_id t) (tr_finish t) d) d) else d)"

definition trace_headers :: "platform \<Rightarrow> occasion \<Rightarrow> nat \<Rightarrow> trace \<times> db \<Rightarrow> trace \<times> db" where
  "trace_headers P q status td =
     (let t = fst td;
          t1 = t\<lparr>tr_finish := (tr_finish t)\<lparr>if_http := Some status, if_header_ms := Some (elapsed_ms q)\<rparr>\<rparr>
      in if tr_streaming t1
         then (let t2 = t1\<lparr>tr_finish := (tr_finish t1)\<lparr>if_status := ''streaming''\<rparr>\<rparr>
               in (t2, write_finish P q t2 (snd td)))
         else (t1, snd td))"

section \<open>Usage counts\<close>

definition safe_token_count :: "json \<Rightarrow> nat option" where
  "safe_token_count v = Option.bind (as_u64 v) (\<lambda>n. if n \<le> i64_max then Some n else None)"

definition token_sum :: "nat option \<Rightarrow> nat option \<Rightarrow> nat option" where
  "token_sum l r =
     Option.bind l (\<lambda>x. Option.bind r (\<lambda>y. Option.bind (checked_add x y) (\<lambda>n. if n \<le> i64_max then Some n else None)))"

definition first_of :: "'a option \<Rightarrow> 'a option \<Rightarrow> 'a option" where
  "first_of x y = (case x of None \<Rightarrow> y | Some v \<Rightarrow> Some v)"

text \<open>The OpenAI counts include cached input; counts that contradict each other are dropped.\<close>

definition cache_exceeds :: "nat option \<Rightarrow> nat option \<Rightarrow> nat \<Rightarrow> bool" where
  "cache_exceeds cached written n \<longleftrightarrow>
     (case cached of None \<Rightarrow> False | Some c \<Rightarrow> c > n) \<or> (case written of None \<Rightarrow> False | Some w \<Rightarrow> w > n)
     \<or> (case (cached, written) of
          (Some c, Some w) \<Rightarrow> (case checked_add c w of None \<Rightarrow> True | Some cw \<Rightarrow> cw > n) | _ \<Rightarrow> False)"

definition prompt_usage :: "json \<Rightarrow> trace \<Rightarrow> trace" where
  "prompt_usage usage t =
     (case j_get ''prompt_tokens'' usage of
        None \<Rightarrow> t
      | Some v \<Rightarrow>
          (let inp = safe_token_count v;
               cached = Option.bind (Option.bind (j_get ''prompt_tokens_details'' usage) (j_get ''cached_tokens'')) safe_token_count;
               written = (case j_get ''cache_write_tokens'' usage of
                   Some v \<Rightarrow> safe_token_count v
                 | None \<Rightarrow> if tr_no_cache_write t then Some 0 else None);
               clash = (case inp of None \<Rightarrow> False | Some n \<Rightarrow> cache_exceeds cached written n)
           in t\<lparr>tr_finish := (tr_finish t)\<lparr>if_input := inp,
                  if_cached := (if clash then None else cached), if_written := (if clash then None else written)\<rparr>\<rparr>))"

text \<open>The Anthropic counts are separate and arrive in several events.\<close>

definition split_usage :: "json \<Rightarrow> trace \<Rightarrow> trace" where
  "split_usage usage t =
     (if j_get ''input_tokens'' usage \<noteq> None \<or> j_get ''cache_read_input_tokens'' usage \<noteq> None
         \<or> j_get ''cache_creation_input_tokens'' usage \<noteq> None
      then (let c0 = (case tr_anthropic t of None \<Rightarrow> \<lparr>tk_uncached = None, tk_read = None, tk_written = None\<rparr> | Some c \<Rightarrow> c);
                c1 = (case j_get ''input_tokens'' usage of None \<Rightarrow> c0 | Some v \<Rightarrow> c0\<lparr>tk_uncached := safe_token_count v\<rparr>);
                c2 = (case j_get ''cache_read_input_tokens'' usage of None \<Rightarrow> c1 | Some v \<Rightarrow> c1\<lparr>tk_read := safe_token_count v\<rparr>);
                c3 = (case j_get ''cache_creation_input_tokens'' usage of None \<Rightarrow> c2 | Some v \<Rightarrow> c2\<lparr>tk_written := safe_token_count v\<rparr>)
            in t\<lparr>tr_anthropic := Some c3, tr_finish := (tr_finish t)\<lparr>
                 if_input := token_sum (token_sum (tk_uncached c3) (tk_read c3)) (tk_written c3),
                 if_cached := tk_read c3, if_written := tk_written c3\<rparr>\<rparr>)
      else t)"

definition output_of :: "json \<Rightarrow> json option" where
  "output_of usage = first_of (j_get ''completion_tokens'' usage) (j_get ''output_tokens'' usage)"

definition opt_le :: "nat option \<Rightarrow> nat \<Rightarrow> bool" where
  "opt_le x n \<longleftrightarrow> (case x of None \<Rightarrow> True | Some m \<Rightarrow> m \<le> n)"

definition unusable :: "json option \<Rightarrow> bool" where
  "unusable x \<longleftrightarrow> (case x of None \<Rightarrow> False | Some v \<Rightarrow> safe_token_count v = None)"

text \<open>The total: the reported one if it fits the other counts, else their sum; nothing when a count is
  unusable or the split counts are incomplete.\<close>

definition total_of :: "json \<Rightarrow> nat option \<Rightarrow> nat option \<Rightarrow> bool \<Rightarrow> nat option" where
  "total_of usage inp out separate =
     (let summed = token_sum inp out;
          total = (case j_get ''total_tokens'' usage of
              Some v \<Rightarrow> Option.bind (safe_token_count v) (\<lambda>n.
                if (case summed of None \<Rightarrow> True | Some s \<Rightarrow> s = n) \<and> opt_le inp n \<and> opt_le out n
                then Some n else None)
            | None \<Rightarrow> summed)
      in if unusable (j_get ''prompt_tokens'' usage) \<or> unusable (output_of usage) \<or> (separate \<and> inp = None)
         then None else total)"

definition total_usage :: "json \<Rightarrow> trace \<Rightarrow> trace" where
  "total_usage usage t =
     t\<lparr>tr_finish := (tr_finish t)\<lparr>if_total :=
         total_of usage (if_input (tr_finish t)) (if_output (tr_finish t)) (tr_anthropic t \<noteq> None)\<rparr>\<rparr>"

definition output_usage :: "json \<Rightarrow> trace \<Rightarrow> trace" where
  "output_usage usage t =
     (case output_of usage of
        None \<Rightarrow> t
      | Some v \<Rightarrow> t\<lparr>tr_finish := (tr_finish t)\<lparr>if_output := safe_token_count v\<rparr>\<rparr>)"

definition trace_usage :: "json \<Rightarrow> trace \<Rightarrow> trace" where
  "trace_usage v t =
     (case first_of (j_get ''usage'' v) (Option.bind (j_get ''message'' v) (j_get ''usage'')) of
        None \<Rightarrow> t
      | Some usage \<Rightarrow> total_usage usage (output_usage usage (split_usage usage (prompt_usage usage t))))"

section \<open>Server-sent events\<close>

definition ascii_space :: "char \<Rightarrow> bool" where
  "ascii_space c \<longleftrightarrow> byte_of c \<in> {9, 10, 12, 13, 32}"

definition trim_ascii :: "string \<Rightarrow> string" where
  "trim_ascii s = rev (dropWhile ascii_space (rev (dropWhile ascii_space s)))"

definition error_event :: "json \<Rightarrow> bool" where
  "error_event v \<longleftrightarrow>
     (get_str ''type'' v = Some ''error'' \<and> (case j_get ''error'' v of None \<Rightarrow> False | Some e \<Rightarrow> is_object e))
     \<or> (case v of JObj kvs \<Rightarrow> length kvs = 1 \<and> (case map_of kvs ''error'' of None \<Rightarrow> False | Some e \<Rightarrow> is_object e) | _ \<Rightarrow> False)"

definition sse_value :: "json \<Rightarrow> trace \<Rightarrow> trace" where
  "sse_value v t =
     (if error_event v then t\<lparr>tr_stream_error := True\<rparr>
      else trace_usage v
        (if tr_protocol t = ''anthropic'' \<and> get_str ''type'' v = Some ''message_stop''
         then t\<lparr>tr_stream_ended := True\<rparr> else t))"

definition sse_line :: "platform \<Rightarrow> string \<Rightarrow> trace \<Rightarrow> trace" where
  "sse_line P line t =
     (case strip_prefix ''data:'' line of
        None \<Rightarrow> t
      | Some data \<Rightarrow>
          (let t1 = (if tr_protocol t = ''openai'' \<and> trim_ascii data = ''[DONE]'' then t\<lparr>tr_stream_ended := True\<rparr> else t)
           in case json_parse P data of None \<Rightarrow> t1 | Some v \<Rightarrow> sse_value v t1))"

definition line_limit :: nat where "line_limit = 65536"

definition sse_byte :: "platform \<Rightarrow> char \<Rightarrow> trace \<Rightarrow> trace" where
  "sse_byte P b t =
     (if b = CHR 0x0A
      then (if \<not> tr_discard t then sse_line P (tr_pending t) t else t)\<lparr>tr_pending := [], tr_discard := False\<rparr>
      else if \<not> tr_discard t
      then (if length (tr_pending t) < line_limit then t\<lparr>tr_pending := tr_pending t @ [b]\<rparr>
            else t\<lparr>tr_pending := [], tr_discard := True\<rparr>)
      else t)"

definition count_bytes :: "nat \<Rightarrow> trace \<Rightarrow> trace" where
  "count_bytes n t =
     t\<lparr>tr_finish := (tr_finish t)\<lparr>if_response_bytes := saturating_add (if_response_bytes (tr_finish t)) n\<rparr>\<rparr>"

definition trace_chunk :: "platform \<Rightarrow> string \<Rightarrow> bool \<Rightarrow> trace \<Rightarrow> trace" where
  "trace_chunk P chunk sse t =
     (let t1 = count_bytes (length chunk) t in if \<not> sse then t1 else fold (sse_byte P) chunk t1)"

section \<open>Completion\<close>

definition trace_complete :: "platform \<Rightarrow> occasion \<Rightarrow> string \<Rightarrow> string option \<Rightarrow> trace \<times> db \<Rightarrow> trace \<times> db" where
  "trace_complete P q status err td =
     (let (t, d) = td in
      if tr_completed t then (t, d)
      else let t1 = t\<lparr>tr_completed := True, tr_finish := (tr_finish t)\<lparr>
                 if_status := (if tr_stream_error t then ''failed'' else status),
                 if_error := (if tr_stream_error t then Some ''upstream_stream_error'' else err),
                 if_total_ms := Some (elapsed_ms q)\<rparr>\<rparr>
           in (t1, write_finish P q t1 d))"

definition response_complete :: "platform \<Rightarrow> occasion \<Rightarrow> trace \<times> db \<Rightarrow> trace \<times> db" where
  "response_complete P q td =
     (let t = fst td in
      if (case if_http (tr_finish t) of None \<Rightarrow> False | Some status \<Rightarrow> 200 \<le> status \<and> status < 300)
      then (if tr_streaming t \<and> List.member [''openai'', ''anthropic''] (tr_protocol t) \<and> \<not> tr_stream_ended t
            then trace_complete P q ''failed'' (Some ''upstream_stream_incomplete'') td
            else trace_complete P q ''succeeded'' None td)
      else trace_complete P q ''failed'' (Some ''provider_http_error'') td)"

definition drop_trace :: "platform \<Rightarrow> occasion \<Rightarrow> trace \<times> db \<Rightarrow> trace \<times> db" where
  "drop_trace P q td =
     (if \<not> tr_completed (fst td) then trace_complete P q ''aborted'' (Some ''client_disconnected'') td else td)"

section \<open>Bounded readers\<close>

datatype delivery = Chunk string | Broken bool | Ended | Stalled

text \<open>\<open>read_bounded_body\<close>: the announced length and the chunks; \<open>Broken\<close> says whether it was a
  timeout. A body that just stops arriving is a timeout of the client.\<close>

definition too_large :: string where "too_large = ''Provider response exceeds the allowed size''"

fun read_chunks :: "nat \<Rightarrow> delivery list \<Rightarrow> string \<Rightarrow> string res" where
  "read_chunks limit (Chunk c # as) body =
     (if length c > limit - length body then Inl (Bail too_large) else read_chunks limit as (body @ c))"
| "read_chunks limit (Broken timeout # as) body =
     Inl (Io (if timeout then ''Provider response timed out'' else ''Provider response interrupted''))"
| "read_chunks limit (Ended # as) body = Inr body"
| "read_chunks limit _ body = Inl (Io ''Provider response timed out'')"

definition read_bounded_body :: "nat \<Rightarrow> nat option \<Rightarrow> delivery list \<Rightarrow> string res" where
  "read_bounded_body limit announced as =
     (if (case announced of None \<Rightarrow> False | Some n \<Rightarrow> n > limit) then Inl (Bail too_large)
      else read_chunks limit as [])"

text \<open>\<open>read_tracked_body\<close>: the same, with the trace.\<close>

fun track_chunks ::
    "platform \<Rightarrow> nat \<Rightarrow> (occasion \<times> delivery) list \<Rightarrow> string \<Rightarrow> trace \<times> db \<Rightarrow> string res \<times> trace \<times> db" where
  "track_chunks P limit ((q, Chunk c) # as) body (t, d) =
     (let t1 = trace_chunk P c False t in
      if length c > limit - length body
      then (Inl (Bail too_large), trace_complete P q ''failed'' (Some ''response_too_large'') (t1, d))
      else track_chunks P limit as (body @ c) (t1, d))"
| "track_chunks P limit ((q, Broken timeout) # as) body td =
     (Inl (Io (if timeout then ''Provider response timed out'' else ''Provider response interrupted'')),
      trace_complete P q ''failed'' (Some (if timeout then ''provider_timeout'' else ''stream_interrupted'')) td)"
| "track_chunks P limit ((q, Stalled) # as) body td =
     (Inl (Io ''Provider response timed out''), trace_complete P q ''failed'' (Some ''provider_timeout'') td)"
| "track_chunks P limit ((q, Ended) # as) body td = (Inr body, td)"
| "track_chunks P limit [] body td = (Inl (Io ''Provider response timed out''), td)"

definition read_tracked_body ::
    "platform \<Rightarrow> occasion \<Rightarrow> nat \<Rightarrow> nat option \<Rightarrow> (occasion \<times> delivery) list \<Rightarrow> trace \<times> db \<Rightarrow> string res \<times> trace \<times> db" where
  "read_tracked_body P q limit announced as td =
     (if (case announced of None \<Rightarrow> False | Some n \<Rightarrow> n > limit)
      then (Inl (Bail too_large), trace_complete P q ''failed'' (Some ''response_too_large'') td)
      else track_chunks P limit as [] td)"

text \<open>\<open>bounded_stream\<close>: the chunks forwarded to the client, up to the end of what arrives (where the
  client goes away, at the given occasion), and how the exchange was recorded. The trace is dropped
  when the stream ends.\<close>

fun relay ::
    "platform \<Rightarrow> nat \<Rightarrow> occasion \<Rightarrow> (occasion \<times> delivery) list \<Rightarrow> nat \<Rightarrow> trace \<times> db \<Rightarrow> string list \<times> trace \<times> db" where
  "relay P limit gone [] used td = ([], drop_trace P gone td)"
| "relay P limit gone ((q, Chunk c) # as) used (t, d) =
     (let t1 = trace_chunk P c True t in
      if length c > limit - used
      then ([], drop_trace P gone (trace_complete P q ''failed'' (Some ''response_too_large'') (t1, d)))
      else let (out, td) = relay P limit gone as (used + length c) (t1, d) in (c # out, td))"
| "relay P limit gone ((q, Broken timeout) # as) used td =
     ([], drop_trace P gone (trace_complete P q ''failed'' (Some ''stream_interrupted'') td))"
| "relay P limit gone ((q, Ended) # as) used td = ([], drop_trace P gone (response_complete P q td))"
| "relay P limit gone ((q, Stalled) # as) used td =
     ([], drop_trace P gone (trace_complete P q ''failed'' (Some ''stream_timeout'') td))"

section \<open>The parser and the counters\<close>

text \<open>Reading values and lines neither depends on nor changes the byte count and the line buffer.\<close>

definition rebuffer :: "nat \<Rightarrow> string \<Rightarrow> bool \<Rightarrow> trace \<Rightarrow> trace" where
  "rebuffer n p x t = (count_bytes n t)\<lparr>tr_pending := p, tr_discard := x\<rparr>"

lemma rebuffer_fields [simp]:
  "tr_protocol (rebuffer n p x t) = tr_protocol t" "tr_no_cache_write (rebuffer n p x t) = tr_no_cache_write t"
  "tr_anthropic (rebuffer n p x t) = tr_anthropic t" "tr_pending (rebuffer n p x t) = p" "tr_discard (rebuffer n p x t) = x"
  "if_input (tr_finish (rebuffer n p x t)) = if_input (tr_finish t)"
  "if_output (tr_finish (rebuffer n p x t)) = if_output (tr_finish t)"
  "tr_stream_ended (rebuffer n p x t) = tr_stream_ended t" "tr_stream_error (rebuffer n p x t) = tr_stream_error t"
  by (simp_all add: rebuffer_def count_bytes_def)

lemma prompt_usage_rebuffer: "prompt_usage u (rebuffer n p x t) = rebuffer n p x (prompt_usage u t)"
  by (cases "j_get ''prompt_tokens'' u") (simp_all add: prompt_usage_def Let_def rebuffer_def count_bytes_def)

lemma split_usage_rebuffer: "split_usage u (rebuffer n p x t) = rebuffer n p x (split_usage u t)"
  by (simp add: split_usage_def Let_def rebuffer_def count_bytes_def)

lemma output_usage_rebuffer: "output_usage u (rebuffer n p x t) = rebuffer n p x (output_usage u t)"
  by (cases "output_of u") (simp_all add: output_usage_def rebuffer_def count_bytes_def)

lemma total_usage_rebuffer: "total_usage u (rebuffer n p x t) = rebuffer n p x (total_usage u t)"
  by (simp add: total_usage_def rebuffer_def count_bytes_def)

lemma trace_usage_rebuffer: "trace_usage v (rebuffer n p x t) = rebuffer n p x (trace_usage v t)"
  by (simp add: trace_usage_def prompt_usage_rebuffer split_usage_rebuffer output_usage_rebuffer total_usage_rebuffer
      split: option.split)

lemma flags_rebuffer:
  "(rebuffer n p x t)\<lparr>tr_stream_error := b\<rparr> = rebuffer n p x (t\<lparr>tr_stream_error := b\<rparr>)"
  "(rebuffer n p x t)\<lparr>tr_stream_ended := b\<rparr> = rebuffer n p x (t\<lparr>tr_stream_ended := b\<rparr>)"
  by (simp_all add: rebuffer_def count_bytes_def)

lemma sse_value_rebuffer: "sse_value v (rebuffer n p x t) = rebuffer n p x (sse_value v t)"
  by (simp add: sse_value_def flags_rebuffer trace_usage_rebuffer)

lemma sse_line_rebuffer: "sse_line P l (rebuffer n p x t) = rebuffer n p x (sse_line P l t)"
  by (simp add: sse_line_def flags_rebuffer sse_value_rebuffer Let_def split: option.split)

lemma sse_lines_rebuffer: "fold (sse_line P) ls (rebuffer n p x t) = rebuffer n p x (fold (sse_line P) ls t)"
  by (induction ls arbitrary: t) (simp_all add: sse_line_rebuffer)

lemma rebuffer_rebuffer: "rebuffer n p x (rebuffer m q y t) = rebuffer (m + n) p x t"
  by (simp add: rebuffer_def count_bytes_def saturating_add_assoc_le)

lemma rebuffer_zero: "if_response_bytes (tr_finish t) \<le> u64_max \<Longrightarrow> tr_pending t = p \<Longrightarrow> tr_discard t = x \<Longrightarrow> rebuffer 0 p x t = t"
  by (cases t) (simp add: rebuffer_def count_bytes_def saturating_add_def min_absorb1)

text \<open>One byte, in these terms.\<close>

lemma rebuffer_update:
  "(rebuffer n p x s)\<lparr>tr_pending := q, tr_discard := y\<rparr> = rebuffer n q y s"
  "(rebuffer n p x s)\<lparr>tr_pending := q\<rparr> = rebuffer n q x s" "(rebuffer n p x s)\<lparr>tr_discard := y\<rparr> = rebuffer n p y s"
  by (simp_all add: rebuffer_def count_bytes_def)

lemma sse_byte_rebuffer:
  "sse_byte P b (rebuffer n p x t) =
     (if b = CHR 0x0A then rebuffer n [] False (if x then t else sse_line P p t)
      else if x then rebuffer n p x t
      else if length p < line_limit then rebuffer n (p @ [b]) False t else rebuffer n [] True t)"
  by (cases x) (simp_all add: sse_byte_def sse_line_rebuffer rebuffer_update)

lemma split_on_nonempty [simp]: "split_on c s \<noteq> []"
  by (induction s) (auto split: list.splits)

lemma split_on_snoc:
  "split_on c (s @ [b]) = (if b = c then split_on c s @ [[]] else butlast (split_on c s) @ [last (split_on c s) @ [b]])"
proof (induction s)
  case (Cons a s)
  obtain w ws where "split_on c s = w # ws" by (cases "split_on c s") auto
  with Cons show ?case by (cases ws) auto
qed simp

text \<open>The reference: split the stream at the line feeds, read the complete lines that are not too
  long, keep what follows the last line feed.\<close>

definition sse_reference :: "platform \<Rightarrow> string \<Rightarrow> trace \<Rightarrow> trace" where
  "sse_reference P s t =
     (let ls = split_on (CHR 0x0A) s;
          long = length (last ls) > line_limit
      in (fold (sse_line P) (filter (\<lambda>l. length l \<le> line_limit) (butlast ls)) t)
           \<lparr>tr_pending := (if long then [] else last ls), tr_discard := long\<rparr>)"

lemma sse_bytes_reference:
  "fold (sse_byte P) s (rebuffer n [] False t) =
     (let ls = split_on (CHR 0x0A) s; long = length (last ls) > line_limit
      in rebuffer n (if long then [] else last ls) long
           (fold (sse_line P) (filter (\<lambda>l. length l \<le> line_limit) (butlast ls)) t))"
proof (induction s rule: rev_induct)
  case (snoc b s)
  let ?ls = "split_on (CHR 0x0A) s"
  have l: "butlast ?ls @ [last ?ls] = ?ls" by simp
  have f: "filter Q ?ls = filter Q (butlast ?ls) @ filter Q [last ?ls]" for Q
    by (subst l [symmetric], subst filter_append) simp
  show ?case
    using snoc.IH by (auto simp: Let_def sse_byte_rebuffer split_on_snoc f butlast_append)
qed (simp add: line_limit_def)

lemma sse_bytes_rebuffer: "\<exists>p' x' t'. \<forall>n. fold (sse_byte P) s (rebuffer n p x t) = rebuffer n p' x' t'"
proof (induction s arbitrary: p x t)
  case (Cons b s)
  have "\<exists>p1 x1 t1. \<forall>n. sse_byte P b (rebuffer n p x t) = rebuffer n p1 x1 t1"
    by (cases "b = CHR 0x0A"; cases x; cases "length p < line_limit") (auto simp: sse_byte_rebuffer)
  then obtain p1 x1 t1 where "\<forall>n. sse_byte P b (rebuffer n p x t) = rebuffer n p1 x1 t1" by blast
  with Cons.IH [of p1 x1 t1] show ?case by simp
qed auto

lemma count_rebuffer: "count_bytes n t = rebuffer n (tr_pending t) (tr_discard t) t"
  by (cases t) (simp add: rebuffer_def count_bytes_def)

lemma trace_chunk_append: "trace_chunk P (a @ b) True t = trace_chunk P b True (trace_chunk P a True t)"
proof -
  obtain p x u where u: "\<forall>n. fold (sse_byte P) a (rebuffer n (tr_pending t) (tr_discard t) t) = rebuffer n p x u"
    using sse_bytes_rebuffer by blast
  then show ?thesis
    by (simp add: trace_chunk_def Let_def count_rebuffer [of _ t] count_rebuffer [of _ "rebuffer _ _ _ _"] rebuffer_rebuffer)
qed

section \<open>Consistent counts\<close>

abbreviation small :: "nat option \<Rightarrow> bool" where "small x \<equiv> opt_le x i64_max"

definition fits :: "nat option \<Rightarrow> nat option \<Rightarrow> nat option \<Rightarrow> bool" where
  "fits inp cached written \<longleftrightarrow> (case inp of None \<Rightarrow> True | Some n \<Rightarrow> \<not> cache_exceeds cached written n)"

definition covers :: "nat option \<Rightarrow> nat option \<Rightarrow> nat option \<Rightarrow> bool" where
  "covers tot inp out \<longleftrightarrow> (case tot of None \<Rightarrow> True | Some n \<Rightarrow> opt_le inp n \<and> opt_le out n)"

lemma fits_simps [simp]: "fits None c w" "fits (Some n) c w \<longleftrightarrow> \<not> cache_exceeds c w n"
  by (simp_all add: fits_def)

lemma covers_simps [simp]: "covers None i x" "covers (Some n) i x \<longleftrightarrow> opt_le i n \<and> opt_le x n"
  by (simp_all add: covers_def)

definition counts_ok :: "interaction_finish \<Rightarrow> bool" where
  "counts_ok f \<longleftrightarrow> small (if_input f) \<and> small (if_output f) \<and> small (if_cached f) \<and> small (if_written f)
     \<and> fits (if_input f) (if_cached f) (if_written f)"

definition total_ok :: "interaction_finish \<Rightarrow> bool" where
  "total_ok f \<longleftrightarrow> small (if_total f) \<and> covers (if_total f) (if_input f) (if_output f)"

definition usage_ok :: "trace \<Rightarrow> bool" where
  "usage_ok t \<longleftrightarrow> counts_ok (tr_finish t) \<and> total_ok (tr_finish t)
     \<and> (case tr_anthropic t of None \<Rightarrow> True | Some c \<Rightarrow> small (tk_uncached c) \<and> small (tk_read c) \<and> small (tk_written c))"

lemma small_simps [simp]: "opt_le None n" "opt_le (Some m) n \<longleftrightarrow> m \<le> n"
  by (simp_all add: opt_le_def)

lemma safe_small [simp]: "small (safe_token_count v)"
  by (cases "as_u64 v") (simp_all add: safe_token_count_def)

lemma token_sum_Some:
  "token_sum x y = Some n \<Longrightarrow> \<exists>a b. x = Some a \<and> y = Some b \<and> n = a + b \<and> n \<le> i64_max"
  by (auto simp: token_sum_def bind_eq_Some_conv checked_add_Some split: if_splits)

lemma token_sum_le: "token_sum x y = Some n \<Longrightarrow> n \<le> i64_max"
  using token_sum_Some by blast

lemma token_sum_small [simp]: "small (token_sum x y)"
  by (cases "token_sum x y") (auto dest: token_sum_Some)

lemma i64_u64: "i64_max \<le> u64_max"
  by (simp add: i64_max_def u64_max_def)

text \<open>The two ways of counting, each on the counts it writes.\<close>

lemma prompt_usage_ok:
  assumes "counts_ok (tr_finish t)"
  shows "counts_ok (tr_finish (prompt_usage u t))"
proof (cases "j_get ''prompt_tokens'' u")
  case None
  with assms show ?thesis by (simp add: prompt_usage_def)
next
  case (Some v)
  define inp where "inp = safe_token_count v"
  define cached where "cached = Option.bind (Option.bind (j_get ''prompt_tokens_details'' u) (j_get ''cached_tokens'')) safe_token_count"
  define written where "written = (case j_get ''cache_write_tokens'' u of
                   Some v \<Rightarrow> safe_token_count v | None \<Rightarrow> if tr_no_cache_write t then Some 0 else None)"
  define clash where "clash = (case inp of None \<Rightarrow> False | Some n \<Rightarrow> cache_exceeds cached written n)"
  have e: "prompt_usage u t = t\<lparr>tr_finish := (tr_finish t)\<lparr>if_input := inp,
                  if_cached := (if clash then None else cached), if_written := (if clash then None else written)\<rparr>\<rparr>"
    by (simp only: prompt_usage_def Some option.case Let_def inp_def cached_def written_def clash_def)
  have "small cached" by (cases "Option.bind (j_get ''prompt_tokens_details'' u) (j_get ''cached_tokens'')") (simp_all add: cached_def)
  moreover have "small written" by (simp add: written_def split: option.split)
  moreover have "small inp" by (simp add: inp_def)
  moreover have "small (if_output (tr_finish t))" using assms by (simp add: counts_ok_def)
  moreover have "\<not> cache_exceeds None None n" for n by (simp add: cache_exceeds_def)
  ultimately show ?thesis
    unfolding e by (cases inp) (auto simp: counts_ok_def clash_def)
qed

lemma split_counts_fit:
  assumes "token_sum (token_sum a b) c = Some n"
  shows "\<not> cache_exceeds b c n"
proof -
  obtain ab y where 1: "token_sum a b = Some ab" "c = Some y" "n = ab + y" "n \<le> i64_max"
    using token_sum_Some [OF assms] by blast
  obtain x z where 2: "a = Some x" "b = Some z" "ab = x + z" using token_sum_Some [OF 1(1)] by blast
  have "checked_add z y = Some (z + y)" using 1 2 i64_u64 by (simp add: checked_add_Some)
  with 1 2 show ?thesis by (simp add: cache_exceeds_def)
qed

definition split_ok :: "trace \<Rightarrow> bool" where
  "split_ok t \<longleftrightarrow> (case tr_anthropic t of None \<Rightarrow> True
     | Some c \<Rightarrow> small (tk_uncached c) \<and> small (tk_read c) \<and> small (tk_written c))"

definition set_count :: "json option \<Rightarrow> nat option \<Rightarrow> nat option" where
  "set_count x old = (case x of None \<Rightarrow> old | Some v \<Rightarrow> safe_token_count v)"

lemma set_count_small: "small old \<Longrightarrow> small (set_count x old)"
  by (simp add: set_count_def split: option.split)

lemma split_usage_cases:
  assumes "split_ok t"
  shows "split_usage u t = t \<or> (\<exists>a b c. small a \<and> small b \<and> small c
     \<and> split_usage u t = t\<lparr>tr_anthropic := Some \<lparr>tk_uncached = a, tk_read = b, tk_written = c\<rparr>,
          tr_finish := (tr_finish t)\<lparr>if_input := token_sum (token_sum a b) c, if_cached := b, if_written := c\<rparr>\<rparr>)"
proof -
  obtain a b c where c0: "(case tr_anthropic t of None \<Rightarrow> \<lparr>tk_uncached = None, tk_read = None, tk_written = None\<rparr> | Some c \<Rightarrow> c)
      = \<lparr>tk_uncached = a, tk_read = b, tk_written = c\<rparr>" by (metis token_usage.cases)
  have s: "small a" "small b" "small c" using assms c0 by (auto simp: split_ok_def split: option.splits)
  let ?a = "set_count (j_get ''input_tokens'' u) a" and ?b = "set_count (j_get ''cache_read_input_tokens'' u) b"
    and ?c = "set_count (j_get ''cache_creation_input_tokens'' u) c"
  have "split_usage u t = t \<or> split_usage u t = t\<lparr>tr_anthropic := Some \<lparr>tk_uncached = ?a, tk_read = ?b, tk_written = ?c\<rparr>,
          tr_finish := (tr_finish t)\<lparr>if_input := token_sum (token_sum ?a ?b) ?c, if_cached := ?b, if_written := ?c\<rparr>\<rparr>"
    unfolding split_usage_def Let_def c0
    by (cases "j_get ''input_tokens'' u"; cases "j_get ''cache_read_input_tokens'' u";
        cases "j_get ''cache_creation_input_tokens'' u") (simp_all add: set_count_def)
  with s set_count_small show ?thesis by blast
qed

lemma split_usage_ok:
  assumes "counts_ok (tr_finish t)" and "split_ok t"
  shows "counts_ok (tr_finish (split_usage u t)) \<and> split_ok (split_usage u t)"
  using split_usage_cases [OF assms(2), of u]
proof (elim disjE exE conjE)
  fix a b c
  assume "small a" "small b" "small c" and e: "split_usage u t = t\<lparr>tr_anthropic := Some \<lparr>tk_uncached = a, tk_read = b,
      tk_written = c\<rparr>, tr_finish := (tr_finish t)\<lparr>if_input := token_sum (token_sum a b) c, if_cached := b, if_written := c\<rparr>\<rparr>"
  moreover have "small (if_output (tr_finish t))" using assms(1) by (simp add: counts_ok_def)
  ultimately show ?thesis
    by (cases "token_sum (token_sum a b) c") (auto simp: e counts_ok_def split_ok_def split_counts_fit token_sum_le)
qed (use assms in simp)

lemma output_usage_ok:
  "counts_ok (tr_finish t) \<Longrightarrow> counts_ok (tr_finish (output_usage u t))"
  by (auto simp: output_usage_def counts_ok_def split: option.split)

lemma total_of_Some:
  assumes "total_of u i x b = Some n"
  shows "n \<le> i64_max \<and> opt_le i n \<and> opt_le x n"
proof (cases "j_get ''total_tokens'' u")
  case None
  with assms have "token_sum i x = Some n" by (simp add: total_of_def Let_def split: if_splits)
  then show ?thesis using token_sum_Some by fastforce
next
  case (Some v)
  with assms have "safe_token_count v = Some n" "opt_le i n" "opt_le x n"
    by (auto simp: total_of_def Let_def bind_eq_Some_conv split: if_splits)
  moreover have "n \<le> i64_max" using calculation(1) safe_small [of v] by simp
  ultimately show ?thesis by simp
qed

lemma total_usage_ok:
  assumes "counts_ok (tr_finish t)"
  shows "counts_ok (tr_finish (total_usage u t)) \<and> total_ok (tr_finish (total_usage u t))"
  using assms total_of_Some [of u "if_input (tr_finish t)" "if_output (tr_finish t)" "tr_anthropic t \<noteq> None"]
  by (cases "total_of u (if_input (tr_finish t)) (if_output (tr_finish t)) (tr_anthropic t \<noteq> None)")
    (auto simp: total_usage_def counts_ok_def total_ok_def)

lemma usage_ok_split: "usage_ok t \<longleftrightarrow> counts_ok (tr_finish t) \<and> total_ok (tr_finish t) \<and> split_ok t"
  by (simp add: usage_ok_def split_ok_def)

lemma split_ok_usage [simp]:
  "split_ok (prompt_usage u t) = split_ok t" "split_ok (output_usage u t) = split_ok t" "split_ok (total_usage u t) = split_ok t"
  by (simp_all add: split_ok_def prompt_usage_def output_usage_def total_usage_def Let_def split: option.split)

lemma trace_usage_ok: "usage_ok t \<Longrightarrow> usage_ok (trace_usage v t)"
  unfolding usage_ok_split
  by (auto simp: trace_usage_def split: option.split
      intro!: total_usage_ok [THEN conjunct1] total_usage_ok [THEN conjunct2] output_usage_ok
        split_usage_ok [THEN conjunct1] split_usage_ok [THEN conjunct2] prompt_usage_ok)

lemma usage_ok_updates [simp]:
  "usage_ok (t\<lparr>tr_stream_error := b\<rparr>) = usage_ok t" "usage_ok (t\<lparr>tr_stream_ended := b\<rparr>) = usage_ok t"
  "usage_ok (t\<lparr>tr_pending := q\<rparr>) = usage_ok t" "usage_ok (t\<lparr>tr_discard := b\<rparr>) = usage_ok t"
  "usage_ok (count_bytes n t) = usage_ok t"
  by (simp_all add: usage_ok_def counts_ok_def total_ok_def count_bytes_def)

lemma sse_byte_ok: "usage_ok t \<Longrightarrow> usage_ok (sse_byte P b t)"
  by (auto simp: sse_byte_def sse_line_def sse_value_def Let_def trace_usage_ok split: option.split)

lemma trace_chunk_ok:
  assumes "usage_ok t"
  shows "usage_ok (trace_chunk P c sse t)"
proof -
  have "usage_ok (fold (sse_byte P) c u)" if "usage_ok u" for u
    using that by (induction c arbitrary: u) (simp_all add: sse_byte_ok)
  with assms show ?thesis by (simp add: trace_chunk_def Let_def)
qed

section \<open>Completion is once and truthful\<close>

text \<open>What reading a response leaves alone.\<close>

definition fixed :: "trace \<Rightarrow> string \<times> bool \<times> bool \<times> string \<times> nat option \<times> string" where
  "fixed t = (tr_id t, tr_completed t, tr_streaming t, tr_protocol t, if_http (tr_finish t), if_status (tr_finish t))"

lemma usage_fixed [simp]:
  "fixed (prompt_usage u t) = fixed t" "fixed (split_usage u t) = fixed t" "fixed (output_usage u t) = fixed t"
  "fixed (total_usage u t) = fixed t"
  by (simp_all add: fixed_def prompt_usage_def split_usage_def output_usage_def total_usage_def Let_def split: option.split)

lemma trace_usage_fixed [simp]: "fixed (trace_usage v t) = fixed t"
  by (simp add: trace_usage_def split: option.split)

lemma fixed_updates [simp]:
  "fixed (t\<lparr>tr_stream_error := b\<rparr>) = fixed t" "fixed (t\<lparr>tr_stream_ended := b\<rparr>) = fixed t"
  "fixed (t\<lparr>tr_pending := q\<rparr>) = fixed t" "fixed (t\<lparr>tr_discard := b\<rparr>) = fixed t" "fixed (count_bytes n t) = fixed t"
  by (simp_all add: fixed_def count_bytes_def)

lemma sse_byte_fixed [simp]: "fixed (sse_byte P b t) = fixed t"
  by (simp add: sse_byte_def sse_line_def sse_value_def Let_def split: option.split)

lemma trace_chunk_fixed [simp]: "fixed (trace_chunk P c sse t) = fixed t"
proof -
  have "fixed (fold (sse_byte P) c u) = fixed u" for u by (induction c arbitrary: u) simp_all
  then show ?thesis by (simp add: trace_chunk_def Let_def)
qed

text \<open>How a recorded exchange ended: failed whenever the provider reported an error in the stream,
  succeeded only after a complete answer.\<close>

definition settled :: "trace \<Rightarrow> bool" where
  "settled t \<longleftrightarrow> (let f = tr_finish t in tr_completed t \<and> terminal (if_status f)
     \<and> (tr_stream_error t \<longrightarrow> if_status f = ''failed'' \<and> if_error f = Some ''upstream_stream_error'')
     \<and> (if_status f = ''succeeded'' \<longrightarrow> if_error f = None
          \<and> (case if_http f of None \<Rightarrow> False | Some status \<Rightarrow> 200 \<le> status \<and> status < 300)
          \<and> (tr_streaming t \<and> List.member [''openai'', ''anthropic''] (tr_protocol t) \<longrightarrow> tr_stream_ended t)))"

lemma drop_completed: "tr_completed (fst td) \<Longrightarrow> drop_trace P q td = td"
  by (simp add: drop_trace_def)

lemma complete_settles:
  assumes "\<not> tr_completed t" and "status = ''failed'' \<or> status = ''aborted''"
  obtains t' where "trace_complete P q status (Some e) (t, d) = (t', write_finish P q t' d)" and "settled t'"
    and "usage_ok t' = usage_ok t"
proof
  let ?t = "t\<lparr>tr_completed := True, tr_finish := (tr_finish t)\<lparr>
                 if_status := (if tr_stream_error t then ''failed'' else status),
                 if_error := (if tr_stream_error t then Some ''upstream_stream_error'' else Some e),
                 if_total_ms := Some (elapsed_ms q)\<rparr>\<rparr>"
  show "trace_complete P q status (Some e) (t, d) = (?t, write_finish P q ?t d)"
    using assms(1) by (simp add: trace_complete_def Let_def)
  show "settled ?t" using assms(2) by (auto simp: settled_def terminal_def List.member_iff)
  show "usage_ok ?t = usage_ok t" by (simp add: usage_ok_def counts_ok_def total_ok_def)
qed

lemma response_settles:
  assumes "\<not> tr_completed t"
  obtains t' where "response_complete P q (t, d) = (t', write_finish P q t' d)" and "settled t'"
    and "usage_ok t' = usage_ok t"
proof (cases "(case if_http (tr_finish t) of None \<Rightarrow> False | Some status \<Rightarrow> 200 \<le> status \<and> status < 300)
    \<and> \<not> (tr_streaming t \<and> List.member [''openai'', ''anthropic''] (tr_protocol t) \<and> \<not> tr_stream_ended t)")
  case True
  let ?t = "t\<lparr>tr_completed := True, tr_finish := (tr_finish t)\<lparr>
                 if_status := (if tr_stream_error t then ''failed'' else ''succeeded''),
                 if_error := (if tr_stream_error t then Some ''upstream_stream_error'' else None),
                 if_total_ms := Some (elapsed_ms q)\<rparr>\<rparr>"
  show thesis
  proof
    show "response_complete P q (t, d) = (?t, write_finish P q ?t d)"
      using True assms by (auto simp: response_complete_def trace_complete_def Let_def)
    show "settled ?t" using True by (auto simp: settled_def terminal_def List.member_iff split: option.splits)
    show "usage_ok ?t = usage_ok t" by (simp add: usage_ok_def counts_ok_def total_ok_def)
  qed
next
  case False
  then have "response_complete P q (t, d) = trace_complete P q ''failed'' (Some ''upstream_stream_incomplete'') (t, d)
    \<or> response_complete P q (t, d) = trace_complete P q ''failed'' (Some ''provider_http_error'') (t, d)"
    by (cases "if_http (tr_finish t)") (auto simp: response_complete_def Let_def)
  then obtain e where e: "response_complete P q (t, d) = trace_complete P q ''failed'' (Some e) (t, d)" by blast
  obtain u where "trace_complete P q ''failed'' (Some e) (t, d) = (u, write_finish P q u d)" "settled u"
    "usage_ok u = usage_ok t" using complete_settles [OF assms] by blast
  with e show thesis by (intro that [of u]) simp_all
qed

text \<open>The payloads that arrive before anything else does.\<close>

fun payloads :: "('a \<times> delivery) list \<Rightarrow> string list" where
  "payloads ((q, Chunk c) # as) = c # payloads as"
| "payloads as = []"

lemma relay_settles:
  "\<not> tr_completed t \<Longrightarrow> used \<le> limit \<Longrightarrow> relay P limit gone as used (t, d) = (out, t', d') \<Longrightarrow>
   settled t' \<and> (\<exists>q. d' = write_finish P q t' d) \<and> used + length (concat out) \<le> limit \<and> prefix out (payloads as)
     \<and> (usage_ok t \<longrightarrow> usage_ok t')"
proof (induction as arbitrary: t used out)
  case Nil
  obtain u where "trace_complete P gone ''aborted'' (Some ''client_disconnected'') (t, d) = (u, write_finish P gone u d)"
    "settled u" "usage_ok u = usage_ok t" using complete_settles [OF Nil(1)] by blast
  with Nil show ?case by (auto simp: drop_trace_def)
next
  case (Cons a as)
  obtain q x where a: "a = (q, x)" by (cases a)
  have end_here: ?case if "relay P limit gone (a # as) used (t, d) = ([], drop_trace P gone (u, write_finish P q u d))"
    "settled u" "usage_ok t \<longrightarrow> usage_ok u" for u
    using that Cons.prems by (auto simp: drop_completed settled_def Let_def)
  show ?case
  proof (cases x)
    case (Chunk c)
    let ?t = "trace_chunk P c True t"
    have nc: "\<not> tr_completed ?t" using trace_chunk_fixed [of P c True t] Cons.prems(1) by (simp add: fixed_def)
    show ?thesis
    proof (cases "length c > limit - used")
      case True
      obtain u where "trace_complete P q ''failed'' (Some ''response_too_large'') (?t, d) = (u, write_finish P q u d)"
        "settled u" "usage_ok u = usage_ok ?t" using complete_settles [OF nc] by blast
      with True show ?thesis by (intro end_here [of u]) (simp_all add: a Chunk trace_chunk_ok)
    next
      case False
      obtain out1 where r: "relay P limit gone as (used + length c) (?t, d) = (out1, t', d')" "out = c # out1"
        using False Cons.prems(3) by (cases "relay P limit gone as (used + length c) (?t, d)") (auto simp: a Chunk)
      have "used + length c \<le> limit" using False Cons.prems(2) by simp
      from Cons.IH [OF nc this r(1)] r(2) show ?thesis by (auto simp: a Chunk trace_chunk_ok)
    qed
  next
    case (Broken b)
    obtain u where "trace_complete P q ''failed'' (Some ''stream_interrupted'') (t, d) = (u, write_finish P q u d)"
      "settled u" "usage_ok u = usage_ok t" using complete_settles [OF Cons.prems(1)] by blast
    then show ?thesis by (intro end_here [of u]) (simp_all add: a Broken)
  next
    case Ended
    obtain u where "response_complete P q (t, d) = (u, write_finish P q u d)" "settled u" "usage_ok u = usage_ok t"
      using response_settles [OF Cons.prems(1)] by blast
    then show ?thesis by (intro end_here [of u]) (simp_all add: a Ended)
  next
    case Stalled
    obtain u where "trace_complete P q ''failed'' (Some ''stream_timeout'') (t, d) = (u, write_finish P q u d)"
      "settled u" "usage_ok u = usage_ok t" using complete_settles [OF Cons.prems(1)] by blast
    then show ?thesis by (intro end_here [of u]) (simp_all add: a Stalled)
  qed
qed

section \<open>Properties\<close>

text \<open>An exchange with a streaming provider, as the journal's example begins it.\<close>

definition demo_trace :: trace where
  "demo_trace = \<lparr>tr_id = ''i1'', tr_finish = default_finish, tr_completed = False, tr_streaming = True,
     tr_protocol = ''openai'', tr_stream_error = False, tr_stream_ended = False, tr_no_cache_write = False,
     tr_anthropic = None, tr_pending = [], tr_discard = False\<rparr>"

lemma demo_new_trace: "new_trace demo_platform (demo_draw 5 ''w'') demo_start (empty_db ''i'' demo_spec) = (Inr demo_trace, demo_ledger)"
proof -
  have "is_id demo_start = ''i1''" "is_streaming demo_start" "is_protocol demo_start = ''openai''"
    by (simp_all add: demo_start_def)
  then show ?thesis by (simp add: new_trace_def demo_begun demo_trace_def)
qed

definition demo_occasion :: occasion where
  "demo_occasion = \<lparr>oc_draw = demo_draw 6 ''w'', oc_lock = True, oc_elapsed = 40\<rparr>"

definition demo_chunks :: "string list" where
  "demo_chunks = [''data: [DO'', ''NE]'' @ [CHR 0x0A]]"

definition demo_deliveries :: "(occasion \<times> delivery) list" where
  "demo_deliveries = map (\<lambda>c. (demo_occasion, Chunk c)) demo_chunks @ [(demo_occasion, Ended)]"

lemma demo_line:
  assumes "tr_protocol t = ''openai''"
  shows "sse_line demo_platform ''data: [DONE]'' t = t\<lparr>tr_stream_ended := True\<rparr>"
proof -
  have "json_parse demo_platform s = Some JNull" for s by (simp add: demo_platform_def)
  moreover have "sse_value JNull u = u" if "tr_protocol u = ''openai''" for u
    using that by (simp add: sse_value_def error_event_def get_str_def trace_usage_def first_of_def)
  moreover have "strip_prefix ''data:'' ''data: [DONE]'' = Some '' [DONE]''" by (simp add: strip_prefix_def)
  moreover have "trim_ascii '' [DONE]'' = ''[DONE]''" by (simp add: trim_ascii_def ascii_space_def)
  ultimately show ?thesis using assms by (simp add: sse_line_def)
qed

lemma demo_lines: "split_on (CHR 0x0A) (concat demo_chunks) = [''data: [DONE]'', []]"
  by (simp add: demo_chunks_def)

lemma demo_read:
  assumes "tr_protocol t = ''openai''"
  shows "fold (sse_byte demo_platform) (concat demo_chunks) (rebuffer n [] False t)
     = rebuffer n [] False (t\<lparr>tr_stream_ended := True\<rparr>)"
  by (simp add: sse_bytes_reference demo_lines demo_line [OF assms] line_limit_def)

lemma demo_relayed:
  "\<exists>t' d'. relay demo_platform 100 demo_occasion demo_deliveries 0
       (trace_headers demo_platform demo_occasion 200 (demo_trace, d)) = (demo_chunks, t', d')
     \<and> if_status (tr_finish t') = ''succeeded'' \<and> tr_stream_ended t'"
proof -
  obtain u e where h: "trace_headers demo_platform demo_occasion 200 (demo_trace, d) = (u, e)" by fastforce
  have u: "tr_protocol u = ''openai''" "tr_pending u = []" "\<not> tr_discard u" "\<not> tr_completed u" "\<not> tr_stream_error u"
    "if_http (tr_finish u) = Some 200"
    using h by (auto simp: trace_headers_def Let_def demo_trace_def)
  define v where "v = rebuffer 13 [] False (u\<lparr>tr_stream_ended := True\<rparr>)"
  obtain c1 c2 where "demo_chunks = [c1, c2]" "c1 = hd demo_chunks" "c2 = hd (tl demo_chunks)"
    by (simp add: demo_chunks_def)
  then have c: "demo_chunks = [c1, c2]" "concat demo_chunks = c1 @ c2" "length c1 = 9" "length c2 = 4"
    by (simp_all add: demo_chunks_def)
  have v: "trace_chunk demo_platform c2 True (trace_chunk demo_platform c1 True u) = v"
    using demo_read [OF u(1), of 13] u(2,3) c
    by (simp add: trace_chunk_append [symmetric]) (simp add: trace_chunk_def count_rebuffer v_def)
  have f: "if_http (tr_finish v) = Some 200" "tr_stream_ended v" "\<not> tr_completed v" "\<not> tr_stream_error v"
    using u by (simp_all add: v_def rebuffer_def count_bytes_def)
  obtain t' d' where r: "response_complete demo_platform demo_occasion (v, e) = (t', d')"
    by (cases "response_complete demo_platform demo_occasion (v, e)")
  then have t': "tr_completed t'" "if_status (tr_finish t') = ''succeeded''" "tr_stream_ended t'"
    using f by (auto simp: response_complete_def trace_complete_def Let_def)
  have "relay demo_platform 100 demo_occasion demo_deliveries 0 (u, e) = (demo_chunks, t', d')"
    using t'(1) by (simp add: demo_deliveries_def c(1,3,4) v r drop_completed)
  with h t' show ?thesis by simp
qed

text \<open>C28: The streamed events are read line by line, however the network splits the stream: after any
  sequence of chunks the trace is the one that reading the complete lines of the whole stream in order
  gives, lines over 65536 bytes left out, with the rest of the last line kept and the bytes counted.\<close>

theorem stream_is_read_by_lines:
  assumes "tr_pending t = []" and "\<not> tr_discard t" and "if_response_bytes (tr_finish t) \<le> u64_max"
  shows "fold (\<lambda>c. trace_chunk P c True) chunks t
     = sse_reference P (concat chunks) (count_bytes (length (concat chunks)) t)"
proof -
  have one: "trace_chunk P s True t = sse_reference P s (count_bytes (length s) t)" for s
  proof -
    have c: "count_bytes (length s) t = rebuffer (length s) [] False t" using assms(1,2) count_rebuffer [of "length s" t] by simp
    show ?thesis
      by (simp add: trace_chunk_def c sse_bytes_reference sse_reference_def sse_lines_rebuffer rebuffer_update Let_def)
  qed
  have "fold (\<lambda>c. trace_chunk P c True) chunks (trace_chunk P s True t) = trace_chunk P (s @ concat chunks) True t" for s
    by (induction chunks arbitrary: s) (simp_all add: trace_chunk_append [symmetric])
  moreover have "trace_chunk P [] True t = t"
    using rebuffer_zero [OF assms(3,1)] assms(1,2) count_rebuffer [of 0 t] by (simp add: trace_chunk_def)
  ultimately show ?thesis using one by (metis append_Nil)
qed

lemma stream_is_read_by_lines_witness:
  "fold (\<lambda>c. trace_chunk demo_platform c True) demo_chunks demo_trace
     = sse_reference demo_platform (concat demo_chunks) (count_bytes 13 demo_trace)
   \<and> tr_stream_ended (sse_reference demo_platform (concat demo_chunks) (count_bytes 13 demo_trace))"
proof -
  have h: "tr_pending demo_trace = []" "\<not> tr_discard demo_trace" "if_response_bytes (tr_finish demo_trace) \<le> u64_max"
    and p: "tr_protocol (count_bytes 13 demo_trace) = ''openai''"
    by (simp_all add: demo_trace_def default_finish_def count_bytes_def)
  have n: "length (concat demo_chunks) = 13" by (simp add: demo_chunks_def)
  have e: "fold (\<lambda>c. trace_chunk demo_platform c True) demo_chunks demo_trace
     = sse_reference demo_platform (concat demo_chunks) (count_bytes 13 demo_trace)"
    using stream_is_read_by_lines [OF h, of demo_platform demo_chunks] unfolding n .
  have "tr_stream_ended (sse_reference demo_platform (concat demo_chunks) (count_bytes 13 demo_trace))"
    by (simp add: sse_reference_def demo_lines demo_line [OF p] line_limit_def Let_def)
  with e show ?thesis by simp
qed



text \<open>The counts recorded for an exchange fit each other: of an exchange that was begun, whatever
  the provider sends, cached and cache-writing input never exceed the input, the total is at least
  the input and the output, and every count is in the range of the journal.\<close>

theorem recorded_counts_fit:
  assumes "new_trace P w entry d0 = (Inr t, d)"
    and "relay P limit gone as 0 (trace_headers P q status (t, d)) = (out, t', d')"
  shows "(case if_input (tr_finish t') of None \<Rightarrow> True
      | Some n \<Rightarrow> opt_le (if_cached (tr_finish t')) n \<and> opt_le (if_written (tr_finish t')) n
          \<and> (case (if_cached (tr_finish t'), if_written (tr_finish t')) of (Some c, Some x) \<Rightarrow> c + x \<le> n | _ \<Rightarrow> True))
     \<and> (case if_total (tr_finish t') of None \<Rightarrow> True
      | Some n \<Rightarrow> opt_le (if_input (tr_finish t')) n \<and> opt_le (if_output (tr_finish t')) n)
     \<and> list_all (\<lambda>x. opt_le x i64_max) [if_input (tr_finish t'), if_output (tr_finish t'),
          if_cached (tr_finish t'), if_written (tr_finish t'), if_total (tr_finish t')]"
proof -
  have t: "\<not> tr_completed t" "usage_ok t"
    using assms(1) by (auto simp: new_trace_def then_stmt_Inr usage_ok_def counts_ok_def total_ok_def default_finish_def)
  obtain u e where u: "trace_headers P q status (t, d) = (u, e)" by (cases "trace_headers P q status (t, d)")
  have "\<not> tr_completed u" "usage_ok u"
    using u t by (auto simp: trace_headers_def Let_def usage_ok_def counts_ok_def total_ok_def split: if_splits)
  with relay_settles [of u 0 limit P gone as e out t' d'] assms(2) have ok: "usage_ok t'" by (simp add: u)
  have c: "opt_le x n \<and> opt_le y n \<and> (case (x, y) of (Some c, Some z) \<Rightarrow> c + z \<le> n | _ \<Rightarrow> True)"
    if "\<not> cache_exceeds x y n" for x y n
    using that by (cases x; cases y) (auto simp: cache_exceeds_def checked_add_def split: if_splits)
  have "case if_input (tr_finish t') of None \<Rightarrow> True
      | Some n \<Rightarrow> opt_le (if_cached (tr_finish t')) n \<and> opt_le (if_written (tr_finish t')) n
          \<and> (case (if_cached (tr_finish t'), if_written (tr_finish t')) of (Some c, Some x) \<Rightarrow> c + x \<le> n | _ \<Rightarrow> True)"
  proof (cases "if_input (tr_finish t')")
    case (Some n)
    with ok have "\<not> cache_exceeds (if_cached (tr_finish t')) (if_written (tr_finish t')) n"
      by (simp add: usage_ok_def counts_ok_def)
    from c [OF this] Some show ?thesis by simp
  qed simp
  with ok show ?thesis
    by (simp add: usage_ok_def counts_ok_def total_ok_def covers_def)
qed

lemma recorded_counts_fit_witness:
  "\<exists>t' d'. relay demo_platform 100 demo_occasion demo_deliveries 0
       (trace_headers demo_platform demo_occasion 200 (demo_trace, demo_ledger)) = (demo_chunks, t', d')
     \<and> list_all (\<lambda>x. opt_le x i64_max) [if_input (tr_finish t'), if_output (tr_finish t'),
          if_cached (tr_finish t'), if_written (tr_finish t'), if_total (tr_finish t')]"
proof -
  obtain t' d' where r: "relay demo_platform 100 demo_occasion demo_deliveries 0
       (trace_headers demo_platform demo_occasion 200 (demo_trace, demo_ledger)) = (demo_chunks, t', d')"
    using demo_relayed by blast
  from recorded_counts_fit [OF demo_new_trace r] r show ?thesis by blast
qed

end
