(* ===== verification/Analytics.thy ===== *)
theory Analytics
  imports Vault
begin

text \<open>
  \<open>crates/omni-core/src/analytics.rs\<close>: the weekly local reports with differential privacy. The
  calendar (ISO weeks) and the Laplace mechanism are parameters; a value the mechanism returns is
  \<open>None\<close> where it is not finite. The entries of a histogram before the release are multiples of
  \<open>1/65536\<close> between 0 and 1, which the code's \<open>f64\<close> represents exactly.
\<close>

section \<open>Categories\<close>

definition e_acute :: string where "e_acute = [CHR 0xC3, CHR 0xA9]"

definition topic_terms :: "(nat \<times> string list) list" where
  "topic_terms =
     [(2, [''rust'', ''code'', ''python'', ''debug'', ''api'']),
      (3, [''write'', e_acute @ ''cris'', ''r'' @ e_acute @ ''dig'', ''email'', ''article'']),
      (4, [''research'', ''source'', ''analyse'', ''compare'', ''study'']),
      (5, [''plan'', ''schedule'', ''agenda'', ''organis'', ''travel'']),
      (6, [''learn'', ''explain'', ''apprend'', ''explique'', ''teach'']),
      (7, [''business'', ''startup'', ''client'', ''revenue'', ''vente''])]"

definition topic :: "platform \<Rightarrow> string \<Rightarrow> nat" where
  "topic P text =
     (case find (\<lambda>(i, terms). list_ex (contains (lowercase P text)) terms) topic_terms of
        Some (i, _) \<Rightarrow> i
      | None \<Rightarrow> 1)"

definition latency_bucket :: "nat option \<Rightarrow> nat" where
  "latency_bucket ms =
     (case ms of
        None \<Rightarrow> 1
      | Some x \<Rightarrow> if x \<le> 249 then 2 else if x \<le> 999 then 3 else if x \<le> 2999 then 4
          else if x \<le> 9999 then 5 else if x \<le> 29999 then 6 else 7)"

definition token_bucket :: "nat option \<Rightarrow> nat" where
  "token_bucket tokens =
     (case tokens of
        None \<Rightarrow> 1
      | Some x \<Rightarrow> if x \<le> 127 then 2 else if x \<le> 511 then 3 else if x \<le> 2047 then 4
          else if x \<le> 8191 then 5 else if x \<le> 32767 then 6 else 7)"

section \<open>Weeks\<close>

text \<open>\<open>Utc::now().iso_week()\<close> in the format \<open>{}-W{:02}\<close>, and whether a year has an ISO week.\<close>

record calendar =
  week_of :: "int \<Rightarrow> string"
  week_exists :: "nat \<Rightarrow> nat \<Rightarrow> bool"

definition validate_week :: "calendar \<Rightarrow> string \<Rightarrow> unit res" where
  "validate_week C week =
     rbind (ensure (\<not> (length week \<noteq> 8 \<or> \<not> list_all (\<lambda>c. byte_of c < 128) week \<or> take 2 (drop 4 week) \<noteq> ''-W''
        \<or> \<not> list_all ascii_digit (take 4 week) \<or> \<not> list_all ascii_digit (drop 6 week)))
       ''Week must be YYYY-Www'') (\<lambda>_.
     ensure (week_exists C (digits_value (take 4 week)) (digits_value (drop 6 week))) ''Invalid ISO week'')"

section \<open>Histograms\<close>

text \<open>The counts of the three categories and the number of interactions. A byte is at most 255.\<close>

type_synonym tallies = "nat list \<times> nat list \<times> nat list \<times> nat"

fun tally :: "interaction_row list \<Rightarrow> tallies \<Rightarrow> tallies res" where
  "tally [] t = Inr t"
| "tally (r # rs) (a, b, c, n) =
     rbind (ok_or (if i_topic r \<le> 255 \<and> i_latency r \<le> 255 \<and> i_tokens r \<le> 255 then Some () else None) (Decode ''u8'')) (\<lambda>_.
     rbind (ensure (\<not> (i_topic r \<ge> 8 \<or> i_latency r \<ge> 8 \<or> i_tokens r \<ge> 8)) ''Invalid local metric category'') (\<lambda>_.
     tally rs (a[i_topic r := a ! i_topic r + 1], b[i_latency r := b ! i_latency r + 1],
       c[i_tokens r := c ! i_tokens r + 1], n + 1)))"

text \<open>The share of each category in units of \<open>1/65536\<close>, rounded down; what is left goes to
  ``other''.\<close>

definition lattice_units :: "nat list \<Rightarrow> nat \<Rightarrow> nat list" where
  "lattice_units counts n =
     (let units = map (\<lambda>c. c * 65536 div n) counts
      in units[1 := units ! 1 + (65536 - sum_list units)])"

definition histogram_of :: "nat list \<Rightarrow> nat \<Rightarrow> rat list" where
  "histogram_of counts n =
     (if n = 0 then (replicate 8 0)[0 := 1]
      else map (\<lambda>u. of_nat u / 65536) (lattice_units counts n))"

definition week_histograms :: "interaction_row list \<Rightarrow> (rat list \<times> rat list \<times> rat list) res" where
  "week_histograms rows =
     rbind (tally rows (replicate 8 0, replicate 8 0, replicate 8 0, 0)) (\<lambda>(a, b, c, n).
     Inr (histogram_of a n, histogram_of b n, histogram_of c n))"

section \<open>Reports\<close>

text \<open>The Laplace mechanism with scale 6.00000000000001: its privacy loss at sensitivity 2, and the
  outcome of the \<open>k\<close>-th invocation.\<close>

record mechanism =
  mc_epsilon :: "rat res"
  mc_invoke :: "nat \<Rightarrow> rat list \<Rightarrow> rat option list res"

definition release :: "mechanism \<Rightarrow> nat \<Rightarrow> rat list \<Rightarrow> rat list res" where
  "release M k h =
     rbind (mc_invoke M k h) (\<lambda>out.
     rbind (ensure (length out = 8) ''OpenDP returned unexpected dimensions'') (\<lambda>_.
     map_res (\<lambda>x. ok_or x (Bail ''OpenDP returned non-finite output'')) out))"

definition new_report ::
    "mechanism \<Rightarrow> platform \<Rightarrow> draw \<Rightarrow> string \<Rightarrow> db \<Rightarrow> report tx" where
  "new_report M P w week d =
     rbind (week_histograms (filter (\<lambda>r. i_week r = week) (d_interactions d))) (\<lambda>(a, b, c).
     rbind (mc_epsilon M) (\<lambda>epsilon.
     rbind (ensure (\<not> epsilon > 1 / 3) ''OpenDP privacy map exceeds the allocated budget'') (\<lambda>_.
     rbind (release M 0 a) (\<lambda>ra.
     rbind (release M 1 b) (\<lambda>rb.
     rbind (release M 2 c) (\<lambda>rc.
     let report = \<lparr>rp_schema = 1, rp_id = uuid w 0, rp_week = week, rp_epsilon = 1,
                   rp_topics = ra, rp_latency = rb, rp_tokens = rc\<rparr> in
     rbind (t_insert ar_week \<lparr>ar_week = week, ar_id = uuid w 0, ar_epsilon = 1, ar_payload = Some report,
        ar_created = rfc3339 P (now_at w)\<rparr> (d_reports d)) (\<lambda>rows.
     if uuid w 0 \<in> ar_id ` set (d_reports d)
     then Inl (Sql ''UNIQUE constraint failed: analytics_reports.report_id'')
     else Inr (report, d\<lparr>d_reports := rows\<rparr>))))))))"

definition prepare_report ::
    "calendar \<Rightarrow> mechanism \<Rightarrow> platform \<Rightarrow> draw \<Rightarrow> string \<Rightarrow> bool \<Rightarrow> bool \<Rightarrow> db \<Rightarrow> report tx" where
  "prepare_report C M P w week consent_default simulation d =
     rbind (validate_week C week) (\<lambda>_.
     rbind (ensure (consent consent_default d) ''Analytics consent is disabled'') (\<lambda>_.
     case t_find ar_week week (d_reports d) of
       Some row \<Rightarrow> rbind (ok_or (ar_payload row) (Decode ''payload'')) (\<lambda>r. Inr (r, d))
     | None \<Rightarrow>
         rbind (ensure (\<not> (\<not> simulation \<and> week \<noteq> week_of C (now_at w)))
           ''New production reports can only be prepared for the current ISO week'') (\<lambda>_.
         rbind (ensure (\<not> length (d_reports d) \<ge> 4)
           ''Lifetime pilot privacy budget exhausted (four reports maximum)'') (\<lambda>_.
         new_report M P w week d))))"

section \<open>Normalization\<close>

definition normalized :: "rat list \<Rightarrow> bool" where
  "normalized h \<longleftrightarrow> length h = 8 \<and> list_all (\<lambda>x. 0 \<le> x) h \<and> sum_list h = 1"

definition distance :: "rat list \<Rightarrow> rat list \<Rightarrow> rat" where
  "distance xs ys = sum_list (map2 (\<lambda>x y. \<bar>x - y\<bar>) xs ys)"

lemma sum_div_le:
  assumes "0 < n"
  shows "sum_list (map (\<lambda>c. c * k div n) cs) * n \<le> sum_list cs * (k::nat)"
proof (induction cs)
  case (Cons c cs)
  have "c * k div n * n \<le> c * k" by (rule div_times_less_eq_dividend)
  from add_mono [OF this Cons.IH] show ?case by (simp only: list.map sum_list.Cons distrib_right)
qed simp

lemma lattice_units_sum:
  assumes "0 < n" and "sum_list counts = n" and "length counts = 8"
  shows "sum_list (lattice_units counts n) = 65536 \<and> sum_list (map (\<lambda>c. c * 65536 div n) counts) \<le> 65536"
proof -
  let ?u = "map (\<lambda>c. c * 65536 div n) counts"
  have "sum_list ?u * n \<le> n * 65536" using sum_div_le [OF assms(1), of 65536 counts] assms(2) by simp
  then have le: "sum_list ?u \<le> 65536" using assms(1) by (simp add: mult.commute)
  have m: "?u ! 1 \<le> sum_list ?u" by (rule elem_le_sum_list) (simp add: assms(3))
  have "sum_list (lattice_units counts n) = sum_list ?u + (?u ! 1 + (65536 - sum_list ?u)) - ?u ! 1"
    unfolding lattice_units_def Let_def by (rule sum_list_update) (simp add: assms(3))
  with le m show ?thesis by simp
qed

lemma sum_of_nat: "sum_list (map (\<lambda>u. of_nat u / 65536) us) = (of_nat (sum_list us) / 65536 :: rat)"
  by (induction us) (simp_all add: add_divide_distrib)

lemma histogram_normalized:
  assumes "sum_list counts = n" and "length counts = 8"
  shows "normalized (histogram_of counts n)"
proof (cases "n = 0")
  case True
  then show ?thesis by (simp add: normalized_def histogram_of_def numeral_eq_Suc)
next
  case False
  with lattice_units_sum [of n counts] assms have "sum_list (lattice_units counts n) = 65536" by simp
  with False assms(2) show ?thesis
    by (simp add: normalized_def histogram_of_def sum_of_nat list_all_iff lattice_units_def Let_def)
qed

lemma sum_list_bump: "i < length xs \<Longrightarrow> sum_list (xs[i := xs ! i + 1]) = sum_list xs + (1::nat)"
  using elem_le_sum_list [of i xs] by (simp add: sum_list_update)

lemma tally_sums:
  "tally rs (a, b, c, n) = Inr (a', b', c', n') \<Longrightarrow> length a = 8 \<Longrightarrow> length b = 8 \<Longrightarrow> length c = 8 \<Longrightarrow>
   sum_list a = n \<Longrightarrow> sum_list b = n \<Longrightarrow> sum_list c = n \<Longrightarrow>
   length a' = 8 \<and> length b' = 8 \<and> length c' = 8 \<and> sum_list a' = n' \<and> sum_list b' = n' \<and> sum_list c' = n'"
proof (induction rs arbitrary: a b c n)
  case (Cons r rs)
  let ?a = "a[i_topic r := a ! i_topic r + 1]" and ?b = "b[i_latency r := b ! i_latency r + 1]"
    and ?c = "c[i_tokens r := c ! i_tokens r + 1]"
  from Cons.prems(1) have t: "tally rs (?a, ?b, ?c, n + 1) = Inr (a', b', c', n')"
    and "i_topic r < 8" "i_latency r < 8" "i_tokens r < 8" by (auto simp: res_simps)
  with Cons.prems(2-7) have "sum_list ?a = n + 1" "sum_list ?b = n + 1" "sum_list ?c = n + 1"
    using sum_list_bump [of "i_topic r" a] sum_list_bump [of "i_latency r" b] sum_list_bump [of "i_tokens r" c] by simp_all
  with Cons.IH [OF t] Cons.prems(2-4) show ?case by simp
qed auto

lemma week_histograms_normalized:
  assumes "week_histograms rows = Inr (a, b, c)"
  shows "normalized a \<and> normalized b \<and> normalized c"
proof -
  from assms obtain x y z n where t: "tally rows (replicate 8 0, replicate 8 0, replicate 8 0, 0) = Inr (x, y, z, n)"
    and h: "a = histogram_of x n" "b = histogram_of y n" "c = histogram_of z n"
    by (auto simp: week_histograms_def res_simps)
  from tally_sums [OF t] have "length x = 8" "length y = 8" "length z = 8"
    "sum_list x = n" "sum_list y = n" "sum_list z = n" by (simp_all add: sum_list_replicate)
  then show ?thesis by (simp add: h histogram_normalized)
qed

lemma distance_bound:
  "length xs = length ys \<Longrightarrow> list_all (\<lambda>x. 0 \<le> x) xs \<Longrightarrow> list_all (\<lambda>x. 0 \<le> x) ys \<Longrightarrow>
   distance xs ys \<le> sum_list xs + sum_list ys"
  unfolding distance_def by (induction xs ys rule: list_induct2) auto

lemma normalized_distance: "normalized x \<Longrightarrow> normalized y \<Longrightarrow> distance x y \<le> 2"
  using distance_bound [of x y] by (simp add: normalized_def)

section \<open>The log of reports\<close>

lemma release_Inr: "release M k h = Inr out \<Longrightarrow> length out = 8"
  by (auto simp: release_def res_simps dest: map_res_length)

lemma new_report_Inr:
  assumes "new_report M P w week d = Inr (r, d')"
  shows "d' = d\<lparr>d_reports := d_reports d @ [\<lparr>ar_week = week, ar_id = uuid w 0, ar_epsilon = 1,
       ar_payload = Some r, ar_created = rfc3339 P (now_at w)\<rparr>]\<rparr>
     \<and> rp_week r = week \<and> rp_epsilon r = 1 \<and> week \<notin> ar_week ` set (d_reports d)
     \<and> length (rp_topics r) = 8 \<and> length (rp_latency r) = 8 \<and> length (rp_tokens r) = 8
     \<and> (\<exists>epsilon \<le> 1 / 3. mc_epsilon M = Inr epsilon)"
proof -
  from assms obtain a b c epsilon ra rb rc where e: "mc_epsilon M = Inr epsilon" "\<not> epsilon > 1 / 3"
    and rel: "release M 0 a = Inr ra" "release M 1 b = Inr rb" "release M 2 c = Inr rc"
    and r: "r = \<lparr>rp_schema = 1, rp_id = uuid w 0, rp_week = week, rp_epsilon = 1,
                   rp_topics = ra, rp_latency = rb, rp_tokens = rc\<rparr>"
    and d: "week \<notin> ar_week ` set (d_reports d)" "d' = d\<lparr>d_reports := d_reports d @ [\<lparr>ar_week = week,
       ar_id = uuid w 0, ar_epsilon = 1, ar_payload = Some r, ar_created = rfc3339 P (now_at w)\<rparr>]\<rparr>"
    unfolding new_report_def by (auto simp: res_simps Let_def split: if_splits)
  have "\<exists>epsilon \<le> 1 / 3. mc_epsilon M = Inr epsilon" using e by (auto simp: not_less)
  with rel r d release_Inr show ?thesis by simp
qed

lemma prepare_report_Inr:
  assumes "prepare_report C M P w week dflt sim d = Inr (r, d')"
  shows "validate_week C week = Inr () \<and> consent dflt d
     \<and> ((\<exists>row. t_find ar_week week (d_reports d) = Some row \<and> ar_payload row = Some r \<and> d' = d)
        \<or> (t_find ar_week week (d_reports d) = None \<and> (sim \<or> week = week_of C (now_at w))
           \<and> length (d_reports d) < 4 \<and> new_report M P w week d = Inr (r, d')))"
  using assms by (auto simp: prepare_report_def res_simps split: option.splits)

lemma prepare_report_stored:
  assumes "prepare_report C M P w week dflt sim d = Inr (r, d')"
  shows "\<exists>row. t_find ar_week week (d_reports d') = Some row \<and> ar_payload row = Some r"
  using prepare_report_Inr [OF assms]
  by (auto dest!: new_report_Inr simp: t_find_append_fresh)

lemma prepare_report_grows:
  assumes "prepare_report C M P w week dflt sim d = Inr (r, d')"
  shows "prefix (d_reports d) (d_reports d')"
  using prepare_report_Inr [OF assms] by (auto dest!: new_report_Inr)

lemma t_find_prefix: "prefix xs ys \<Longrightarrow> t_find k v xs = Some r \<Longrightarrow> t_find k v ys = Some r"
proof (elim prefixE)
  fix zs
  assume "t_find k v xs = Some r" "ys = xs @ zs"
  then show ?thesis by (induction xs arbitrary: ys) (auto simp: t_find_def split: if_splits)
qed

definition budget_ok :: "db \<Rightarrow> bool" where
  "budget_ok d \<longleftrightarrow> length (d_reports d) \<le> 4 \<and> distinct (map ar_week (d_reports d))
     \<and> list_all (\<lambda>row. ar_epsilon row = 1) (d_reports d)"

lemma prepare_report_budget:
  assumes "prepare_report C M P w week dflt sim d = Inr (r, d')" and "budget_ok d"
  shows "budget_ok d'"
  using prepare_report_Inr [OF assms(1)] assms(2) by (auto dest!: new_report_Inr simp: budget_ok_def)

text \<open>A request for a report: the environment it draws from, the week, the default for consent and
  whether the installation simulates.\<close>

fun report_step :: "calendar \<Rightarrow> mechanism \<Rightarrow> platform \<Rightarrow> draw \<times> string \<times> bool \<times> bool \<Rightarrow> db \<Rightarrow> db" where
  "report_step C M P (w, week, dflt, sim) d = after (prepare_report C M P w week dflt sim d) d"

interpretation reports: op_invariant "report_step C M P" budget_ok for C M P
proof
  fix d :: db and x :: "draw \<times> string \<times> bool \<times> bool"
  assume "budget_ok d"
  then show "budget_ok (report_step C M P x d)"
    by (cases x) (auto intro: after_cases [where P = budget_ok] prepare_report_budget)
qed

interpretation report_log: op_monotone "report_step C M P" "\<lambda>d d'. prefix (d_reports d) (d_reports d')" for C M P
proof
  fix d :: db and x :: "draw \<times> string \<times> bool \<times> bool"
  show "prefix (d_reports d) (d_reports (report_step C M P x d))"
    by (cases x) (auto intro: after_cases [where P = "\<lambda>d'. prefix (d_reports d) (d_reports d')"] prepare_report_grows)
qed auto

section \<open>Properties\<close>

text \<open>Every week exists; the mechanism adds \<open>1/4\<close> to each entry.\<close>

definition demo_calendar :: calendar where
  "demo_calendar = \<lparr>week_of = (\<lambda>_. ''2026-W01''), week_exists = (\<lambda>_ _. True)\<rparr>"

definition demo_mechanism :: mechanism where
  "demo_mechanism = \<lparr>mc_epsilon = Inr (1 / 3), mc_invoke = (\<lambda>_ h. Inr (map (\<lambda>x. Some (x + 1 / 4)) h))\<rparr>"

definition demo_visit :: "nat \<Rightarrow> interaction_row" where
  "demo_visit t = \<lparr>i_id = ''i'', i_week = ''2026-W01'', i_topic = t, i_latency = 2, i_tokens = 7, i_success = True,
     i_created = ''t''\<rparr>"

lemma replicate_eight: "replicate 8 x = [x, x, x, x, x, x, x, x]"
  by (simp add: numeral_eq_Suc)

lemma demo_histograms:
  "week_histograms [demo_visit 2, demo_visit 3, demo_visit 2] = Inr
     ([0, 1 / 65536, 43690 / 65536, 21845 / 65536, 0, 0, 0, 0], [0, 0, 1, 0, 0, 0, 0, 0], [0, 0, 0, 0, 0, 0, 0, 1])"
  "week_histograms [] = Inr ([1, 0, 0, 0, 0, 0, 0, 0], [1, 0, 0, 0, 0, 0, 0, 0], [1, 0, 0, 0, 0, 0, 0, 0])"
  by (simp_all add: week_histograms_def demo_visit_def histogram_of_def lattice_units_def replicate_eight Let_def)

lemma demo_report:
  "\<exists>r d. prepare_report demo_calendar demo_mechanism demo_platform (demo_draw 5 ''r'') ''2026-W01'' False False
     (empty_db ''i'' demo_spec\<lparr>d_consent := Some ''1''\<rparr>) = Inr (r, d)
     \<and> prepare_report demo_calendar demo_mechanism demo_platform (demo_draw 9 ''s'') ''2026-W01'' False False d = Inr (r, d)"
  by (simp add: prepare_report_def validate_week_def ascii_digit_def demo_calendar_def consent_def t_find_def empty_db_def
      new_report_def demo_histograms demo_mechanism_def release_def t_insert_def demo_draw_def Let_def)

text \<open>C30: What the mechanism perturbs has the sensitivity it is calibrated for: whatever
  interactions a week has, each of its three histograms has eight non-negative entries that add up to
  exactly one, so that replacing all the interactions of the week moves each by at most 2 in the
  1-norm.\<close>

theorem histograms_have_bounded_sensitivity:
  assumes "week_histograms rows = Inr (a, b, c)" and "week_histograms rows' = Inr (a', b', c')"
  shows "normalized a \<and> normalized b \<and> normalized c
     \<and> distance a a' \<le> 2 \<and> distance b b' \<le> 2 \<and> distance c c' \<le> 2"
  using week_histograms_normalized [OF assms(1)] week_histograms_normalized [OF assms(2)]
  by (simp add: normalized_distance)

lemma histograms_have_bounded_sensitivity_witness:
  "case (week_histograms [demo_visit 2, demo_visit 3, demo_visit 2], week_histograms []) of
     (Inr (a, b, c), Inr (a', b', c')) \<Rightarrow> normalized a \<and> normalized a' \<and> a \<noteq> a' \<and> distance a a' \<le> 2
   | _ \<Rightarrow> False"
  using histograms_have_bounded_sensitivity [OF demo_histograms] histograms_have_bounded_sensitivity [OF demo_histograms(2,2)]
  by (simp add: demo_histograms)

text \<open>The privacy budget is never exceeded: however often reports are asked for, with whatever
  weeks, clocks and failures, an installation keeps at most four reports, one per week, which together
  spend at most 4.\<close>

theorem privacy_budget_is_never_exceeded:
  assumes "d_reports d0 = []" and "d = run_ops (report_step C M P) requests d0"
  shows "length (d_reports d) \<le> 4 \<and> distinct (map ar_week (d_reports d)) \<and> st_budget_used (analytics_stats dflt d) \<le> 4"
proof -
  have "budget_ok d" unfolding assms(2) by (rule reports.run_inv) (simp add: budget_ok_def assms(1))
  have "sum_list (map ar_epsilon rows) = of_nat (length rows)" if "list_all (\<lambda>row. ar_epsilon row = 1) rows" for rows
    using that by (induction rows) simp_all
  from this [of "d_reports d"] \<open>budget_ok d\<close> have "sum_list (map ar_epsilon (d_reports d)) = of_nat (length (d_reports d))"
    by (simp add: budget_ok_def)
  with \<open>budget_ok d\<close> show ?thesis by (simp add: budget_ok_def analytics_stats_def)
qed

lemma privacy_budget_is_never_exceeded_witness:
  "let d = run_ops (report_step demo_calendar demo_mechanism demo_platform)
       (map (\<lambda>(u, week). (demo_draw 1 u, week, True, True)) [(''a'', ''2026-W01''), (''b'', ''2026-W02''), (''c'', ''2026-W03''),
          (''d'', ''2026-W04''), (''e'', ''2026-W05'')]) (empty_db ''i'' demo_spec)
   in length (d_reports d) = 4 \<and> st_budget_used (analytics_stats True d) \<le> 4"
proof -
  define d where "d = run_ops (report_step demo_calendar demo_mechanism demo_platform)
       (map (\<lambda>(u, week). (demo_draw 1 u, week, True, True)) [(''a'', ''2026-W01''), (''b'', ''2026-W02''), (''c'', ''2026-W03''),
          (''d'', ''2026-W04''), (''e'', ''2026-W05'')]) (empty_db ''i'' demo_spec)"
  have "d_reports (empty_db ''i'' demo_spec) = []" by (simp add: empty_db_def)
  from privacy_budget_is_never_exceeded [OF this d_def] have "st_budget_used (analytics_stats True d) \<le> 4" by blast
  moreover have "length (d_reports d) = 4"
    by (simp add: d_def after_def prepare_report_def validate_week_def ascii_digit_def demo_calendar_def consent_def t_find_def
      empty_db_def new_report_def demo_histograms demo_mechanism_def release_def t_insert_def demo_draw_def Let_def)
  ultimately show ?thesis by (simp add: d_def)
qed

text \<open>A report is released once: after a report of a week was returned, every later request for
  that week that succeeds returns the same report and changes nothing, whatever was requested in
  between; and a report is returned only with the owner's consent.\<close>

theorem released_report_is_final:
  assumes "prepare_report C M P w week dflt sim d = Inr (r, d1)"
    and "d2 = run_ops (report_step C M P) requests d1"
    and "prepare_report C M P w' week dflt' sim' d2 = Inr (r', d3)"
  shows "r' = r \<and> d3 = d2 \<and> consent dflt d \<and> consent dflt' d2"
proof -
  obtain row where row: "t_find ar_week week (d_reports d1) = Some row" "ar_payload row = Some r"
    using prepare_report_stored [OF assms(1)] by blast
  have "prefix (d_reports d1) (d_reports d2)" unfolding assms(2) by (rule report_log.run_rel)
  from t_find_prefix [OF this row(1)] have "t_find ar_week week (d_reports d2) = Some row" .
  with prepare_report_Inr [OF assms(3)] prepare_report_Inr [OF assms(1)] row(2) show ?thesis by auto
qed

lemma released_report_is_final_witness:
  "\<exists>r d. prepare_report demo_calendar demo_mechanism demo_platform (demo_draw 5 ''r'') ''2026-W01'' False False
       (empty_db ''i'' demo_spec\<lparr>d_consent := Some ''1''\<rparr>) = Inr (r, d)
     \<and> prepare_report demo_calendar demo_mechanism demo_platform (demo_draw 9 ''s'') ''2026-W01'' False False d = Inr (r, d)
     \<and> consent False d"
proof -
  obtain r d where d: "prepare_report demo_calendar demo_mechanism demo_platform (demo_draw 5 ''r'') ''2026-W01'' False False
      (empty_db ''i'' demo_spec\<lparr>d_consent := Some ''1''\<rparr>) = Inr (r, d)"
    and d': "prepare_report demo_calendar demo_mechanism demo_platform (demo_draw 9 ''s'') ''2026-W01'' False False d = Inr (r, d)"
    using demo_report by blast
  from released_report_is_final [OF d _ d', of "[]"] d d' show ?thesis by auto
qed

end
