(* ===== verification/Administration.thy ===== *)
theory Administration
  imports Config
begin

text \<open>
  \<open>crates/omni-core/src/administration.rs\<close>: the owner's settings and provider profiles, kept as two
  JSON documents in the settings table of the encrypted store. A write is one statement; \<open>Inl\<close>
  leaves the store as it was. Amounts of money are exact rationals, so the test for finite numbers is
  the range test.
\<close>

section \<open>Documents and patches\<close>

record settings_patch =
  sp_history_enabled :: "bool option"
  sp_history_days :: "nat option"
  sp_extractor_base :: "string option"
  sp_extractor_model :: "string option"
  sp_primary :: "string option"

record provider_patch =
  pt_label :: "string option"
  pt_kind :: "string option"
  pt_base :: "string option"
  pt_model :: "string option"
  pt_enabled :: "bool option"
  pt_key :: "string option"
  pt_clear_key :: bool
  pt_rates :: "rates option option"
  pt_clear_rates :: bool

definition amount_ok :: "rat \<Rightarrow> bool" where
  "amount_ok n \<longleftrightarrow> 0 \<le> n \<and> n \<le> 1000000"

definition validate_prices :: "rates \<Rightarrow> unit res" where
  "validate_prices r =
     ensure (\<not> (ra_currency r \<noteq> ''USD''
        \<or> \<not> list_all amount_ok (List.map_filter id [Some (ra_input r), Some (ra_output r), ra_cached r, ra_written r])))
       ''Rates must be finite, non-negative USD amounts per million tokens''"

definition not_checked :: discovery where
  "not_checked = \<lparr>di_status = ''not_checked'', di_checked = None, di_models = [], di_loaded = None, di_error = None\<rparr>"

definition policy_allowed :: "config \<Rightarrow> provider \<Rightarrow> bool" where
  "policy_allowed c p \<longleftrightarrow> \<not> cf_allowlist_enforced c \<or> List.member (cf_allowlist c) (pv_base p)"

text \<open>The object that \<open>public\<close> serializes.\<close>

record provider_view =
  vw_id :: string
  vw_label :: string
  vw_kind :: string
  vw_base :: string
  vw_model :: string
  vw_enabled :: bool
  vw_has_key :: bool
  vw_rates :: "rates option"
  vw_status :: string
  vw_checked :: "string option"
  vw_models :: "string list"
  vw_loaded :: "json list option"
  vw_error :: "string option"
  vw_allowed :: bool

definition provider_public :: "config \<Rightarrow> provider \<Rightarrow> provider_view" where
  "provider_public c p =
     (let x = pv_discovery p in
      \<lparr>vw_id = pv_id p, vw_label = pv_label p, vw_kind = pv_kind p, vw_base = pv_base p, vw_model = pv_model p,
       vw_enabled = pv_enabled p, vw_has_key = (pv_key p \<noteq> []), vw_rates = pv_rates p, vw_status = di_status x,
       vw_checked = di_checked x, vw_models = di_models x, vw_loaded = di_loaded x, vw_error = di_error x,
       vw_allowed = policy_allowed c p\<rparr>)"

definition en_dash :: string where "en_dash = [CHR 0xE2, CHR 0x80, CHR 0x93]"

definition bounded_text :: "string \<Rightarrow> string \<Rightarrow> nat \<Rightarrow> string res" where
  "bounded_text raw name mx =
     (let value = trim raw in
      rbind (ensure (\<not> (value = [] \<or> length value > mx \<or> has_control value))
        (name @ '' must contain 1'' @ en_dash @ show_nat mx @ '' characters without control characters'')) (\<lambda>_.
      Inr value))"

definition provider_kinds :: "string list" where
  "provider_kinds = [''ollama'', ''openai'', ''anthropic'', ''compatible'']"

definition provider_validate :: "platform \<Rightarrow> provider \<Rightarrow> provider res" where
  "provider_validate P p =
     rbind (bounded_text (pv_label p) ''Provider label'' 80) (\<lambda>label.
     rbind (if trim (pv_model p) = [] then Inr [] else bounded_text (pv_model p) ''Model'' 200) (\<lambda>model.
     rbind (normalize_base P (pv_base p)) (\<lambda>base.
     rbind (ensure (List.member provider_kinds (pv_kind p)) ''Unsupported provider kind'') (\<lambda>_.
     rbind (ensure (\<not> (pv_kind p = ''ollama'' \<and> \<not> is_loopback_url P base))
       ''Ollama discovery requires a local loopback endpoint'') (\<lambda>_.
     rbind (ensure (\<not> (length (pv_key p) > 8192 \<or> \<not> list_all ascii_graphic (pv_key p)))
       ''API key must contain visible ASCII characters without spaces'') (\<lambda>_.
     rbind (case pv_rates p of None \<Rightarrow> Inr () | Some r \<Rightarrow> validate_prices r) (\<lambda>_.
     Inr (p\<lparr>pv_label := label, pv_model := model, pv_base := base\<rparr>))))))))"

section \<open>Operations\<close>

text \<open>\<open>admin_read\<close> at its two keys.\<close>

definition read_document :: "'a option option \<Rightarrow> 'a option res" where
  "read_document x =
     (case x of
        None \<Rightarrow> Inr None
      | Some None \<Rightarrow> Inl (Decode ''Invalid encrypted administration settings'')
      | Some (Some v) \<Rightarrow> Inr (Some v))"

definition read_settings :: "db \<Rightarrow> admin_settings res" where
  "read_settings d =
     rbind (read_document (d_settings d)) (\<lambda>x. ok_or x (Bail ''Administration has not been initialized''))"

definition read_providers :: "db \<Rightarrow> provider list res" where
  "read_providers d =
     rbind (read_document (d_providers d)) (\<lambda>x. ok_or x (Bail ''Administration has not been initialized''))"

definition read_provider :: "string \<Rightarrow> db \<Rightarrow> provider res" where
  "read_provider i d =
     rbind (read_providers d) (\<lambda>ps. ok_or (find (\<lambda>p. pv_id p = i) ps) (Bail ''Provider not found''))"

definition openai_base :: string where "openai_base = ''https://api.openai.com/v1''"

definition default_kind :: "platform \<Rightarrow> config \<Rightarrow> string" where
  "default_kind P c =
     (if is_loopback_url P (cf_llm_base c) \<and> contains (cf_llm_base c) '':11434'' then ''ollama''
      else if cf_llm_base c = openai_base then ''openai'' else ''compatible'')"

definition default_providers :: "platform \<Rightarrow> config \<Rightarrow> provider list" where
  "default_providers P c =
     [\<lparr>pv_id = ''default'',
       pv_label = (if cf_simulation c then ''Synthetic provider''
                   else if is_loopback_url P (cf_llm_base c) then ''Local model'' else ''Primary provider''),
       pv_kind = default_kind P c, pv_base = cf_llm_base c, pv_model = cf_llm_model c, pv_enabled = True,
       pv_key = cf_llm_key c, pv_rates = None, pv_discovery = not_checked\<rparr>]
     @ (if cf_llm_base c \<noteq> openai_base
        then [\<lparr>pv_id = ''openai'', pv_label = ''OpenAI'', pv_kind = ''openai'', pv_base = openai_base,
               pv_model = ''gpt-4.1-mini'', pv_enabled = False, pv_key = [], pv_rates = None,
               pv_discovery = not_checked\<rparr>]
        else [])
     @ [\<lparr>pv_id = ''anthropic'', pv_label = ''Anthropic'', pv_kind = ''anthropic'',
         pv_base = cf_anthropic_base c, pv_model = ''claude-sonnet-4-20250514'',
         pv_enabled = (is_loopback_url P (cf_anthropic_base c) \<or> cf_anthropic_key c \<noteq> []),
         pv_key = cf_anthropic_key c, pv_rates = None, pv_discovery = not_checked\<rparr>]"

definition initialize_admin :: "platform \<Rightarrow> config \<Rightarrow> db \<Rightarrow> unit tx" where
  "initialize_admin P c d =
     rbind (read_document (d_providers d)) (\<lambda>existing.
     if existing \<noteq> None then Inr ((), d)
     else Inr ((), d\<lparr>d_providers := Some (Some (default_providers P c)),
            d_settings := Some (Some \<lparr>as_history_enabled = True, as_history_days = 30,
              as_extractor_base = cf_extractor_base c, as_extractor_model = cf_extractor_model c,
              as_primary = ''default''\<rparr>)\<rparr>))"

definition patched :: "'a option \<Rightarrow> ('a \<Rightarrow> 'b res) \<Rightarrow> 'b \<Rightarrow> 'b res" where
  "patched x f old = (case x of None \<Rightarrow> Inr old | Some v \<Rightarrow> f v)"

definition patch_admin_settings :: "platform \<Rightarrow> settings_patch \<Rightarrow> db \<Rightarrow> admin_settings tx" where
  "patch_admin_settings P t d =
     rbind (read_settings d) (\<lambda>s.
     rbind (patched (sp_history_enabled t) Inr (as_history_enabled s)) (\<lambda>enabled.
     rbind (patched (sp_history_days t)
       (\<lambda>v. rbind (ensure (1 \<le> v \<and> v \<le> 365) ''History retention must be between 1 and 365 days'') (\<lambda>_. Inr v))
       (as_history_days s)) (\<lambda>days.
     rbind (patched (sp_extractor_base t)
       (\<lambda>v. rbind (normalize_base P v) (\<lambda>base.
            rbind (ensure (is_loopback_url P base) ''Memory extraction is local-only'') (\<lambda>_. Inr base)))
       (as_extractor_base s)) (\<lambda>base.
     rbind (patched (sp_extractor_model t) (\<lambda>v. bounded_text v ''Extractor model'' 200)
       (as_extractor_model s)) (\<lambda>model.
     rbind (patched (sp_primary t)
       (\<lambda>v. rbind (read_provider v d) (\<lambda>p.
            rbind (ensure (\<not> (\<not> pv_enabled p \<or> pv_model p = []))
              ''The primary provider must be enabled and have a model selected'') (\<lambda>_. Inr v)))
       (as_primary s)) (\<lambda>primary.
     let s' = \<lparr>as_history_enabled = enabled, as_history_days = days, as_extractor_base = base,
               as_extractor_model = model, as_primary = primary\<rparr>
     in Inr (s', d\<lparr>d_settings := Some (Some s')\<rparr>)))))))"

text \<open>The first profile with the same id is replaced; otherwise the profile is added.\<close>

fun put_provider :: "provider \<Rightarrow> provider list \<Rightarrow> provider list" where
  "put_provider p [] = [p]"
| "put_provider p (x # xs) = (if pv_id x = pv_id p then p # xs else x # put_provider p xs)"

definition blank_provider :: "string \<Rightarrow> provider" where
  "blank_provider i = \<lparr>pv_id = i, pv_label = [], pv_kind = ''compatible'', pv_base = [], pv_model = [],
     pv_enabled = True, pv_key = [], pv_rates = None, pv_discovery = not_checked\<rparr>"

definition or_else :: "'a option \<Rightarrow> 'a \<Rightarrow> 'a" where
  "or_else x y = (case x of None \<Rightarrow> y | Some v \<Rightarrow> v)"

text \<open>The patch laid over a profile, validated. A key does not follow the profile to another base
  URL, prices do not follow it to another model.\<close>

definition patch_provider :: "platform \<Rightarrow> provider_patch \<Rightarrow> provider \<Rightarrow> provider res" where
  "patch_provider P t p0 =
     (let p1 = p0\<lparr>pv_label := or_else (pt_label t) (pv_label p0), pv_kind := or_else (pt_kind t) (pv_kind p0)\<rparr> in
      rbind (patched (pt_base t)
        (\<lambda>v. rbind (normalize_base P v) (\<lambda>base.
             Inr (p1\<lparr>pv_base := base, pv_key := (if base \<noteq> pv_base p1 then [] else pv_key p1)\<rparr>))) p1) (\<lambda>p2.
      let p3 = p2\<lparr>pv_model := or_else (pt_model t) (pv_model p2), pv_enabled := or_else (pt_enabled t) (pv_enabled p2),
                 pv_key := or_else (pt_key t) (if pt_clear_key t then [] else pv_key p2),
                 pv_rates := or_else (pt_rates t) (if pt_clear_rates t then None else pv_rates p2)\<rparr> in
      rbind (provider_validate P p3) (\<lambda>p4.
      Inr (if pv_model p4 \<noteq> pv_model p0 \<and> pt_rates t = None then p4\<lparr>pv_rates := None\<rparr> else p4))))"

definition save_provider :: "platform \<Rightarrow> draw \<Rightarrow> string option \<Rightarrow> provider_patch \<Rightarrow> db \<Rightarrow> provider tx" where
  "save_provider P w i t d =
     rbind (ensure (\<not> (pt_clear_key t \<and> pt_key t \<noteq> None)) ''Set a key or clear it, not both'') (\<lambda>_.
     rbind (ensure (\<not> (pt_clear_rates t \<and> pt_rates t \<noteq> None)) ''Set rates or clear them, not both'') (\<lambda>_.
     rbind (read_providers d) (\<lambda>ps.
     rbind (ensure (\<not> (i = None \<and> length ps \<ge> 32)) ''At most 32 provider profiles are supported'') (\<lambda>_.
     rbind (case i of Some x \<Rightarrow> read_provider x d | None \<Rightarrow> Inr (blank_provider (uuid w 0))) (\<lambda>p0.
     rbind (patch_provider P t p0) (\<lambda>p1.
     rbind (if \<not> pv_enabled p1 \<or> pv_model p1 = []
            then rbind (read_settings d) (\<lambda>s. ensure (as_primary s \<noteq> pv_id p1)
              ''The primary provider must stay enabled with a model selected'')
            else Inr ()) (\<lambda>_.
     let p2 = (if (pv_base p0, pv_kind p0, pv_key p0) \<noteq> (pv_base p1, pv_kind p1, pv_key p1)
               then p1\<lparr>pv_discovery := not_checked\<rparr> else p1)
     in Inr (p2, d\<lparr>d_providers := Some (Some (put_provider p2 ps))\<rparr>))))))))"

definition delete_provider :: "string \<Rightarrow> db \<Rightarrow> bool tx" where
  "delete_provider i d =
     rbind (read_settings d) (\<lambda>s.
     rbind (ensure (as_primary s \<noteq> i) ''Select another primary provider before deleting this profile'') (\<lambda>_.
     rbind (read_providers d) (\<lambda>ps.
     let ps' = filter (\<lambda>p. pv_id p \<noteq> i) ps
     in Inr (length ps \<noteq> length ps', d\<lparr>d_providers := Some (Some ps')\<rparr>))))"

definition save_discovery :: "provider \<Rightarrow> discovery \<Rightarrow> db \<Rightarrow> provider tx" where
  "save_discovery original x d =
     rbind (read_providers d) (\<lambda>ps.
     rbind (ok_or (find (\<lambda>p. pv_id p = pv_id original) ps) (Bail ''Provider was deleted during discovery'')) (\<lambda>p.
     rbind (ensure (\<not> (pv_base p \<noteq> pv_base original \<or> pv_key p \<noteq> pv_key original \<or> pv_kind p \<noteq> pv_kind original))
       ''Provider changed during discovery; retry'') (\<lambda>_.
     let p' = p\<lparr>pv_discovery := x\<rparr>
     in Inr (p', d\<lparr>d_providers := Some (Some (put_provider p' ps))\<rparr>))))"

definition speaks :: "bool option \<Rightarrow> provider \<Rightarrow> bool" where
  "speaks anthropic p \<longleftrightarrow> (case anthropic of None \<Rightarrow> True | Some a \<Rightarrow> (pv_kind p = ''anthropic'') = a)"

definition selected_provider :: "string option \<Rightarrow> bool option \<Rightarrow> config \<Rightarrow> db \<Rightarrow> provider res" where
  "selected_provider i anthropic c d =
     rbind (read_settings d) (\<lambda>s.
     rbind (read_providers d) (\<lambda>ps.
     rbind (case i of
         Some x \<Rightarrow> ok_or (find (\<lambda>p. pv_id p = x) ps) (Bail ''Provider not found'')
       | None \<Rightarrow>
           (let fit = (\<lambda>p. pv_enabled p \<and> speaks anthropic p) in
            ok_or (case find (\<lambda>p. pv_id p = as_primary s) (filter fit ps) of
                Some p \<Rightarrow> Some p
              | None \<Rightarrow> find fit ps) (Bail ''No enabled provider supports this protocol''))) (\<lambda>p.
     rbind (ensure (pv_enabled p) ''Provider is disabled'') (\<lambda>_.
     rbind (ensure (speaks anthropic p) ''Provider does not support this protocol'') (\<lambda>_.
     rbind (ensure (policy_allowed c p) ''Provider blocked by the environment upstream allowlist'') (\<lambda>_.
     Inr p))))))"

section \<open>Lemmas\<close>

lemma read_document_Inr [res_simps]: "read_document x = Inr y \<longleftrightarrow> (y = None \<and> x = None) \<or> (y \<noteq> None \<and> x = Some y)"
  by (auto simp: read_document_def split: option.splits)

lemma read_settings_Inr [res_simps]: "read_settings d = Inr s \<longleftrightarrow> d_settings d = Some (Some s)"
  by (auto simp: read_settings_def res_simps)

lemma read_providers_Inr [res_simps]: "read_providers d = Inr ps \<longleftrightarrow> d_providers d = Some (Some ps)"
  by (auto simp: read_providers_def res_simps)

lemma read_provider_Inr:
  "read_provider i d = Inr p \<Longrightarrow> \<exists>ps. d_providers d = Some (Some ps) \<and> find (\<lambda>x. pv_id x = i) ps = Some p
     \<and> p \<in> set ps \<and> pv_id p = i"
  by (auto simp: read_provider_def res_simps dest: find_SomeD)

lemma patched_None [simp]: "patched None f old = Inr old"
  by (simp add: patched_def)

lemma patched_Inr: "patched x f old = Inr y \<longleftrightarrow> (x = None \<and> y = old) \<or> (\<exists>v. x = Some v \<and> f v = Inr y)"
  by (auto simp: patched_def split: option.splits)

lemma or_else_simps [simp]: "or_else None y = y" "or_else (Some v) y = v"
  by (simp_all add: or_else_def)

lemma find_put_provider: "pv_id p = i \<Longrightarrow> find (\<lambda>x. pv_id x = i) (put_provider p ps) = Some p"
  by (induction ps) auto

lemma put_provider_ids:
  "map pv_id (put_provider p ps) = (if pv_id p \<in> pv_id ` set ps then map pv_id ps else map pv_id ps @ [pv_id p])"
  by (induction ps) auto

lemma put_provider_distinct: "distinct (map pv_id ps) \<Longrightarrow> distinct (map pv_id (put_provider p ps))"
  by (simp add: put_provider_ids)

lemma put_provider_length:
  "length (put_provider p ps) = (if pv_id p \<in> pv_id ` set ps then length ps else Suc (length ps))"
  by (metis length_map length_append_singleton put_provider_ids)

lemma put_provider_member:
  "distinct (map pv_id ps) \<Longrightarrow> x \<in> set (put_provider p ps) \<longleftrightarrow> x = p \<or> (x \<in> set ps \<and> pv_id x \<noteq> pv_id p)"
  by (induction ps) (auto simp: image_iff)

lemma provider_validate_Inr:
  assumes "provider_validate P p = Inr q"
  shows "normalize_base P (pv_base p) = Inr (pv_base q) \<and> q = p\<lparr>pv_label := pv_label q, pv_model := pv_model q, pv_base := pv_base q\<rparr>
     \<and> List.member provider_kinds (pv_kind q) \<and> (pv_kind q = ''ollama'' \<longrightarrow> is_loopback_url P (pv_base q))
     \<and> list_all ascii_graphic (pv_key q) \<and> pv_label q \<noteq> []"
  using assms by (auto simp: provider_validate_def bounded_text_def Let_def res_simps)

text \<open>What saving a profile comes to: the profile before, the one after, and what may differ.\<close>

lemma patch_provider_Inr:
  assumes "patch_provider P t p0 = Inr p"
  obtains base key where
    "(pt_base t = None \<and> base = pv_base p0 \<and> key = pv_key p0)
       \<or> (\<exists>v. pt_base t = Some v \<and> normalize_base P v = Inr base \<and> key = (if base \<noteq> pv_base p0 then [] else pv_key p0))"
    and "normalize_base P base = Inr (pv_base p)" and "pv_id p = pv_id p0"
    and "pv_key p = or_else (pt_key t) (if pt_clear_key t then [] else key)"
    and "pv_model p \<noteq> pv_model p0 \<and> pt_rates t = None \<longrightarrow> pv_rates p = None"
proof -
  define p1 where "p1 = p0\<lparr>pv_label := or_else (pt_label t) (pv_label p0), pv_kind := or_else (pt_kind t) (pv_kind p0)\<rparr>"
  have p1: "pv_id p1 = pv_id p0" "pv_base p1 = pv_base p0" "pv_key p1 = pv_key p0" by (simp_all add: p1_def)
  obtain p2 p4 where
    p2: "patched (pt_base t) (\<lambda>v. rbind (normalize_base P v) (\<lambda>base.
            Inr (p1\<lparr>pv_base := base, pv_key := (if base \<noteq> pv_base p1 then [] else pv_key p1)\<rparr>))) p1 = Inr p2"
    and p4: "provider_validate P (p2\<lparr>pv_model := or_else (pt_model t) (pv_model p2), pv_enabled := or_else (pt_enabled t) (pv_enabled p2),
                pv_key := or_else (pt_key t) (if pt_clear_key t then [] else pv_key p2),
                pv_rates := or_else (pt_rates t) (if pt_clear_rates t then None else pv_rates p2)\<rparr>) = Inr p4"
    and p: "p = (if pv_model p4 \<noteq> pv_model p0 \<and> pt_rates t = None then p4\<lparr>pv_rates := None\<rparr> else p4)"
    using assms unfolding patch_provider_def p1_def [symmetric] Let_def rbind_eq_Inr by blast
  note v = provider_validate_Inr [OF p4]
  have id2: "pv_id p2 = pv_id p0" using p2 p1(1) by (auto simp: patched_Inr res_simps)
  have k4: "pv_key p4 = or_else (pt_key t) (if pt_clear_key t then [] else pv_key p2)" "pv_id p4 = pv_id p2"
    by (subst v [THEN conjunct2, THEN conjunct1], simp)+
  show thesis
  proof (rule that [of "pv_base p2" "pv_key p2"])
    show "(pt_base t = None \<and> pv_base p2 = pv_base p0 \<and> pv_key p2 = pv_key p0)
       \<or> (\<exists>v. pt_base t = Some v \<and> normalize_base P v = Inr (pv_base p2)
            \<and> pv_key p2 = (if pv_base p2 \<noteq> pv_base p0 then [] else pv_key p0))"
      using p2 p1 by (cases "pt_base t") (auto simp: patched_def res_simps)
    show "normalize_base P (pv_base p2) = Inr (pv_base p)" using v by (simp add: p)
    show "pv_model p \<noteq> pv_model p0 \<and> pt_rates t = None \<longrightarrow> pv_rates p = None" by (simp add: p)
  qed (simp_all add: p id2 k4)
qed

lemma save_provider_Inr:
  assumes "save_provider P w i t d = Inr (p, d')"
  obtains ps p0 p1 where "d_providers d = Some (Some ps)"
    and "(case i of Some x \<Rightarrow> read_provider x d | None \<Rightarrow> Inr (blank_provider (uuid w 0))) = Inr p0"
    and "i = None \<longrightarrow> length ps < 32" and "patch_provider P t p0 = Inr p1"
    and "\<not> pv_enabled p1 \<or> pv_model p1 = [] \<longrightarrow> (\<exists>s. d_settings d = Some (Some s) \<and> as_primary s \<noteq> pv_id p1)"
    and "p = (if (pv_base p0, pv_kind p0, pv_key p0) \<noteq> (pv_base p1, pv_kind p1, pv_key p1)
               then p1\<lparr>pv_discovery := not_checked\<rparr> else p1)"
    and "d' = d\<lparr>d_providers := Some (Some (put_provider p ps))\<rparr>"
proof -
  obtain ps p0 p1 where ps: "read_providers d = Inr ps" "ensure (\<not> (i = None \<and> length ps \<ge> 32)) ''At most 32 provider profiles are supported'' = Inr ()"
    and p0: "(case i of Some x \<Rightarrow> read_provider x d | None \<Rightarrow> Inr (blank_provider (uuid w 0))) = Inr p0"
    and p1: "patch_provider P t p0 = Inr p1"
    and u: "(if \<not> pv_enabled p1 \<or> pv_model p1 = []
            then rbind (read_settings d) (\<lambda>s. ensure (as_primary s \<noteq> pv_id p1)
              ''The primary provider must stay enabled with a model selected'')
            else Inr ()) = Inr ()"
    and p: "p = (if (pv_base p0, pv_kind p0, pv_key p0) \<noteq> (pv_base p1, pv_kind p1, pv_key p1)
               then p1\<lparr>pv_discovery := not_checked\<rparr> else p1)"
    and d': "d' = d\<lparr>d_providers := Some (Some (put_provider p ps))\<rparr>"
    using assms unfolding save_provider_def Let_def rbind_eq_Inr by auto
  show thesis
  proof (rule that [of ps p0 p1])
    show "\<not> pv_enabled p1 \<or> pv_model p1 = [] \<longrightarrow> (\<exists>s. d_settings d = Some (Some s) \<and> as_primary s \<noteq> pv_id p1)"
      using u by (auto simp: res_simps)
  qed (use ps p0 p1 p d' in \<open>auto simp: res_simps\<close>)
qed

section \<open>The invariant\<close>

text \<open>The primary provider is there, enabled and has a model.\<close>

definition primary_ready :: "string \<Rightarrow> provider list \<Rightarrow> bool" where
  "primary_ready i ps \<longleftrightarrow> (\<exists>p \<in> set ps. pv_id p = i \<and> pv_enabled p \<and> pv_model p \<noteq> [])"

definition admin_ok :: "platform \<Rightarrow> db \<Rightarrow> bool" where
  "admin_ok P d \<longleftrightarrow> (\<exists>s ps. d_settings d = Some (Some s) \<and> d_providers d = Some (Some ps)
     \<and> distinct (map pv_id ps) \<and> length ps \<le> 32 \<and> primary_ready (as_primary s) ps
     \<and> 1 \<le> as_history_days s \<and> as_history_days s \<le> 365 \<and> is_loopback_url P (as_extractor_base s))"

lemma admin_okI:
  "d_settings d = Some (Some s) \<Longrightarrow> d_providers d = Some (Some ps) \<Longrightarrow> distinct (map pv_id ps) \<Longrightarrow> length ps \<le> 32 \<Longrightarrow>
   primary_ready (as_primary s) ps \<Longrightarrow> 1 \<le> as_history_days s \<Longrightarrow> as_history_days s \<le> 365 \<Longrightarrow>
   is_loopback_url P (as_extractor_base s) \<Longrightarrow> admin_ok P d"
  by (auto simp: admin_ok_def)

lemma admin_okE:
  assumes "admin_ok P d"
  obtains s ps where "d_settings d = Some (Some s)" "d_providers d = Some (Some ps)" "distinct (map pv_id ps)"
    "length ps \<le> 32" "primary_ready (as_primary s) ps" "1 \<le> as_history_days s" "as_history_days s \<le> 365"
    "is_loopback_url P (as_extractor_base s)"
  using assms by (auto simp: admin_ok_def)

lemma initialize_admin_ok:
  assumes "initialize_admin P c d = Inr (u, d')" and "d_providers d = None"
    and "cf_llm_model c \<noteq> []" and "is_loopback_url P (cf_extractor_base c)"
  shows "admin_ok P d'"
  using assms by (auto simp: initialize_admin_def read_document_def admin_ok_def default_providers_def primary_ready_def)

lemma patch_settings_ok:
  assumes "patch_admin_settings P t d = Inr (x, d')" and "admin_ok P d"
  shows "admin_ok P d'"
proof -
  from assms(2) obtain s ps where ok: "d_settings d = Some (Some s)" "d_providers d = Some (Some ps)"
    "distinct (map pv_id ps)" "length ps \<le> 32" "primary_ready (as_primary s) ps" "1 \<le> as_history_days s"
    "as_history_days s \<le> 365" "is_loopback_url P (as_extractor_base s)" by (rule admin_okE)
  obtain enabled days base model primary where
    days: "patched (sp_history_days t)
       (\<lambda>v. rbind (ensure (1 \<le> v \<and> v \<le> 365) ''History retention must be between 1 and 365 days'') (\<lambda>_. Inr v))
       (as_history_days s) = Inr days"
    and base: "patched (sp_extractor_base t)
       (\<lambda>v. rbind (normalize_base P v) (\<lambda>base.
            rbind (ensure (is_loopback_url P base) ''Memory extraction is local-only'') (\<lambda>_. Inr base)))
       (as_extractor_base s) = Inr base"
    and primary: "patched (sp_primary t)
       (\<lambda>v. rbind (read_provider v d) (\<lambda>p.
            rbind (ensure (\<not> (\<not> pv_enabled p \<or> pv_model p = []))
              ''The primary provider must be enabled and have a model selected'') (\<lambda>_. Inr v)))
       (as_primary s) = Inr primary"
    and d': "d' = d\<lparr>d_settings := Some (Some \<lparr>as_history_enabled = enabled, as_history_days = days,
        as_extractor_base = base, as_extractor_model = model, as_primary = primary\<rparr>)\<rparr>"
    using assms(1) ok(1) unfolding patch_admin_settings_def Let_def rbind_eq_Inr read_settings_Inr by auto
  have "1 \<le> days \<and> days \<le> 365" using days ok(6,7) by (auto simp: patched_Inr res_simps)
  moreover have "is_loopback_url P base" using base ok(8) by (auto simp: patched_Inr res_simps)
  moreover have "primary_ready primary ps"
    using primary ok(2,5) by (auto simp: patched_Inr res_simps primary_ready_def dest!: read_provider_Inr)
  ultimately show ?thesis using ok(2,3,4) d' by (auto simp: admin_ok_def)
qed

lemma save_provider_ok:
  assumes "save_provider P w i t d = Inr (p, d')" and "admin_ok P d"
  shows "admin_ok P d'"
proof -
  from assms(2) obtain s ps where ok: "d_settings d = Some (Some s)" "d_providers d = Some (Some ps)"
    "distinct (map pv_id ps)" "length ps \<le> 32" "primary_ready (as_primary s) ps" "1 \<le> as_history_days s"
    "as_history_days s \<le> 365" "is_loopback_url P (as_extractor_base s)" by (rule admin_okE)
  from assms(1) obtain ps' p0 p1 where ps': "d_providers d = Some (Some ps')"
    and p0: "(case i of Some x \<Rightarrow> read_provider x d | None \<Rightarrow> Inr (blank_provider (uuid w 0))) = Inr p0"
    and len: "i = None \<longrightarrow> length ps' < 32" and p1: "patch_provider P t p0 = Inr p1"
    and use: "\<not> pv_enabled p1 \<or> pv_model p1 = [] \<longrightarrow> (\<exists>s. d_settings d = Some (Some s) \<and> as_primary s \<noteq> pv_id p1)"
    and p: "p = (if (pv_base p0, pv_kind p0, pv_key p0) \<noteq> (pv_base p1, pv_kind p1, pv_key p1)
               then p1\<lparr>pv_discovery := not_checked\<rparr> else p1)"
    and d': "d' = d\<lparr>d_providers := Some (Some (put_provider p ps'))\<rparr>" by (rule save_provider_Inr)
  have [simp]: "ps' = ps" using ps' ok(2) by simp
  have same: "pv_id p = pv_id p0" "pv_enabled p = pv_enabled p1" "pv_model p = pv_model p1" "pv_id p1 = pv_id p0"
    using patch_provider_Inr [OF p1] by (auto simp: p)
  have old: "pv_id p \<in> pv_id ` set ps" if "i \<noteq> None"
    using that p0 ok(2) same(1) by (auto dest!: read_provider_Inr)
  have "length (put_provider p ps) \<le> 32"
    using len ok(4) old by (cases i) (auto simp: put_provider_length)
  moreover have "primary_ready (as_primary s) (put_provider p ps)"
  proof (cases "pv_id p = as_primary s")
    case True
    with use ok(1) same have "pv_enabled p" "pv_model p \<noteq> []" by auto
    with True show ?thesis by (auto simp: primary_ready_def put_provider_member [OF ok(3)])
  next
    case False
    with ok(5) show ?thesis by (auto simp: primary_ready_def put_provider_member [OF ok(3)])
  qed
  ultimately show ?thesis
    using ok d' put_provider_distinct [OF ok(3), of p] by (auto simp: admin_ok_def)
qed

lemma delete_provider_ok:
  assumes "delete_provider i d = Inr (b, d')" and "admin_ok P d"
  shows "admin_ok P d'"
  using assms(2)
proof (rule admin_okE)
  fix s ps
  assume ok: "d_settings d = Some (Some s)" "d_providers d = Some (Some ps)" "distinct (map pv_id ps)" "length ps \<le> 32"
    "primary_ready (as_primary s) ps" "1 \<le> as_history_days s" "as_history_days s \<le> 365"
    "is_loopback_url P (as_extractor_base s)"
  with assms(1) have "as_primary s \<noteq> i" and d': "d' = d\<lparr>d_providers := Some (Some (filter (\<lambda>p. pv_id p \<noteq> i) ps))\<rparr>"
    by (auto simp: delete_provider_def res_simps Let_def)
  then have "primary_ready (as_primary s) (filter (\<lambda>p. pv_id p \<noteq> i) ps)" using ok(5) by (auto simp: primary_ready_def)
  moreover have "distinct (map pv_id (filter (\<lambda>p. pv_id p \<noteq> i) ps))" using ok(3) by (rule distinct_map_filter)
  moreover have "length (filter (\<lambda>p. pv_id p \<noteq> i) ps) \<le> 32" using ok(4) length_filter_le le_trans by blast
  ultimately show ?thesis using ok d' by (auto simp: admin_ok_def)
qed

lemma save_discovery_ok:
  assumes "save_discovery original x d = Inr (p, d')" and "admin_ok P d"
  shows "admin_ok P d'"
  using assms(2)
proof (rule admin_okE)
  fix s ps
  assume ok: "d_settings d = Some (Some s)" "d_providers d = Some (Some ps)" "distinct (map pv_id ps)" "length ps \<le> 32"
    "primary_ready (as_primary s) ps" "1 \<le> as_history_days s" "as_history_days s \<le> 365"
    "is_loopback_url P (as_extractor_base s)"
  with assms(1) obtain q where q: "q \<in> set ps" "p = q\<lparr>pv_discovery := x\<rparr>"
    and d': "d' = d\<lparr>d_providers := Some (Some (put_provider p ps))\<rparr>"
    by (auto simp: save_discovery_def res_simps Let_def dest: find_SomeD)
  then have id: "pv_id p \<in> pv_id ` set ps" by auto
  have unique: "y = q" if "y \<in> set ps" "pv_id y = pv_id q" for y
    using that q(1) ok(3) by (metis distinct_map inj_onD)
  from ok(5) obtain r where r: "r \<in> set ps" "pv_id r = as_primary s" "pv_enabled r" "pv_model r \<noteq> []"
    by (auto simp: primary_ready_def)
  have "primary_ready (as_primary s) (put_provider p ps)"
  proof (cases "r = q")
    case True
    have "p \<in> set (put_provider p ps)" by (simp add: put_provider_member [OF ok(3)])
    with r True q(2) show ?thesis unfolding primary_ready_def by (intro bexI [of _ p]) simp_all
  next
    case False
    with unique r(1) q(2) have "pv_id r \<noteq> pv_id p" by auto
    with r(1) have "r \<in> set (put_provider p ps)" by (simp add: put_provider_member [OF ok(3)])
    with r show ?thesis unfolding primary_ready_def by blast
  qed
  then show ?thesis
    using ok d' id put_provider_distinct [OF ok(3), of p] by (auto simp: admin_ok_def put_provider_length)
qed

text \<open>The operations of the owner.\<close>

datatype admin_op =
    PatchSettings settings_patch
  | SaveProvider "string option" provider_patch
  | DeleteProvider string
  | SaveDiscovery provider discovery

fun admin_step :: "platform \<Rightarrow> draw \<times> admin_op \<Rightarrow> db \<Rightarrow> db" where
  "admin_step P (w, PatchSettings t) d = snd (commit (patch_admin_settings P t d) d)"
| "admin_step P (w, SaveProvider i t) d = snd (commit (save_provider P w i t d) d)"
| "admin_step P (w, DeleteProvider i) d = snd (commit (delete_provider i d) d)"
| "admin_step P (w, SaveDiscovery p x) d = snd (commit (save_discovery p x d) d)"

interpretation administration: op_invariant "admin_step P" "admin_ok P" for P
proof
  fix d :: db and x :: "draw \<times> admin_op"
  assume ok: "admin_ok P d"
  obtain w a where x: "x = (w, a)" by (cases x)
  show "admin_ok P (admin_step P x d)"
    unfolding x
    by (cases a)
      (auto intro!: commit_cases [where Q = "admin_ok P"] ok
        intro: patch_settings_ok save_provider_ok delete_provider_ok save_discovery_ok)
qed

section \<open>Properties\<close>

lemma find_unique: "distinct (map pv_id ps) \<Longrightarrow> p \<in> set ps \<Longrightarrow> find (\<lambda>x. pv_id x = pv_id p) ps = Some p"
  by (induction ps) (auto simp: image_iff)

lemma find_filter: "f p \<Longrightarrow> find g xs = Some p \<Longrightarrow> (\<And>x. x \<in> set xs \<Longrightarrow> g x \<Longrightarrow> x = p) \<Longrightarrow> find g (filter f xs) = Some p"
  by (induction xs) (auto split: if_splits)

lemma selected_provider_default:
  assumes "d_settings d = Some (Some s)" and "d_providers d = Some (Some ps)" and "distinct (map pv_id ps)"
    and "p \<in> set ps" and "pv_id p = as_primary s" and "pv_enabled p"
  shows "selected_provider None None c d =
     rbind (ensure (policy_allowed c p) ''Provider blocked by the environment upstream allowlist'') (\<lambda>_. Inr p)"
proof -
  have f: "find (\<lambda>p. pv_id p = as_primary s) ps = Some p"
    using find_unique [OF assms(3,4)] assms(5) by simp
  have one: "x = p" if "x \<in> set ps" "pv_id x = as_primary s" for x
    using that assms(3-5) by (metis distinct_map inj_onD)
  have "find (\<lambda>p. pv_id p = as_primary s) (filter (\<lambda>p. pv_enabled p \<and> speaks None p) ps) = Some p"
    by (rule find_filter [OF _ f]) (simp_all add: speaks_def assms(6) one)
  then show ?thesis
    using assms(1,2,6) by (simp add: selected_provider_def read_settings_def read_providers_def read_document_def
        speaks_def Let_def)
qed

text \<open>A configuration, its profiles, and a patch that moves the first profile to another endpoint.\<close>

definition demo_core :: config where
  "demo_core = \<lparr>cf_managed = None, cf_data_dir = ''/d'', cf_port = 3007, cf_local_token = ''owner'', cf_agent_token = ''agent'',
     cf_pairing = None, cf_llm_base = ''https://one'', cf_llm_model = ''m'', cf_llm_key = ''sk-1'',
     cf_anthropic_base = ''https://two'', cf_anthropic_key = [], cf_allowlist = [''https://one''],
     cf_allowlist_enforced = True, cf_origins = [], cf_analytics_opt_in = False, cf_simulation = False,
     cf_key_storage = ''file'', cf_socks_proxy = None, cf_vpn_required = False, cf_extractor_base = ''http://local'',
     cf_extractor_model = ''m'', cf_analytics_url = ''http://local''\<rparr>"

definition demo_admin :: db where
  "demo_admin = (case initialize_admin demo_platform demo_core (empty_db ''i'' demo_spec) of
     Inl e \<Rightarrow> empty_db ''i'' demo_spec | Inr (u, d) \<Rightarrow> d)"

definition demo_move :: provider_patch where
  "demo_move = \<lparr>pt_label = None, pt_kind = None, pt_base = Some ''https://three'', pt_model = None, pt_enabled = None,
     pt_key = None, pt_clear_key = False, pt_rates = None, pt_clear_rates = False\<rparr>"

lemma demo_trims:
  "trim ''https://one'' = ''https://one''" "trim ''https://three'' = ''https://three''"
  "trim ''Primary provider'' = ''Primary provider''" "trim ''m'' = ''m''"
  by (simp_all add: trim_def trim_start_def trim_end_def strip_with.simps white_space_def)

lemma demo_urls:
  "normalize_base demo_platform ''https://one'' = Inr ''https://one''"
  "normalize_base demo_platform ''https://three'' = Inr ''https://three''"
  "\<not> is_loopback_url demo_platform ''https://one''" "is_loopback_url demo_platform ''http://local''"
  by (simp_all add: normalize_base_def demo_trims demo_platform_def url_is_loopback_def is_loopback_url_def
      trim_end_char_def trim_start_char_def)

lemma demo_admin_fields:
  "initialize_admin demo_platform demo_core (empty_db ''i'' demo_spec) = Inr ((), demo_admin)"
  "d_providers demo_admin = Some (Some (default_providers demo_platform demo_core))"
  "d_settings demo_admin = Some (Some \<lparr>as_history_enabled = True, as_history_days = 30,
     as_extractor_base = ''http://local'', as_extractor_model = ''m'', as_primary = ''default''\<rparr>)"
  by (simp_all add: demo_admin_def initialize_admin_def read_document_def empty_db_def demo_core_def)

lemma demo_profile:
  "read_provider ''default'' demo_admin = Inr \<lparr>pv_id = ''default'', pv_label = ''Primary provider'', pv_kind = ''compatible'',
     pv_base = ''https://one'', pv_model = ''m'', pv_enabled = True, pv_key = ''sk-1'', pv_rates = None,
     pv_discovery = not_checked\<rparr>"
  by (simp add: read_provider_def read_providers_def read_document_def demo_admin_fields default_providers_def
      default_kind_def demo_core_def demo_urls openai_base_def)

lemma demo_moved:
  "\<exists>p d. save_provider demo_platform (demo_draw 1 ''w'') (Some ''default'') demo_move demo_admin = Inr (p, d)
     \<and> pv_base p = ''https://three''"
  by (simp add: save_provider_def demo_move_def demo_profile patch_provider_def patched_def demo_urls
      provider_validate_def bounded_text_def demo_trims provider_kinds_def has_control.simps ascii_graphic_def
      read_providers_def read_document_def demo_admin_fields Let_def)

text \<open>The installation always has a usable primary provider: from the profiles that a new
  configuration creates on, whatever the owner changes, profiles keep distinct ids and at most 32 of
  them, the primary one is enabled and has a model, requests that name no provider go to it (unless
  the environment's allowlist forbids it), and memory extraction stays on this machine.\<close>

theorem primary_provider_stays_usable:
  assumes "initialize_admin P c d0 = Inr (u, d1)" and "d_providers d0 = None"
    and "cf_llm_model c \<noteq> []" and "is_loopback_url P (cf_extractor_base c)"
    and "d = run_ops (admin_step P) ops d1"
  shows "\<exists>s ps p. read_settings d = Inr s \<and> read_providers d = Inr ps \<and> distinct (map pv_id ps) \<and> length ps \<le> 32
     \<and> p \<in> set ps \<and> pv_id p = as_primary s \<and> pv_enabled p \<and> pv_model p \<noteq> []
     \<and> selected_provider None None c' d =
         rbind (ensure (policy_allowed c' p) ''Provider blocked by the environment upstream allowlist'') (\<lambda>_. Inr p)
     \<and> is_loopback_url P (as_extractor_base s) \<and> 1 \<le> as_history_days s \<and> as_history_days s \<le> 365"
proof -
  have "admin_ok P d"
    unfolding assms(5) by (rule administration.run_inv) (rule initialize_admin_ok [OF assms(1-4)])
  then obtain s ps where ok: "d_settings d = Some (Some s)" "d_providers d = Some (Some ps)" "distinct (map pv_id ps)"
    "length ps \<le> 32" "primary_ready (as_primary s) ps" "1 \<le> as_history_days s" "as_history_days s \<le> 365"
    "is_loopback_url P (as_extractor_base s)" by (rule admin_okE)
  from ok(5) obtain p where p: "p \<in> set ps" "pv_id p = as_primary s" "pv_enabled p" "pv_model p \<noteq> []"
    by (auto simp: primary_ready_def)
  from selected_provider_default [OF ok(1-3) p(1-3)] ok p show ?thesis
    unfolding read_settings_Inr read_providers_Inr by blast
qed

lemma primary_provider_stays_usable_witness:
  "\<exists>s ps p. (let d = run_ops (admin_step demo_platform)
         [(demo_draw 1 ''w'', SaveProvider (Some ''default'') demo_move), (demo_draw 2 ''v'', DeleteProvider ''default'')] demo_admin
     in read_settings d = Inr s \<and> read_providers d = Inr ps \<and> p \<in> set ps \<and> pv_id p = as_primary s \<and> pv_enabled p
        \<and> selected_provider None None demo_core d =
            rbind (ensure (policy_allowed demo_core p) ''Provider blocked by the environment upstream allowlist'') (\<lambda>_. Inr p))"
proof -
  define d where "d = run_ops (admin_step demo_platform)
     [(demo_draw 1 ''w'', SaveProvider (Some ''default'') demo_move), (demo_draw 2 ''v'', DeleteProvider ''default'')] demo_admin"
  have h: "d_providers (empty_db ''i'' demo_spec) = None" "cf_llm_model demo_core \<noteq> []"
    "is_loopback_url demo_platform (cf_extractor_base demo_core)"
    by (simp_all add: empty_db_def demo_core_def demo_urls)
  from primary_provider_stays_usable [OF demo_admin_fields(1) h d_def] show ?thesis
    unfolding Let_def d_def [symmetric] by blast
qed

text \<open>C29: A credential stays with its endpoint: when a profile is saved without a new key, moving it
  to another base URL erases the key it had; changing its model without new prices erases its prices;
  and when its base URL, kind or key changes, what was discovered about it is forgotten.
  (The stored base URL is one that normalizing leaves alone.)\<close>

theorem credentials_stay_with_their_endpoint:
  assumes "save_provider P w (Some i) t d = Inr (p, d')" and "read_provider i d = Inr q"
    and "normalize_base P (pv_base q) = Inr (pv_base q)"
  shows "read_provider i d' = Inr p
     \<and> (pt_key t = None \<and> pv_base p \<noteq> pv_base q \<longrightarrow> pv_key p = [])
     \<and> (pt_key t = None \<longrightarrow> pv_key p = [] \<or> pv_key p = pv_key q)
     \<and> (pt_rates t = None \<and> pv_model p \<noteq> pv_model q \<longrightarrow> pv_rates p = None)
     \<and> ((pv_base p, pv_kind p, pv_key p) \<noteq> (pv_base q, pv_kind q, pv_key q) \<longrightarrow> pv_discovery p = not_checked)"
proof -
  from assms(1) obtain ps p0 p1 where "d_providers d = Some (Some ps)"
    and p0: "(case Some i of Some x \<Rightarrow> read_provider x d | None \<Rightarrow> Inr (blank_provider (uuid w 0))) = Inr p0"
    and "patch_provider P t p0 = Inr p1"
    and p: "p = (if (pv_base p0, pv_kind p0, pv_key p0) \<noteq> (pv_base p1, pv_kind p1, pv_key p1)
               then p1\<lparr>pv_discovery := not_checked\<rparr> else p1)"
    and d': "d' = d\<lparr>d_providers := Some (Some (put_provider p ps))\<rparr>" by (rule save_provider_Inr)
  then obtain base key where b: "(pt_base t = None \<and> base = pv_base p0 \<and> key = pv_key p0)
       \<or> (\<exists>v. pt_base t = Some v \<and> normalize_base P v = Inr base \<and> key = (if base \<noteq> pv_base p0 then [] else pv_key p0))"
    and n: "normalize_base P base = Inr (pv_base p1)" and id: "pv_id p1 = pv_id p0"
    and k: "pv_key p1 = or_else (pt_key t) (if pt_clear_key t then [] else key)"
    and r: "pv_model p1 \<noteq> pv_model p0 \<and> pt_rates t = None \<longrightarrow> pv_rates p1 = None" by (elim patch_provider_Inr)
  have q: "p0 = q" "pv_id q = i" using p0 assms(2) by (auto dest: read_provider_Inr)
  have same: "pv_base p = pv_base p1" "pv_key p = pv_key p1" "pv_model p = pv_model p1" "pv_rates p = pv_rates p1"
    "pv_kind p = pv_kind p1" "pv_id p = pv_id p1" by (simp_all add: p)
  have "base = pv_base q \<longrightarrow> pv_base p1 = pv_base q" using n assms(3) by auto
  then have "pt_key t = None \<and> pv_base p \<noteq> pv_base q \<longrightarrow> pv_key p = []" using b k q by (auto simp: same)
  moreover have "pt_key t = None \<longrightarrow> pv_key p = [] \<or> pv_key p = pv_key q" using b k q by (auto simp: same)
  moreover have "read_provider i d' = Inr p"
    using find_put_provider [of p i ps] id q by (simp add: d' same read_provider_def read_providers_def read_document_def)
  ultimately show ?thesis using r q same by (auto simp: p)
qed

lemma credentials_stay_with_their_endpoint_witness:
  "\<exists>p d. save_provider demo_platform (demo_draw 1 ''w'') (Some ''default'') demo_move demo_admin = Inr (p, d)
     \<and> read_provider ''default'' d = Inr p \<and> pv_base p = ''https://three'' \<and> pv_key p = []"
proof -
  obtain p d where s: "save_provider demo_platform (demo_draw 1 ''w'') (Some ''default'') demo_move demo_admin = Inr (p, d)"
    and b: "pv_base p = ''https://three''" using demo_moved by blast
  from credentials_stay_with_their_endpoint [OF s demo_profile] s b show ?thesis
    by (simp add: demo_urls demo_move_def)
qed

text \<open>The provider a request gets is enabled, speaks the protocol of the request and is allowed by
  the environment; it is the one asked for, or the primary one whenever that one qualifies.\<close>

theorem selected_provider_is_permitted:
  assumes "selected_provider i anthropic c d = Inr p" and "read_settings d = Inr s" and "read_providers d = Inr ps"
  shows "p \<in> set ps \<and> pv_enabled p \<and> speaks anthropic p \<and> policy_allowed c p
     \<and> (case i of Some x \<Rightarrow> pv_id p = x
        | None \<Rightarrow> (\<exists>q \<in> set ps. pv_id q = as_primary s \<and> pv_enabled q \<and> speaks anthropic q) \<longrightarrow> pv_id p = as_primary s)"
proof (cases i)
  case (Some x)
  with assms show ?thesis by (auto simp: selected_provider_def rbind_eq_Inr ensure_eq_Inr ok_or_eq_Inr dest: find_SomeD)
next
  case None
  let ?fit = "\<lambda>p. pv_enabled p \<and> speaks anthropic p"
  from None assms have ok: "pv_enabled p" "speaks anthropic p" "policy_allowed c p"
    and f: "(case find (\<lambda>p. pv_id p = as_primary s) (filter ?fit ps) of Some p \<Rightarrow> Some p | None \<Rightarrow> find ?fit ps) = Some p"
    by (auto simp: selected_provider_def rbind_eq_Inr ensure_eq_Inr ok_or_eq_Inr Let_def)
  have "p \<in> set ps" using f by (auto dest: find_SomeD split: option.splits)
  moreover have "pv_id p = as_primary s" if "\<exists>q \<in> set ps. pv_id q = as_primary s \<and> ?fit q"
  proof -
    from that have "find (\<lambda>p. pv_id p = as_primary s) (filter ?fit ps) \<noteq> None" by (auto simp: find_None_iff)
    with f show ?thesis by (auto dest: find_SomeD)
  qed
  ultimately show ?thesis using None ok by auto
qed

lemma selected_provider_is_permitted_witness:
  "\<exists>p. selected_provider None None demo_core demo_admin = Inr p \<and> pv_id p = ''default'' \<and> pv_enabled p
     \<and> policy_allowed demo_core p"
proof -
  obtain p where p: "selected_provider None None demo_core demo_admin = Inr p"
    by (simp add: selected_provider_def read_settings_def read_providers_def read_document_def demo_admin_fields
        default_providers_def default_kind_def demo_core_def demo_urls openai_base_def speaks_def policy_allowed_def
        List.member_iff Let_def)
  have r: "read_settings demo_admin = Inr \<lparr>as_history_enabled = True, as_history_days = 30,
     as_extractor_base = ''http://local'', as_extractor_model = ''m'', as_primary = ''default''\<rparr>"
    "read_providers demo_admin = Inr (default_providers demo_platform demo_core)"
    by (simp_all add: read_settings_Inr read_providers_Inr demo_admin_fields)
  from selected_provider_is_permitted [OF p r] p show ?thesis
    by (simp add: default_providers_def speaks_def)
qed

end
