(* ===== verification/GatewayProperties.thy ===== *)
theory GatewayProperties
  imports Gateway
begin

text \<open>
  The properties of the gateway of \<open>crates/omni-core/src/http.rs\<close>: nothing is handed to a provider
  unless the principal, the memories and both layers of the policy allow it at that time, whatever the
  other handlers do meanwhile; a request carries the authorized context and nothing else is changed.
\<close>

section \<open>Handlers and the log of requests\<close>

abbreviation sent :: "'a act \<Rightarrow> outbound list" where "sent m \<equiv> snd (snd m)"

lemma and_then_Inr [res_simps]: "and_then m k = (Inr y, s') \<longleftrightarrow> (\<exists>x s. m = (Inr x, s) \<and> k x s = (Inr y, s'))"
  by (auto simp: and_then_def split: prod.splits sum.splits)

lemma and_then_simps [simp]:
  "and_then (Inl e, s) k = (Inl e, s)" "and_then (Inr x, s) k = k x s"
  by (simp_all add: and_then_def)

lemma sent_and_then:
  assumes "Q (sent m)" and "\<And>x s. m = (Inr x, s) \<Longrightarrow> Q (snd s) \<Longrightarrow> Q (sent (k x s))"
  shows "Q (sent (and_then m k))"
proof -
  obtain r s where m: "m = (r, s)" by (rule prod.exhaust)
  with assms show ?thesis by (cases r) auto
qed

lemma sent_quiet_then:
  assumes "sent m = l" and "Q l" and "\<And>x s. m = (Inr x, s) \<Longrightarrow> snd s = l \<Longrightarrow> Q (sent (k x s))"
  shows "Q (sent (and_then m k))"
proof -
  obtain r s where m: "m = (r, s)" by (rule prod.exhaust)
  with assms show ?thesis by (cases r) auto
qed

lemma check_Inr [res_simps]: "check f r s = (Inr x, s') \<longleftrightarrow> r = Inr x \<and> s' = s"
  by (auto simp: check_def split: sum.splits)

lemma require_Inr [res_simps]: "require b e s = (Inr u, s') \<longleftrightarrow> b \<and> s' = s"
  by (auto simp: require_def)

lemma on_vault_Inr [res_simps]: "on_vault f m s = (Inr x, s') \<longleftrightarrow> (\<exists>d. m (fst s) = (Inr x, d) \<and> s' = (d, snd s))"
  by (auto simp: on_vault_def split: prod.splits sum.splits)

lemma reading_Inr [res_simps]: "reading r d = (Inr x, d') \<longleftrightarrow> r d = Inr x \<and> d' = d"
  by (auto simp: reading_def)

lemma committing_Inr [res_simps]: "committing r d = (Inr x, d') \<longleftrightarrow> r d = Inr (x, d')"
  by (auto simp: committing_def commit_def split: sum.splits)

lemma in_vault_Inr [res_simps]:
  "in_vault E n f m s = (Inr x, s') \<longleftrightarrow> (\<exists>s1. enter E n s = (Inr (), s1) \<and> on_vault f m s1 = (Inr x, s'))"
  by (auto simp: in_vault_def res_simps)

lemma sent_quiet [simp]:
  "sent (check f r s) = snd s" "sent (require b e s) = snd s" "sent (on_vault f m s) = snd s"
  "sent (enter E n s) = snd s"
  by (auto simp: check_def require_def on_vault_def enter_def Let_def split: prod.splits sum.splits)

lemma sent_in_vault [simp]: "sent (in_vault E n f m s) = snd s"
  unfolding in_vault_def by (rule sent_and_then [where Q = "\<lambda>l. l = snd s"]) simp_all

lemma sent_done: "m = (r, s') \<Longrightarrow> sent m = l \<Longrightarrow> snd s' = l"
  by simp

lemma enter_sent: "enter E n s = (r, s') \<Longrightarrow> snd s' = snd s"
  using sent_quiet(4) [of E n s] by simp

lemma tracing_sent [simp]: "snd (snd (tracing E n f t s)) = snd s" "snd (dropped E n t s) = snd s"
  by (simp_all add: tracing_def dropped_def split: prod.split)

lemma sent_authorized_context [simp]: "sent (authorized_context E n who base grant s) = snd s"
  by (simp add: authorized_context_def)

lemma sent_enforce_policy [simp]: "sent (enforce_policy E n c x s) = snd s"
  unfolding enforce_policy_def
  by (rule sent_and_then [where Q = "\<lambda>l. l = snd s"]) (simp_all add: require_policy_decision_def)

lemma sent_disclosure_receipt [simp]: "sent (disclosure_receipt E n base grant ms s) = snd s"
proof (cases grant)
  case (Some g)
  show ?thesis unfolding disclosure_receipt_def Some option.case
    by (rule sent_and_then [where Q = "\<lambda>l. l = snd s"]) simp_all
qed (simp add: disclosure_receipt_def)

lemma sent_baseline_bytes [simp]: "sent (baseline_bytes E n ms s) = snd s"
  unfolding baseline_bytes_def
  by (cases "ms = []") (simp_all add: sent_and_then [where Q = "\<lambda>l. l = snd s"])

lemma sent_quiet_steps [simp]:
  "sent (last_check E n who base grant s) = snd s" "sent (begin_exchange E n entry s) = snd s"
  by (simp_all add: last_check_def begin_exchange_def)

lemma sent_prepare_request [simp]: "sent (prepare_request E who p grant m body s) = snd s"
  unfolding prepare_request_def
  by (intro sent_and_then [where Q = "\<lambda>l. l = snd s"]) (auto intro!: sent_and_then [where Q = "\<lambda>l. l = snd s"])

lemma sent_clear_to_send [simp]: "sent (clear_to_send E who p grant m body ms n s) = snd s"
proof -
  have rec: "sent (case in_vault E 16 f r s of (Inl e, s) \<Rightarrow> (Inl e, dropped E 17 t s) | (Inr _, s) \<Rightarrow> (Inr y, s)) = l"
    if "snd s = l" for f :: "error \<Rightarrow> api_error" and r :: "db \<Rightarrow> unit stmts" and s t y l
  proof -
    obtain r1 s1 where "in_vault E 16 f r s = (r1, s1)" by (rule prod.exhaust)
    with that sent_in_vault [of E 16 f r s] show ?thesis by (cases r1) simp_all
  qed
  show ?thesis
    unfolding clear_to_send_def by (intro sent_and_then [where Q = "\<lambda>l. l = snd s"] rec) simp_all
qed

lemma sent_deliver:
  "sent (deliver E p m c body receipt t s) = snd s @ [request_for (ho_platform E) p body]"
proof -
  let ?q = "request_for (ho_platform E) p body"
  let ?s = "(fst s, snd s @ [?q])"
  obtain t1 s1 where t1: "(case ho_answer E ?q of
      Answered r \<Rightarrow> tracing E 18 (trace_headers (ho_platform E) (ho_at E 18) (rs_status r)) t ?s | _ \<Rightarrow> (t, ?s)) = (t1, s1)"
    by (rule prod.exhaust)
  have s1: "snd s1 = snd s @ [?q]"
  proof (cases "ho_answer E ?q")
    case (Answered r)
    with t1 have "s1 = snd (tracing E 18 (trace_headers (ho_platform E) (ho_at E 18) (rs_status r)) t ?s)" by simp
    then show ?thesis by simp
  qed (use t1 in auto)
  obtain r2 s2 where r2: "in_vault E 19 bad (record_metrics E 19 m c receipt (status_of (ho_answer E ?q))) s1 = (r2, s2)"
    by (rule prod.exhaust)
  then have s2: "snd s2 = snd s @ [?q]"
    using sent_in_vault [of E 19 bad "record_metrics E 19 m c receipt (status_of (ho_answer E ?q))" s1] s1 by simp
  show ?thesis
  proof (cases "ho_answer E ?q = Abandoned")
    case False
    then have "deliver E p m c body receipt t s = (case (r2, s2) of
          (Inl e, s) \<Rightarrow> (Inl e, dropped E 20 t1 s)
        | (Inr i, s) \<Rightarrow>
            (case ho_answer E ?q of
               Answered r \<Rightarrow> (Inr (r, receipt, i, t1), s)
             | Unanswered timeout \<Rightarrow> (Inl (no_answer timeout), snd (tracing E 20 (trace_complete (ho_platform E) (ho_at E 20)
                 ''failed'' (Some (if timeout then ''provider_timeout'' else ''provider_unavailable''))) t1 s))
             | Abandoned \<Rightarrow> (Inl Cancelled, s)))"
      by (simp only: deliver_def Let_def t1 r2 split_conv if_False)
    with s2 False show ?thesis by (cases r2; cases "ho_answer E ?q") simp_all
  qed (simp add: deliver_def Let_def)
qed

lemma sent_upstream:
  assumes "upstream E body grant p m who s = (r, s')"
  shows "snd s' = snd s \<or> (\<exists>body' ms n s1 receipt t s2. prepare_request E who p grant m body s = (Inr (body', ms, n), s1)
     \<and> clear_to_send E who p grant m body' ms n s1 = (Inr (receipt, t), s2)
     \<and> snd s' = snd s @ [request_for (ho_platform E) p body'])"
proof -
  obtain r1 s1 where 1: "prepare_request E who p grant m body s = (r1, s1)" by (rule prod.exhaust)
  then have q1: "snd s1 = snd s" using sent_prepare_request [of E who p grant m body s] by simp
  show ?thesis
  proof (cases r1)
    case (Inl e)
    with assms 1 q1 show ?thesis by (simp add: upstream_def)
  next
    case (Inr x)
    obtain body' ms n where x: "x = (body', ms, n)" by (cases x)
    obtain r2 s2 where 2: "clear_to_send E who p grant m body' ms n s1 = (r2, s2)" by (rule prod.exhaust)
    then have q2: "snd s2 = snd s" using sent_clear_to_send [of E who p grant m body' ms n s1] q1 by simp
    show ?thesis
    proof (cases r2)
      case (Inl e)
      with assms 1 2 q2 Inr x show ?thesis by (simp add: upstream_def)
    next
      case r2: (Inr y)
      obtain receipt t where y: "y = (receipt, t)" by (cases y)
      have "deliver E p m (request_text body) body' receipt t s2 = (r, s')"
        using assms 1 2 Inr x r2 y by (simp add: upstream_def)
      with sent_deliver [of E p m "request_text body" body' receipt t s2] q2
      have "snd s' = snd s @ [request_for (ho_platform E) p body']" by simp
      with 1 2 Inr x r2 y show ?thesis by blast
    qed
  qed
qed

section \<open>What a prepared request has passed\<close>

lemma enforce_policy_Inr:
  assumes "enforce_policy E n c x s = (Inr u, s')"
  obtains s1 v d where "enter E n s = (Inr (), s1)"
    and "policy_evaluate (ho_platform E) (draw_at E n) (cf_managed (ho_config E)) c x True (fst s1) = (Inr v, d)"
    and "de_allowed v" and "s' = (d, snd s1)"
  using assms by (auto simp: enforce_policy_def require_policy_decision_def res_simps)

lemma authorized_context_Inr:
  assumes "authorized_context E n who base grant s = (Inr ms, s')"
  shows "enter E n s = (Inr (), s') \<and> authorize_principal (ho_platform E) (clock_at E n) who base grant (fst s') = Inr ()
     \<and> (case grant of None \<Rightarrow> ms = [] | Some g \<Rightarrow> context_for (ho_platform E) (clock_at E n) g base None (fst s') = Inr ms)"
  using assms by (cases grant) (auto simp: authorized_context_def res_simps)

lemma prepare_request_Inr:
  assumes "prepare_request E who p grant m body s = (Inr (body', ms, n), s1)"
  obtains s0 body1 files where "policy_allowed (ho_config E) p"
    and "authorized_context E 10 who (pv_base p) grant s = (Inr ms, s0)"
    and "prepare_files (ho_platform E) body = Inr (body1, files)"
    and "inject_context (ho_platform E) ms (is_anthropic p) body1 = Inr body'"
    and "enforce_policy E 11 (outbound_inspection (ho_platform E) body' files ms) (operation_of m) s0 = (Inr (), s1)"
    and "n = length (json_text (ho_platform E) body1)"
  using assms by (auto simp: prepare_request_def res_simps split: prod.splits)

lemma outbound_inspection_honest: "honest (outbound_inspection P body files ms)"
  using inspect_honest [of P body files]
  by (auto simp: outbound_inspection_def include_source_def account_wire_size_def honest_def
      intro!: visit_honest(1) [unfolded honest_def])

lemma disclosure_receipt_Inr:
  assumes "disclosure_receipt E n base grant ms s = (Inr receipt, s')"
  shows "case grant of None \<Rightarrow> receipt = None \<and> s' = s
     | Some g \<Rightarrow> \<exists>s1 r d. enter E n s = (Inr (), s1) \<and> receipt = map_option re_id r \<and> s' = (d, snd s1)
         \<and> current_context_receipt (ho_platform E) (draw_at E n) base g ms (fst s1) = Inr (r, d)"
  using assms by (cases grant) (auto simp: disclosure_receipt_def res_simps)

lemma clear_to_send_Inr:
  assumes "clear_to_send E who p grant m body ms n s1 = (Inr y, s2)"
  obtains sa receipt sb where "enter E 12 s1 = (Inr (), sa)"
    and "authorize_principal (ho_platform E) (clock_at E 12) who (pv_base p) grant (fst sa) = Inr ()"
    and "disclosure_receipt E 13 (pv_base p) grant ms sa = (Inr receipt, sb)"
  using assms by (auto simp: clear_to_send_def last_check_def res_simps)

lemma permitted_inspection:
  assumes "in_violation (outbound_inspection P body files ms) = None"
  shows "in_joined (outbound_inspection P body files ms)
      = concat (texts body @ attachment_texts files @ texts (memories_json ms))
    \<and> in_bytes (outbound_inspection P body files ms) = length (json_text P body)
    \<and> \<not> opaque body \<and> (\<forall>a \<in> set files. attachment_violation P a = None)"
proof -
  let ?s = "account_wire_size P body (inspect P body files)"
  from visit_seen(1) [of 0 "memories_json ms" ?s] assms
  have v: "seen ?s (visit 0 (memories_json ms) ?s) (texts (memories_json ms))"
    by (simp add: outbound_inspection_def include_source_def)
  then have "in_violation (inspect P body files) = None"
    using assms by (simp add: seen_def outbound_inspection_def include_source_def account_wire_size_def)
  from inspect_seen [OF this] v show ?thesis
    by (simp add: seen_def outbound_inspection_def include_source_def account_wire_size_def)
qed

section \<open>Entering the vault\<close>

lemma enter_vault:
  assumes "enter E n s = (Inr (), s')"
  shows "oc_lock (ho_at E n) \<and> snd s' = snd s
    \<and> initialize_admin (ho_platform E) (ho_config E) (ho_others E n (fst s)) = Inr ((), fst s')"
  using assms by (auto simp: enter_def Let_def on_vault_Inr commit_def split: if_splits sum.splits prod.splits)

lemma initialize_admin_frame:
  assumes "initialize_admin P c d = Inr (u, d')"
  shows "d_clients d' = d_clients d" "d_instance d' = d_instance d" "d_bindings d' = d_bindings d"
    "d_grants d' = d_grants d" "d_memories d' = d_memories d" "d_policy d' = d_policy d" "d_turns d' = d_turns d"
  using assms by (auto simp: initialize_admin_def res_simps split: if_splits)

lemma enter_frame:
  assumes "enter E n s = (Inr (), s')"
  shows "d_clients (fst s') = d_clients (ho_others E n (fst s))" "d_instance (fst s') = d_instance (ho_others E n (fst s))"
    "d_policy (fst s') = d_policy (ho_others E n (fst s))"
  using enter_vault [OF assms] by (auto dest: initialize_admin_frame)

section \<open>The handlers\<close>

lemma sent_auth [simp]: "sent (auth E n hs admin s) = snd s"
proof -
  have "sent (case x of None \<Rightarrow> (Inl e, s1) | Some p \<Rightarrow> (Inr p, s1)) = snd s1" for x :: "principal option" and e s1
    by (cases x) simp_all
  then show ?thesis
    unfolding auth_def by (intro sent_and_then [where Q = "\<lambda>l. l = snd s"]) (auto intro!: sent_and_then [where Q = "\<lambda>l. l = snd s"])
qed

lemma sent_continuity_of [simp]: "sent (continuity_of E c p model s) = snd s"
  by (cases "ch_conversation c") (auto simp: continuity_of_def intro!: sent_and_then [where Q = "\<lambda>l. l = snd s"])

lemma sent_read_reply [simp]: "sent (read_reply E n limit r t s) = snd s"
  by (auto simp: read_reply_def split: prod.split sum.split)

lemma sent_failing [simp]: "sent (failing E n code e t s) = snd s"
  by (simp add: failing_def)

lemma sent_stored_reply [simp]: "sent (stored_reply E q reply receipt i s) = snd s"
  by (cases q) (simp_all add: stored_reply_def)

lemma sent_chat_answer [simp]: "sent (chat_answer E c p model q y s) = snd s"
proof -
  obtain r receipt i t where y: "y = (r, receipt, i, t)" by (cases y)
  have fin0: "sent (and_then (stored_reply E q reply receipt x s1) (\<lambda>stored s. (Inr (g stored), s))) = snd s1"
    for reply x s1 and g :: "bool \<Rightarrow> chat_result"
    by (rule sent_and_then [where Q = "\<lambda>l. l = snd s1"]) simp_all
  have fin: "sent (case in_vault E 32 bad f s1 of
        (Inl e, s) \<Rightarrow> (Inl e, dropped E 33 t1 s)
      | (Inr _, s) \<Rightarrow> (case tracing E 32 k t1 s of (t, s) \<Rightarrow>
           and_then (stored_reply E q reply receipt (tr_id t) s) (\<lambda>stored s. (Inr (g t stored), s)))) = snd s1"
    for f :: "db \<Rightarrow> unit stmts" and s1 t1 k reply and g :: "trace \<Rightarrow> bool \<Rightarrow> chat_result"
  proof -
    obtain r2 s2 where r2: "in_vault E 32 bad f s1 = (r2, s2)" by (rule prod.exhaust)
    then have s2: "snd s2 = snd s1" using sent_in_vault [of E 32 bad f s1] by simp
    obtain t3 s3 where t3: "tracing E 32 k t1 s2 = (t3, s3)" by (rule prod.exhaust)
    then have "snd s3 = snd s2" using tracing_sent(1) [of E 32 k t1 s2] by simp
    with r2 s2 t3 fin0 show ?thesis by (cases r2) simp_all
  qed
  show ?thesis
    unfolding chat_answer_def y split_conv Let_def
    by (rule sent_and_then [where Q = "\<lambda>l. l = snd s"])
      (auto simp: fin split: option.split)
qed

lemma sent_proxy_answer [simp]: "sent (proxy_answer E streaming y s) = snd s"
proof -
  obtain r receipt i t where y: "y = (r, receipt, i, t)" by (cases y)
  show ?thesis
  proof (cases streaming)
    case True
    then show ?thesis by (simp add: proxy_answer_def y split: prod.split)
  next
    case False
    have metrics: "sent (case in_vault E 32 bad f s1 of
          (Inl e, s) \<Rightarrow> (Inl e, dropped E 33 t1 s) | (Inr _, s) \<Rightarrow> (Inr t1, s)) = snd s1"
      for f :: "db \<Rightarrow> unit stmts" and s1 t1
    proof -
      obtain r2 s2 where "in_vault E 32 bad f s1 = (r2, s2)" by (rule prod.exhaust)
      then show ?thesis using sent_in_vault [of E 32 bad f s1] by (cases r2) simp_all
    qed
    have fin: "sent (case m of (Inl e, s) \<Rightarrow> (Inl e, s) | (Inr t, s) \<Rightarrow> (Inr (g t), snd (tracing E 33 k t s))) = sent m"
      for m :: "trace act" and k and g :: "trace \<Rightarrow> proxied"
    proof -
      obtain r2 s2 where "m = (r2, s2)" by (rule prod.exhaust)
      then show ?thesis by (cases r2) simp_all
    qed
    from False have e: "streaming = False" by simp
    show ?thesis
      unfolding proxy_answer_def y split_conv e if_False
      by (intro sent_and_then [where Q = "\<lambda>l. l = snd s"]) (auto simp: fin metrics split: option.split)
  qed
qed

lemma upstream_at_most_one:
  "sent (upstream E body grant p m who s) = snd s \<or> (\<exists>x. sent (upstream E body grant p m who s) = snd s @ [x])"
proof -
  obtain r s' where u: "upstream E body grant p m who s = (r, s')" by (rule prod.exhaust)
  from sent_upstream [OF this] show ?thesis unfolding u by auto
qed

lemma chat_sends:
  "sent (chat E hs c s) = snd s \<or> (\<exists>x. sent (chat E hs c s) = snd s @ [x])"
proof -
  let ?Q = "\<lambda>l. l = snd s \<or> (\<exists>x. l = snd s @ [x])"
  have up: "?Q (sent (and_then (upstream E b g p m who s1) (chat_answer E c p model q)))"
    if "snd s1 = snd s" for b g p m who s1 model q
    using upstream_at_most_one [of E b g p m who s1] that
    by (intro sent_and_then [where Q = ?Q]) simp_all
  have rest: "?Q (sent (case Option.bind q pp_replay of
       Some r \<Rightarrow> (Inr (Replayed r), s1)
     | None \<Rightarrow> and_then (upstream E b g p m who s1) (chat_answer E c p model q)))"
    if "snd s1 = snd s" for b g p m who s1 model q
    using up [OF that] that by (cases "Option.bind q pp_replay") simp_all
  show ?thesis
    unfolding chat_def Let_def by (intro sent_quiet_then [where Q = ?Q and l = "snd s"] rest) simp_all
qed

lemma proxy_sends:
  "sent (proxy E hs body anthropic s) = snd s \<or> (\<exists>x. sent (proxy E hs body anthropic s) = snd s @ [x])"
proof -
  let ?Q = "\<lambda>l. l = snd s \<or> (\<exists>x. l = snd s @ [x])"
  have up: "?Q (sent (and_then (upstream E body g p m who s1) (proxy_answer E b)))"
    if "snd s1 = snd s" for b g p m who s1
    using upstream_at_most_one [of E body g p m who s1] that
    by (intro sent_and_then [where Q = ?Q]) simp_all
  show ?thesis
    unfolding proxy_def by (intro sent_quiet_then [where Q = ?Q and l = "snd s"] up) simp_all
qed

section \<open>An example\<close>

text \<open>The vault of the earlier examples with one provider, history off, and a host on which nothing else runs.\<close>

definition gate_provider :: provider where
  "gate_provider = \<lparr>pv_id = ''p'', pv_label = ''P'', pv_kind = ''openai'', pv_base = ''https://a'', pv_model = ''m'',
     pv_enabled = True, pv_key = ''k'', pv_rates = None, pv_discovery = not_checked\<rparr>"

definition gate_db :: db where
  "gate_db = demo_vault\<lparr>d_settings := Some (Some \<lparr>as_history_enabled = False, as_history_days = 30,
       as_extractor_base = ''http://local'', as_extractor_model = ''m'', as_primary = ''p''\<rparr>),
     d_providers := Some (Some [gate_provider])\<rparr>"

definition gate_host :: host where
  "gate_host = \<lparr>ho_platform = demo_platform, ho_config = demo_core\<lparr>cf_allowlist := [''https://a'']\<rparr>,
     ho_calendar = demo_calendar, ho_at = (\<lambda>_. \<lparr>oc_draw = demo_draw 3 ''u'', oc_lock = True, oc_elapsed = 7\<rparr>),
     ho_others = (\<lambda>_ d. d),
     ho_answer = (\<lambda>_. Answered \<lparr>rs_status = 200, rs_announced = None, rs_headers = [], rs_body = []\<rparr>),
     ho_latency_ms = 7, ho_preflight_us = 0, ho_policy_us = 0,
     ho_gone = \<lparr>oc_draw = demo_draw 4 ''v'', oc_lock = True, oc_elapsed = 9\<rparr>\<rparr>"

definition gate_message :: json where
  "gate_message = chat_turn ''user'' (JStr ''work notes'')"

definition gate_body :: json where
  "gate_body = JObj [(''messages'', JArr [gate_message]), (''model'', JStr ''m'')]"

definition gate_sent :: json where
  "gate_sent = JObj [(''messages'', JArr [chat_turn ''system'' (JStr (context_text demo_platform [demo_memory])), gate_message]),
     (''model'', JStr ''m'')]"

lemma gate_fields [simp]:
  "ho_platform gate_host = demo_platform" "ho_others gate_host n d = d"
  "ho_config gate_host = demo_core\<lparr>cf_allowlist := [''https://a'']\<rparr>"
  "draw_at gate_host n = demo_draw 3 ''u''" "clock_at gate_host n = 3" "oc_lock (ho_at gate_host n)"
  "ho_preflight_us gate_host = 0" "ho_policy_us gate_host = 0"
  by (simp_all add: gate_host_def draw_at_def clock_at_def demo_draw_def)

lemma gate_provider_fields [simp]:
  "pv_base gate_provider = ''https://a''" "\<not> is_anthropic gate_provider" "pv_kind gate_provider = ''openai''"
  by (simp_all add: gate_provider_def is_anthropic_def)

lemma gate_enter: "d_providers d = Some (Some ps) \<Longrightarrow> enter gate_host n (d, l) = (Inr (), d, l)"
  by (simp add: enter_def on_vault_def initialize_admin_def read_document_def)

lemma gate_context: "context_for demo_platform 3 ''g1'' ''https://a'' None gate_db = Inr [demo_memory]"
  by code_simp

lemma gate_model: "model_named gate_body"
  by (simp add: model_named_def gate_body_def get_str_def trim_def trim_start_def trim_end_def strip_with.simps white_space_def)

lemma gate_files: "prepare_files demo_platform gate_body = Inr (gate_body, [])"
  by (simp add: prepare_files_def prepare_message_def gate_body_def gate_message_def chat_turn_def get_array_def
      attach_to_last_def Let_def)

lemma gate_inject: "inject_context demo_platform [demo_memory] False gate_body = Inr gate_sent"
  by (simp add: inject_context_def gate_body_def gate_sent_def get_array_def chat_turn_def)

lemma gate_permitted: "permits demo_platform demo_spec (outbound_inspection demo_platform gate_sent [] [demo_memory])"
proof -
  have "in_violation (outbound_inspection demo_platform gate_sent [] [demo_memory]) = None"
    by (simp add: outbound_inspection_def include_source_def account_wire_size_def inspect_def visit_cases gate_sent_def
        gate_message_def chat_turn_def memories_json_def memory_json_def opaque_field_def opaque_keys_def opaque_types_def
        List.member_iff push_def)
  moreover from permitted_inspection [OF this]
  have "in_bytes (outbound_inspection demo_platform gate_sent [] [demo_memory]) = 2"
    by (simp add: demo_platform_def)
  moreover have "in_files (outbound_inspection demo_platform gate_sent [] [demo_memory]) = []"
    by (simp add: outbound_inspection_def include_source_def account_wire_size_def inspect_def visit_cases gate_sent_def
        gate_message_def chat_turn_def memories_json_def memory_json_def opaque_field_def opaque_keys_def opaque_types_def
        List.member_iff push_def)
  ultimately show ?thesis by (simp add: permits_def demo_spec_def files_allowed_def)
qed

lemma gate_policy:
  "\<exists>ds k. enforce_policy gate_host 11 (outbound_inspection demo_platform gate_sent [] [demo_memory]) ''gateway'' (gate_db, [])
     = (Inr (), gate_db\<lparr>d_decisions := ds, d_decision_seq := k\<rparr>, [])"
proof -
  let ?c = "outbound_inspection demo_platform gate_sent [] [demo_memory]"
  from demo_compiles(1) obtain p where c: "compile demo_platform demo_spec = Inr p" using is_ok_Inr by blast
  have ev: "evaluate demo_platform p ?c = None" using gate_permitted by (simp add: evaluate_permits [OF c])
  have cur: "policy_current demo_platform gate_db = Inr (0, p)"
    by (simp add: policy_current_def gate_db_def demo_vault_def empty_db_def c)
  obtain x where x: "decide demo_platform (demo_draw 3 ''u'') None ?c ''gateway'' gate_db = Inr x" "de_allowed x"
    using cur ev by (simp add: decide_def policy_operations_def List.member_iff verdict_def)
  obtain ds k where d1: "insert_decision x gate_db = Inr (gate_db\<lparr>d_decisions := ds, d_decision_seq := k\<rparr>)"
    by (simp add: insert_decision_def t_insert_def gate_db_def demo_vault_def empty_db_def)
  have "policy_evaluate demo_platform (demo_draw 3 ''u'') None ?c ''gateway'' True gate_db
      = (Inr x, gate_db\<lparr>d_decisions := prune_decisions ds, d_decision_seq := k\<rparr>)"
    by (simp add: policy_evaluate_def x d1)
  moreover have "d_providers gate_db = Some (Some [gate_provider])" by (simp add: gate_db_def)
  moreover have "cf_managed demo_core = None" by (simp add: demo_core_def)
  ultimately show ?thesis
    by (auto simp: enforce_policy_def in_vault_def gate_enter on_vault_def require_policy_decision_def require_def x(2))
qed

lemma gate_prepared:
  "\<exists>ds k n. prepare_request gate_host Owner gate_provider (Some ''g1'') Proxied gate_body (gate_db, [])
     = (Inr (gate_sent, [demo_memory], n), gate_db\<lparr>d_decisions := ds, d_decision_seq := k\<rparr>, [])"
proof -
  have p: "d_providers gate_db = Some (Some [gate_provider])" by (simp add: gate_db_def)
  have body: "is_object gate_body" "get_array ''messages'' gate_body = Some [gate_message]"
    by (simp_all add: gate_body_def get_array_def)
  have allowed: "policy_allowed (demo_core\<lparr>cf_allowlist := [''https://a'']\<rparr>) gate_provider" by (simp add: policy_allowed_def List.member_iff)
  have ctx: "authorized_context gate_host 10 Owner ''https://a'' (Some ''g1'') (gate_db, []) = (Inr [demo_memory], gate_db, [])"
    by (simp add: authorized_context_def in_vault_def gate_enter [OF p] on_vault_def reading_def gate_context
        authorize_principal_def)
  obtain ds k where pol: "enforce_policy gate_host 11 (outbound_inspection demo_platform gate_sent [] [demo_memory])
      ''gateway'' (gate_db, []) = (Inr (), gate_db\<lparr>d_decisions := ds, d_decision_seq := k\<rparr>, [])" using gate_policy by blast
  have op: "operation_of Proxied = ''gateway''" by (simp add: operation_of_def)
  show ?thesis
    by (simp add: prepare_request_def require_def check_def body gate_model allowed ctx gate_files gate_inject pol op) blast
qed

lemma gate_cleared:
  "\<exists>receipt t s2. clear_to_send gate_host Owner gate_provider (Some ''g1'') Proxied gate_sent [demo_memory] n
     (gate_db\<lparr>d_decisions := ds, d_decision_seq := k\<rparr>, []) = (Inr (receipt, t), s2)"
proof -
  let ?d = "gate_db\<lparr>d_decisions := ds, d_decision_seq := k\<rparr>"
  have p: "d_providers ?d = Some (Some [gate_provider])" by (simp add: gate_db_def)
  have ctx: "context_for demo_platform 3 ''g1'' ''https://a'' None ?d = Inr [demo_memory]"
    using gate_context by (simp add: context_for_def grant_check_def grants_def grant_view_def [abs_def]
        authorized_rows_def memory_row_view_def [abs_def])
  obtain r rows where r: "current_context_receipt demo_platform (demo_draw 3 ''u'') ''https://a'' ''g1'' [demo_memory] ?d
      = Inr (Some r, ?d\<lparr>d_receipts := rows\<rparr>)"
    using ctx by (simp add: current_context_receipt_def add_receipt_def t_insert_def gate_db_def demo_vault_def empty_db_def
        Let_def demo_clock)
  let ?e = "?d\<lparr>d_receipts := rows\<rparr>"
  have pe: "d_providers ?e = Some (Some [gate_provider])" by (simp add: gate_db_def)
  have bytes: "journal_source_bytes [demo_memory] ?e = Inr 9"
    by (simp add: journal_source_bytes_def demo_memory_def gate_db_def demo_vault_def t_find_def List.member_iff
        checked_add_def u64_max_def)
  obtain rt where prune: "journal_prune demo_platform 3 ?e = (Inr rt, ?e)"
    by (simp add: journal_prune_def journal_preferences_def gate_db_def demo_vault_def empty_db_def Let_def)
  have pref: "journal_preferences ?e = Inr (False, 30)" by (simp add: journal_preferences_def gate_db_def)
  have "\<exists>t. new_trace demo_platform (demo_draw 3 ''u'') entry ?e = (Inr t, ?e)" for entry
    by (simp add: new_trace_def journal_start_def demo_clock prune pref)
  then obtain f where t: "\<And>entry. new_trace demo_platform (demo_draw 3 ''u'') entry ?e = (Inr (f entry), ?e)" by metis
  have rec: "\<exists>d2. record_work_request demo_platform (demo_draw 3 ''u'') i Owner rc 0 0 ?e = (Inr (), d2)" for i rc
    by (simp add: record_work_request_def t_insert_def gate_db_def demo_vault_def empty_db_def)
  then obtain g where rec: "\<And>i rc. record_work_request demo_platform (demo_draw 3 ''u'') i Owner rc 0 0 ?e = (Inr (), g i rc)" by metis
  show ?thesis
    by (simp add: clear_to_send_def last_check_def disclosure_receipt_def baseline_bytes_def begin_exchange_def
        in_vault_def gate_enter [OF p] gate_enter [OF pe] on_vault_def reading_def committing_def authorize_principal_def
        r bytes t rec)
qed

lemma gate_sends:
  "sent (upstream gate_host gate_body (Some ''g1'') gate_provider Proxied Owner (gate_db, []))
     = [request_for demo_platform gate_provider gate_sent]"
proof -
  obtain ds k n where p: "prepare_request gate_host Owner gate_provider (Some ''g1'') Proxied gate_body (gate_db, [])
     = (Inr (gate_sent, [demo_memory], n), gate_db\<lparr>d_decisions := ds, d_decision_seq := k\<rparr>, [])" using gate_prepared by blast
  obtain receipt t s2 where c: "clear_to_send gate_host Owner gate_provider (Some ''g1'') Proxied gate_sent [demo_memory] n
     (gate_db\<lparr>d_decisions := ds, d_decision_seq := k\<rparr>, []) = (Inr (receipt, t), s2)" using gate_cleared by blast
  have "snd s2 = []" by (rule sent_done [OF c]) simp
  then show ?thesis by (simp add: upstream_def p c sent_deliver)
qed

section \<open>Properties\<close>

text \<open>C6: Nothing leaves unchecked. Whatever the other handlers do meanwhile, either nothing is handed to
  the HTTP client, or exactly one request is: the prepared one, to a provider on the allowlist, after
  the vault as it then was authorized the principal for the destination, and, with a permission, after
  the memories in the request were read again and found to be what the permission then discloses.\<close>

theorem nothing_leaves_unchecked:
  assumes "upstream E body grant p m who s = (r, s')"
  shows "snd s' = snd s \<or> (\<exists>body' ms n s1 s2. prepare_request E who p grant m body s = (Inr (body', ms, n), s1)
     \<and> snd s' = snd s @ [request_for (ho_platform E) p body'] \<and> policy_allowed (ho_config E) p
     \<and> enter E 12 s1 = (Inr (), s2)
     \<and> authorize_principal (ho_platform E) (clock_at E 12) who (pv_base p) grant (fst s2) = Inr ()
     \<and> (case grant of None \<Rightarrow> ms = []
        | Some g \<Rightarrow> \<exists>s3. enter E 13 s2 = (Inr (), s3)
            \<and> context_for (ho_platform E) (clock_at E 13) g (pv_base p) None (fst s3) = Inr ms))"
  using sent_upstream [OF assms]
proof (elim disjE exE conjE)
  fix body' ms n s1 receipt t s2
  assume p: "prepare_request E who p grant m body s = (Inr (body', ms, n), s1)"
    and c: "clear_to_send E who p grant m body' ms n s1 = (Inr (receipt, t), s2)"
    and l: "snd s' = snd s @ [request_for (ho_platform E) p body']"
  obtain s0 where a: "policy_allowed (ho_config E) p" "authorized_context E 10 who (pv_base p) grant s = (Inr ms, s0)"
    using prepare_request_Inr [OF p] by blast
  obtain sa rc sb where k: "enter E 12 s1 = (Inr (), sa)"
    "authorize_principal (ho_platform E) (clock_at E 12) who (pv_base p) grant (fst sa) = Inr ()"
    "disclosure_receipt E 13 (pv_base p) grant ms sa = (Inr rc, sb)" using clear_to_send_Inr [OF c] by blast
  have "case grant of None \<Rightarrow> ms = []
        | Some g \<Rightarrow> \<exists>s3. enter E 13 sa = (Inr (), s3)
            \<and> context_for (ho_platform E) (clock_at E 13) g (pv_base p) None (fst s3) = Inr ms"
    using disclosure_receipt_Inr [OF k(3)] authorized_context_Inr [OF a(2)] current_context_receipt_Inr
    by (cases grant) (fastforce simp: clock_at_def)+
  with p l a(1) k(1,2) show ?thesis by blast
qed simp

lemma nothing_leaves_unchecked_witness:
  "snd (snd (upstream gate_host gate_body (Some ''g1'') gate_provider Proxied Owner (gate_db, [])))
       = [request_for demo_platform gate_provider gate_sent]
   \<and> policy_allowed (ho_config gate_host) gate_provider
   \<and> (\<exists>s2 s3. enter gate_host 13 s2 = (Inr (), s3)
        \<and> context_for demo_platform 3 ''g1'' ''https://a'' None (fst s3) = Inr [demo_memory])"
proof -
  obtain r s' where u: "upstream gate_host gate_body (Some ''g1'') gate_provider Proxied Owner (gate_db, []) = (r, s')"
    by (rule prod.exhaust)
  obtain ds k n where p: "prepare_request gate_host Owner gate_provider (Some ''g1'') Proxied gate_body (gate_db, [])
     = (Inr (gate_sent, [demo_memory], n), gate_db\<lparr>d_decisions := ds, d_decision_seq := k\<rparr>, [])" using gate_prepared by blast
  have l: "snd s' = [request_for demo_platform gate_provider gate_sent]" using gate_sends unfolding u by simp
  from nothing_leaves_unchecked [OF u] l p obtain s2 s3 where "policy_allowed (ho_config gate_host) gate_provider"
    "enter gate_host 13 s2 = (Inr (), s3)" "context_for demo_platform 3 ''g1'' ''https://a'' None (fst s3) = Inr [demo_memory]"
    by auto
  with gate_sends show ?thesis by blast
qed

text \<open>C7: Every prepared request satisfies both layers of the policy as it will be sent: the managed
  policy has no objection to it and the policy stored in the vault at that time permits it; what they
  judge is every string of the final request, of the files and of the memories it carries, none
  skipped, and its size on the wire.\<close>

theorem requests_satisfy_both_policies:
  assumes "prepare_request E who p grant m body s = (Inr (body', ms, n), s1)"
  shows "\<exists>files s0 s2 row spec. authorized_context E 10 who (pv_base p) grant s = (Inr ms, s0)
     \<and> enter E 11 s0 = (Inr (), s2) \<and> d_policy (fst s2) = Some row \<and> pr_document row = Some spec
     \<and> (let c = outbound_inspection (ho_platform E) body' files ms in
          permits (ho_platform E) spec c
        \<and> (case cf_managed (ho_config E) of None \<Rightarrow> True | Some mp \<Rightarrow> evaluate (ho_platform E) mp c = None)
        \<and> in_joined c = concat (texts body' @ attachment_texts files @ texts (memories_json ms))
        \<and> in_bytes c = length (json_text (ho_platform E) body'))"
proof -
  obtain s0 files where a: "authorized_context E 10 who (pv_base p) grant s = (Inr ms, s0)"
    and e: "enforce_policy E 11 (outbound_inspection (ho_platform E) body' files ms) (operation_of m) s0 = (Inr (), s1)"
    using prepare_request_Inr [OF assms] by blast
  let ?c = "outbound_inspection (ho_platform E) body' files ms"
  obtain s2 v d where v: "enter E 11 s0 = (Inr (), s2)"
    "policy_evaluate (ho_platform E) (draw_at E 11) (cf_managed (ho_config E)) ?c (operation_of m) True (fst s2) = (Inr v, d)"
    "de_allowed v" by (rule enforce_policy_Inr [OF e])
  from policy_evaluate_Inr [OF v(2)]
  have dec: "decide (ho_platform E) (draw_at E 11) (cf_managed (ho_config E)) ?c (operation_of m) (fst s2) = Inr v" by simp
  obtain row spec where k: "d_policy (fst s2) = Some row" "pr_document row = Some spec"
    "opt_all (\<lambda>p. evaluate (ho_platform E) p ?c = None) (cf_managed (ho_config E))" "permits (ho_platform E) spec ?c"
    using decide_Inr [OF dec outbound_inspection_honest] v(3) by blast
  then have "in_violation ?c = None" by (simp add: permits_def)
  note seen = permitted_inspection [OF this, THEN conjunct1] permitted_inspection [OF this, THEN conjunct2, THEN conjunct1]
  have m: "case cf_managed (ho_config E) of None \<Rightarrow> True | Some mp \<Rightarrow> evaluate (ho_platform E) mp ?c = None"
    using k(3) by (cases "cf_managed (ho_config E)") (simp_all add: opt_all_def)
  show ?thesis
    unfolding Let_def by (intro exI conjI) (rule a v(1) k(1,2,4) m seen)+
qed

lemma requests_satisfy_both_policies_witness:
  "\<exists>n s1 files spec. prepare_request gate_host Owner gate_provider (Some ''g1'') Proxied gate_body (gate_db, [])
       = (Inr (gate_sent, [demo_memory], n), s1)
     \<and> permits demo_platform spec (outbound_inspection demo_platform gate_sent files [demo_memory])"
proof -
  obtain ds k n where p: "prepare_request gate_host Owner gate_provider (Some ''g1'') Proxied gate_body (gate_db, [])
     = (Inr (gate_sent, [demo_memory], n), gate_db\<lparr>d_decisions := ds, d_decision_seq := k\<rparr>, [])" using gate_prepared by blast
  from requests_satisfy_both_policies [OF p] have "\<exists>files spec. permits demo_platform spec
      (outbound_inspection demo_platform gate_sent files [demo_memory])"
    unfolding Let_def gate_fields by blast
  with p show ?thesis by blast
qed

text \<open>Adding the authorized context changes nothing else: with no memories the request is untouched;
  otherwise only the system prompt of an Anthropic request is extended, or one message put before the
  others, and every other field, and every message of the caller, is as it was.\<close>

theorem context_is_only_added:
  assumes "inject_context P ms anthropic body = Inr body'" and "is_object body"
  shows "if ms = [] then body' = body
     else (\<forall>k. k \<noteq> (if anthropic then ''system'' else ''messages'') \<longrightarrow> j_get k body' = j_get k body)
       \<and> (if anthropic
          then (\<exists>old. case j_get ''system'' body of
                 None \<Rightarrow> j_get ''system'' body' = Some (JStr (context_text P ms))
               | Some (JStr t) \<Rightarrow> j_get ''system'' body' = Some (JStr (t @ old @ context_text P ms))
               | Some (JArr blocks) \<Rightarrow> j_get ''system'' body' = Some (JArr (blocks @ [text_block (context_text P ms)]))
               | Some _ \<Rightarrow> False)
          else (\<exists>messages. get_array ''messages'' body = Some messages
             \<and> get_array ''messages'' body' = Some (chat_turn ''system'' (JStr (context_text P ms)) # messages)))"
proof -
  obtain kvs where b: "body = JObj kvs" using assms(2) by (cases body) auto
  have get: "j_get k (j_set x v body) = (if k = x then Some v else j_get k body)" for k x v
    by (simp add: b map_of_obj_set)
  show ?thesis
  proof (cases "ms = []")
    case True
    with assms(1) show ?thesis by (simp add: inject_context_def)
  next
    case False
    with assms(1) show ?thesis
      by (auto simp: inject_context_def get get_array_def chat_turn_def res_simps split: option.splits json.splits)
  qed
qed

lemma context_is_only_added_witness:
  "inject_context demo_platform [demo_memory] False gate_body = Inr gate_sent
   \<and> j_get ''model'' gate_sent = j_get ''model'' gate_body
   \<and> (\<exists>messages. get_array ''messages'' gate_body = Some messages
        \<and> get_array ''messages'' gate_sent
          = Some (chat_turn ''system'' (JStr (context_text demo_platform [demo_memory])) # messages))"
  using context_is_only_added [OF gate_inject] gate_inject by (simp add: gate_body_def)

text \<open>C8: A revoked client sends nothing: once a client is revoked, no request of its is handed to a
  provider, after any number of operations on the clients and whatever the other handlers do, as long
  as they do not put the client back.\<close>

theorem revoked_client_sends_nothing:
  assumes "revoke_client P w i d = Inr (True, d1)"
    and "\<forall>n d. client_out i d \<longrightarrow> client_out i (ho_others E n d)"
    and "upstream E body grant p m (Client i) (run_ops (work_step P) ops d1, earlier) = (r, s')"
  shows "snd s' = earlier \<and> (\<exists>e. r = Inl e)"
proof -
  from revoke_client_out [OF assms(1)] have "client_out i d1" by simp
  then have out: "client_out i (run_ops (work_step P) ops d1)" by (rule client_revocation.run_inv)
  let ?s = "(run_ops (work_step P) ops d1, earlier)"
  have no: "\<nexists>x s1. prepare_request E (Client i) p grant m body ?s = (Inr x, s1)"
  proof (intro notI, elim exE)
    fix x s1
    assume a: "prepare_request E (Client i) p grant m body ?s = (Inr x, s1)"
    obtain body' ms n where x: "x = (body', ms, n)" by (cases x)
    obtain s0 where c: "authorized_context E 10 (Client i) (pv_base p) grant ?s = (Inr ms, s0)"
      using prepare_request_Inr [OF a [unfolded x]] by blast
    note c = authorized_context_Inr [OF c]
    then have "d_clients (fst s0) = d_clients (ho_others E 10 (fst ?s))" using enter_frame(1) by blast
    moreover have "client_out i (ho_others E 10 (fst ?s))" using assms(2) out by simp
    ultimately have "client_out i (fst s0)" by (simp add: client_out_def)
    with c show False by (auto dest!: authorize_client_Inr client_out_active [of i _ "ho_platform E" "clock_at E 10"])
  qed
  obtain r1 s1 where 1: "prepare_request E (Client i) p grant m body ?s = (r1, s1)" by (rule prod.exhaust)
  with no obtain e where r1: "r1 = Inl e" by (cases r1) auto
  have "snd s1 = earlier" using sent_prepare_request [of E "Client i" p grant m body ?s] 1 by simp
  with assms(3) 1 r1 show ?thesis by (auto simp: upstream_def)
qed

lemma revoked_client_sends_nothing_witness:
  "\<exists>d1 r s'. revoke_client demo_platform (demo_draw 2 ''u'') ''c1'' demo_work = Inr (True, d1)
     \<and> upstream gate_host gate_body None gate_provider Proxied (Client ''c1'') (d1, []) = (r, s') \<and> snd s' = []"
proof -
  have "case revoke_client demo_platform (demo_draw 2 ''u'') ''c1'' demo_work of
      Inl e \<Rightarrow> False | Inr (b, d') \<Rightarrow> b" by code_simp
  then obtain d1 where r: "revoke_client demo_platform (demo_draw 2 ''u'') ''c1'' demo_work = Inr (True, d1)"
    by (auto split: sum.splits)
  obtain x s' where u: "upstream gate_host gate_body None gate_provider Proxied (Client ''c1'')
      (run_ops (work_step demo_platform) [] d1, []) = (x, s')" by (rule prod.exhaust)
  have "\<forall>n d. client_out ''c1'' d \<longrightarrow> client_out ''c1'' (ho_others gate_host n d)" by simp
  from revoked_client_sends_nothing [OF r this u] r u show ?thesis by (cases s') auto
qed

lemma authenticate_client_Some:
  assumes "authenticate_client P now token d = Inr (Some who)"
  shows "\<exists>r \<in> set (d_clients d). who = Client (wc_id r) \<and> wc_token_hash r = sha256_hex P token
     \<and> length token = 64 \<and> is_ok (active_client P now (wc_id r) d)"
proof -
  obtain r where r: "find (\<lambda>r. wc_token_hash r = sha256_hex P token) (d_clients d) = Some r" "length token = 64"
    "is_ok (active_client P now (wc_id r) d)" "who = Client (wc_id r)"
    using assms by (auto simp: authenticate_client_def split: if_splits option.splits)
  from r(1) have "r \<in> set (d_clients d)" "wc_token_hash r = sha256_hex P token" by (auto simp: find_Some_iff)
  with r show ?thesis by blast
qed

lemma auth_Inr:
  assumes "auth E n hs admin s = (Inr who, s')"
  shows "case who of
       Owner \<Rightarrow> bearer hs = cf_local_token (ho_config E) \<and> s' = s
     | _ \<Rightarrow> \<not> admin \<and> bearer hs \<noteq> cf_local_token (ho_config E)
         \<and> enter E n s = (Inr (), s') \<and> principal_of E n (bearer hs) (fst s') = Inr (Some who)"
    and "case header_text ''origin'' hs of None \<Rightarrow> True | Some x \<Rightarrow> x \<in> set (cf_origins (ho_config E))"
proof -
  have no: "principal_of E n t d \<noteq> Inr (Some Owner)" for t d
    by (auto simp: principal_of_def res_simps dest!: authenticate_client_Some split: if_splits)
  show "case who of
       Owner \<Rightarrow> bearer hs = cf_local_token (ho_config E) \<and> s' = s
     | _ \<Rightarrow> \<not> admin \<and> bearer hs \<noteq> cf_local_token (ho_config E)
         \<and> enter E n s = (Inr (), s') \<and> principal_of E n (bearer hs) (fst s') = Inr (Some who)"
    using assms no by (cases who) (auto simp: auth_def res_simps split: if_splits option.splits)
  show "case header_text ''origin'' hs of None \<Rightarrow> True | Some x \<Rightarrow> x \<in> set (cf_origins (ho_config E))"
    using assms by (auto simp: auth_def res_simps List.member_iff split: option.splits)
qed

text \<open>C12: Authentication gives each principal only for its credential: the owner for the local token, which
  is the only way into an administrative handler; the legacy integration for the agent token while the
  work installation is off; a client for the token of an approved, unexpired and unrevoked client of an
  enabled installation. A browser origin that is not allowed is refused with any credential, and
  nothing is sent.\<close>

theorem authentication_is_sound:
  assumes "auth E n hs admin s = (Inr who, s')"
  shows "(case header_text ''origin'' hs of None \<Rightarrow> True | Some x \<Rightarrow> x \<in> set (cf_origins (ho_config E)))
   \<and> snd s' = snd s \<and> (admin \<longrightarrow> who = Owner)
   \<and> (case who of
        Owner \<Rightarrow> bearer hs = cf_local_token (ho_config E)
      | Legacy \<Rightarrow> bearer hs = cf_agent_token (ho_config E)
          \<and> (\<exists>row. d_instance (fst s') = Some row \<and> \<not> wi_enabled row)
      | Client i \<Rightarrow> (\<exists>row. d_instance (fst s') = Some row \<and> wi_enabled row)
          \<and> (\<exists>r \<in> set (d_clients (fst s')). wc_id r = i \<and> wc_revoked r = None
               \<and> (\<exists>expiry. parse_time (ho_platform E) (wc_expires r) = Some expiry \<and> clock_at E n < expiry))
          \<and> (\<exists>r \<in> set (d_clients (fst s')). wc_id r = i \<and> wc_token_hash r = sha256_hex (ho_platform E) (bearer hs)))"
proof -
  note a = auth_Inr [OF assms]
  have l: "snd s' = snd s" using sent_auth [of E n hs admin s] assms by simp
  show ?thesis
  proof (cases who)
    case Owner
    with a l show ?thesis by simp
  next
    case Legacy
    with a l show ?thesis
      by (auto simp: principal_of_def work_enabled_def res_simps dest!: authenticate_client_Some split: if_splits)
  next
    case (Client i)
    with a(1) have "authenticate_client (ho_platform E) (clock_at E n) (bearer hs) (fst s') = Inr (Some (Client i))"
      by (auto simp: principal_of_def res_simps split: if_splits)
    from authenticate_client_Some [OF this] obtain r where r: "r \<in> set (d_clients (fst s'))" "wc_id r = i"
      "wc_token_hash r = sha256_hex (ho_platform E) (bearer hs)"
      "is_ok (active_client (ho_platform E) (clock_at E n) i (fst s'))" by auto
    from r(4) obtain c where "active_client (ho_platform E) (clock_at E n) i (fst s') = Inr c"
      by (auto simp: is_ok_def split: sum.splits)
    from active_client_Inr [OF this] r a l Client show ?thesis by auto
  qed
qed

lemma authentication_is_sound_witness:
  "\<exists>s'. auth gate_host 0 [(''authorization'', Some ''Bearer agent'')] False (gate_db, []) = (Inr Legacy, s')
     \<and> (\<exists>row. d_instance (fst s') = Some row \<and> \<not> wi_enabled row)"
proof -
  let ?hs = "[(''authorization'', Some ''Bearer agent'')]"
  have b: "bearer ?hs = ''agent''" by (simp add: bearer_def header_text_def strip_prefix_def)
  have p: "d_providers gate_db = Some (Some [gate_provider])" by (simp add: gate_db_def)
  have w: "work_enabled gate_db = Inr False"
    by (simp add: work_enabled_def gate_db_def demo_vault_def empty_db_def)
  have t: "cf_agent_token demo_core = ''agent''" "cf_local_token demo_core = ''owner''" by (simp_all add: demo_core_def)
  have a: "auth gate_host 0 ?hs False (gate_db, []) = (Inr Legacy, gate_db, [])"
    by (simp add: auth_def b t in_vault_def gate_enter [OF p] on_vault_def reading_def principal_of_def w header_text_def
        require_def)
  from authentication_is_sound [OF a] a show ?thesis by auto
qed

lemma chat_answer_Replied:
  assumes "chat_answer E c p model q y s = (Inr x, s')"
  shows "\<exists>z. x = Replied z"
proof -
  obtain r receipt i t where y: "y = (r, receipt, i, t)" by (cases y)
  from assms show ?thesis
    unfolding chat_answer_def y Let_def
    by (auto simp: res_simps failing_def split: if_splits option.splits prod.splits sum.splits)
qed

lemma continuity_of_Inr:
  assumes "continuity_of E c p model s = (Inr (Some q), s')"
  shows "\<exists>i r n s1. ch_conversation c = Some i \<and> ch_request c = Some r
     \<and> prepare_conversation (ho_platform E) (clock_at E 2) \<lparr>rq_id = i, rq_request = r, rq_revision = n,
          rq_provider = pv_id p, rq_destination = pv_base p, rq_model = model, rq_grant = ch_grant c,
          rq_message = ch_message c\<rparr> s1 = (Inr q, fst s')"
  using assms by (cases "ch_conversation c"; cases "ch_request c"; cases "ch_revision c") (auto simp: continuity_of_def res_simps, blast)

lemma replayed_turn:
  assumes "prepare_conversation P now q d = (Inr p, d')" and "pp_replay p = Some rl"
  shows "\<exists>u \<in> set (d_turns d'). tu_thread u = rq_id q \<and> tu_request u = rq_request q
     \<and> tu_hash u = sha256_hex P (rq_message q) \<and> rl_reply rl = tu_assistant u"
proof -
  from prepare_conversation_Inr [OF assms(1)] assms(2) obtain c where w: "prepare_with P now q c d' = Inr p" by auto
  from prepare_with_revision [OF w] assms(2) obtain u where u: "find_turn (rq_id q) (rq_request q) d' = Some u"
    "tu_hash u = sha256_hex P (rq_message q)" "rl_reply rl = tu_assistant u" by auto
  from u(1) have "u \<in> set (d_turns d')" "tu_thread u = rq_id q" "tu_request u = rq_request q"
    by (auto simp: find_turn_def find_Some_iff)
  with u show ?thesis by blast
qed

lemma chat_replayed:
  assumes "chat E hs c s = (Inr (Replayed rl), s')"
  shows "snd s' = snd s \<and> bearer hs = cf_local_token (ho_config E)
     \<and> (\<exists>i u. ch_conversation c = Some i \<and> u \<in> set (d_turns (fst s')) \<and> tu_thread u = i
          \<and> ch_request c = Some (tu_request u) \<and> tu_hash u = sha256_hex (ho_platform E) (ch_message c)
          \<and> rl_reply rl = tu_assistant u)"
proof -
  obtain who s1 s2 p model q where a: "auth E 0 hs True s = (Inr who, s1)" "snd s2 = snd s1"
    and q: "continuity_of E c p model s2 = (Inr q, s')" "Option.bind q pp_replay = Some rl"
  proof -
    from assms obtain who s1 messages p s2 q s3 where a: "auth E 0 hs True s = (Inr who, s1)"
      and b: "in_vault E 1 bad (reading (selected_provider (ch_provider c) None (ho_config E))) s1 = (Inr p, s2)"
      and q: "continuity_of E c p (case ch_model c of None \<Rightarrow> pv_model p | Some m \<Rightarrow> m) s2 = (Inr q, s3)"
      and r: "(case Option.bind q pp_replay of Some r \<Rightarrow> (Inr (Replayed r), s3)
        | None \<Rightarrow> and_then (upstream E (chat_body (case ch_model c of None \<Rightarrow> pv_model p | Some m \<Rightarrow> m)
              (case q of None \<Rightarrow> messages | Some prepared \<Rightarrow> map (\<lambda>(role, content). chat_turn role (JStr content)) (pp_history prepared)
                @ [chat_turn ''user'' (JStr (ch_message c))]) (ch_attachments c) (is_anthropic p)) (ch_grant c) p Launcher Owner s3)
            (chat_answer E c p (case ch_model c of None \<Rightarrow> pv_model p | Some m \<Rightarrow> m) q)) = (Inr (Replayed rl), s')"
      unfolding chat_def Let_def by (simp only: and_then_Inr require_Inr check_Inr) blast
    have "snd s2 = snd s1" by (rule sent_done [OF b]) simp
    moreover have "Option.bind q pp_replay = Some rl" "s3 = s'"
      using r by (cases "Option.bind q pp_replay"; auto simp: res_simps dest!: chat_answer_Replied)+
    ultimately show thesis using that a q by blast
  qed
  have l: "snd s1 = snd s" using sent_auth [of E 0 hs True s] a(1) by simp
  have "snd s' = snd s2" using sent_continuity_of [of E c p model s2] q(1) by simp
  moreover have "bearer hs = cf_local_token (ho_config E)" using auth_Inr(1) [OF a(1)] by (cases who) auto
  moreover obtain pr where pr: "q = Some pr" "pp_replay pr = Some rl" using q(2) by (cases q) auto
  moreover obtain i r n d where i: "ch_conversation c = Some i" "ch_request c = Some r"
    "prepare_conversation (ho_platform E) (clock_at E 2) \<lparr>rq_id = i, rq_request = r, rq_revision = n,
          rq_provider = pv_id p, rq_destination = pv_base p, rq_model = model, rq_grant = ch_grant c,
          rq_message = ch_message c\<rparr> d = (Inr pr, fst s')"
    using continuity_of_Inr q(1) pr(1) by blast
  ultimately show ?thesis using replayed_turn [OF i(3) pr(2)] i l a(2) by auto
qed


end
