(* ===== verification/OwnerApi.thy ===== *)
theory OwnerApi
  imports Capture
begin

text \<open>
  The owner's API of \<open>crates/omni-core/src/http.rs\<close> and \<open>http/professional.rs\<close>: every handler behind
  the local token, apart from the chat, and the claim of a pairing ticket. A handler returns the value that is
  serialized; statements that the code runs one after the other under one lock follow each other without
  a point of the host between them, each committed on its own.
\<close>

section \<open>The site\<close>

text \<open>What the handlers take from third-party code: the privacy mechanism, the \<open>url\<close> crate (an address
  with the path \<open>/\<close>, and one without credentials, query and fragment), and the JSON of a report.\<close>

record site =
  si_host :: host
  si_mechanism :: mechanism
  si_root :: "string \<Rightarrow> string option"
  si_redact :: "string \<Rightarrow> string option"
  si_report :: "report \<Rightarrow> json"
  si_os :: string
  si_pid :: nat

definition as_owner :: "host \<Rightarrow> headers \<Rightarrow> (world \<Rightarrow> 'a act) \<Rightarrow> world \<Rightarrow> 'a act" where
  "as_owner E hs k s = and_then (auth E 0 hs True s) (\<lambda>_. k)"

definition audit_event :: "host \<Rightarrow> nat \<Rightarrow> string \<Rightarrow> audit_details \<Rightarrow> world \<Rightarrow> unit act" where
  "audit_event E n action details = on_vault bad (committing (audited (ho_platform E) (draw_at E n) 0 action details ()))"

definition returning :: "'a \<Rightarrow> world \<Rightarrow> 'a act" where
  "returning x s = (Inr x, s)"

definition found :: "string \<Rightarrow> bool \<Rightarrow> world \<Rightarrow> unit act" where
  "found name b = require b (Api 404 (name @ '' not found''))"

section \<open>Pairing\<close>

text \<open>The values of the \<open>Origin\<close> headers, \<open>None\<close> where one is not text; the body, if it is the expected object.\<close>

definition pairing_origin_ok :: "config \<Rightarrow> string option list \<Rightarrow> bool" where
  "pairing_origin_ok c origins =
     (case origins of [] \<Rightarrow> True | [Some x] \<Rightarrow> List.member (cf_origins c) x | _ \<Rightarrow> False)"

definition claim_session ::
    "platform \<Rightarrow> config \<Rightarrow> int \<Rightarrow> string option list \<Rightarrow> string option \<Rightarrow> gate \<Rightarrow> (api_error + string) \<times> gate" where
  "claim_session P c now origins secret g =
     (let refused = Inl (Api 403 ''Session pairing is unavailable'') in
      if \<not> pairing_origin_ok c origins then (refused, g)
      else case secret of
        None \<Rightarrow> (refused, g)
      | Some x \<Rightarrow> (case claim P now x g of (ok, g') \<Rightarrow> (if ok then Inr (cf_local_token c) else refused, g')))"

section \<open>Views\<close>

record runtime_view =
  rw_version :: string
  rw_os :: string
  rw_pid :: nat
  rw_listen :: "string option"
  rw_core :: string
  rw_storage :: string
  rw_proxy_set :: bool
  rw_proxy :: "string option"
  rw_vpn_required :: bool
  rw_simulation :: bool
  rw_analytics :: string
  rw_analytics_set :: bool
  rw_allowlist :: "string list"
  rw_allowlist_enforced :: bool

definition key_storage_label :: "config \<Rightarrow> string" where
  "key_storage_label c = (if cf_key_storage c = ''file'' then ''development-file'' else cf_key_storage c)"

definition view_runtime :: "site \<Rightarrow> runtime_view" where
  "view_runtime S =
     (let c = ho_config (si_host S);
          proxy = Option.bind (cf_socks_proxy c) (si_redact S);
          listen = (if cf_port c \<noteq> 0 then Some (''127.0.0.1:'' @ show_nat (cf_port c)) else None) in
      \<lparr>rw_version = ''0.4.0'', rw_os = si_os S, rw_pid = si_pid S, rw_listen = listen,
       rw_core = (case listen of None \<Rightarrow> ''in-process'' | Some a \<Rightarrow> ''http://'' @ a),
       rw_storage = key_storage_label c, rw_proxy_set = (proxy \<noteq> None), rw_proxy = proxy,
       rw_vpn_required = cf_vpn_required c, rw_simulation = cf_simulation c, rw_analytics = cf_analytics_url c,
       rw_analytics_set = (cf_analytics_url c \<noteq> []), rw_allowlist = cf_allowlist c,
       rw_allowlist_enforced = cf_allowlist_enforced c\<rparr>)"

definition admin_view ::
    "site \<Rightarrow> headers \<Rightarrow> world \<Rightarrow> (admin_settings \<times> provider_view list \<times> runtime_view) act" where
  "admin_view S hs =
     (let E = si_host S in as_owner E hs (in_vault E 1 bad (reading (\<lambda>d.
        rbind (read_settings d) (\<lambda>settings.
        rbind (read_providers d) (\<lambda>ps.
        Inr (settings, map (provider_public (ho_config E)) ps, view_runtime S)))))))"

record state_view =
  vs_memories :: "memory list"
  vs_grants :: "grant list"
  vs_receipts :: "receipt list"
  vs_interactions :: nat
  vs_active :: nat
  vs_simulation :: bool
  vs_analytics :: stats
  vs_primary :: "string \<times> string \<times> string \<times> string \<times> bool"
  vs_storage :: string

definition active_grant :: "platform \<Rightarrow> int \<Rightarrow> grant \<Rightarrow> bool" where
  "active_grant P now g \<longleftrightarrow> g_revoked g = None
     \<and> (case parse_time P (g_expires g) of None \<Rightarrow> False | Some t \<Rightarrow> now < t)"

definition view_state :: "host \<Rightarrow> int \<Rightarrow> db \<Rightarrow> state_view res" where
  "view_state E now d =
     (let c = ho_config E in
      rbind (read_settings d) (\<lambda>settings.
      rbind (read_provider (as_primary settings) d) (\<lambda>p.
      Inr \<lparr>vs_memories = memories d, vs_grants = grants d, vs_receipts = receipts d,
           vs_interactions = interaction_count d, vs_active = length (filter (active_grant (ho_platform E) now) (grants d)),
           vs_simulation = cf_simulation c, vs_analytics = analytics_stats (cf_analytics_opt_in c) d,
           vs_primary = (pv_id p, pv_kind p, pv_base p, pv_model p, is_loopback_url (ho_platform E) (pv_base p)),
           vs_storage = key_storage_label c\<rparr>)))"

definition show_state :: "host \<Rightarrow> headers \<Rightarrow> world \<Rightarrow> state_view act" where
  "show_state E hs = as_owner E hs (in_vault E 1 bad (reading (view_state E (clock_at E 1))))"

section \<open>The request policy\<close>

definition show_policy :: "host \<Rightarrow> headers \<Rightarrow> world \<Rightarrow> policy_view act" where
  "show_policy E hs = as_owner E hs (in_vault E 1 bad (reading (view_policy (ho_platform E) (cf_managed (ho_config E)))))"

definition save_policy :: "host \<Rightarrow> headers \<Rightarrow> nat \<Rightarrow> policy_spec \<Rightarrow> world \<Rightarrow> policy_view act" where
  "save_policy E hs expected spec = as_owner E hs (\<lambda>s.
     and_then (in_vault E 1 bad (committing (policy_save (ho_platform E) (draw_at E 1) expected spec)) s) (\<lambda>ok s.
     and_then (require ok (Api 409
       ''Policy changed in another session. Reload the saved policy before editing again.'') s) (\<lambda>_.
     on_vault bad (reading (view_policy (ho_platform E) (cf_managed (ho_config E)))))))"

definition policy_test_body :: "json \<Rightarrow> attachment list \<Rightarrow> json res" where
  "policy_test_body body files =
     (if files = [] then Inr body
      else rbind (ensure (j_get ''omni_attachments'' body = None) ''Use only one attachment collection'') (\<lambda>_.
           rbind (ensure (is_object body) ''A request object is required'') (\<lambda>_.
           Inr (j_set ''omni_attachments'' (JArr (map attachment_value files)) body))))"

definition policy_test :: "host \<Rightarrow> headers \<Rightarrow> json \<Rightarrow> attachment list \<Rightarrow> world \<Rightarrow> decision act" where
  "policy_test E hs body files = as_owner E hs (\<lambda>s.
     and_then (check bad (policy_test_body body files) s) (\<lambda>body s.
     and_then (check bad (prepare_files (ho_platform E) body) s) (\<lambda>(body, files).
     in_vault E 1 bad (policy_evaluate (ho_platform E) (draw_at E 1) (cf_managed (ho_config E))
       (account_wire_size (ho_platform E) body (inspect (ho_platform E) body files)) ''preview'' False))))"

definition list_decisions :: "host \<Rightarrow> headers \<Rightarrow> world \<Rightarrow> decisions_view act" where
  "list_decisions E hs = as_owner E hs (in_vault E 1 bad (reading (policy_decisions 100)))"

section \<open>Settings and providers\<close>

definition change_settings :: "host \<Rightarrow> headers \<Rightarrow> settings_patch \<Rightarrow> world \<Rightarrow> admin_settings act" where
  "change_settings E hs t = as_owner E hs (\<lambda>s.
     and_then (in_vault E 1 bad (committing (patch_admin_settings (ho_platform E) t)) s) (\<lambda>settings s.
     and_then (on_vault bad (journal_prune (ho_platform E) (clock_at E 2)) s) (\<lambda>_ s.
     and_then (audit_event E 3 ''settings_updated'' (no_details\<lparr>ad_enabled := Some (as_history_enabled settings),
       ad_days := Some (as_history_days settings)\<rparr>) s) (\<lambda>_.
     returning settings))))"

definition provider_details :: "string \<Rightarrow> audit_details" where
  "provider_details i = no_details\<lparr>ad_provider := Some i\<rparr>"

definition put_profile :: "host \<Rightarrow> headers \<Rightarrow> string option \<Rightarrow> provider_patch \<Rightarrow> world \<Rightarrow> provider_view act" where
  "put_profile E hs i t = as_owner E hs (\<lambda>s.
     and_then (in_vault E 1 bad (committing (save_provider (ho_platform E) (draw_at E 1) i t)) s) (\<lambda>p s.
     and_then (audit_event E 2 (if i = None then ''provider_created'' else ''provider_updated'') (provider_details (pv_id p)) s) (\<lambda>_.
     returning (provider_public (ho_config E) p))))"

definition create_provider :: "host \<Rightarrow> headers \<Rightarrow> provider_patch \<Rightarrow> world \<Rightarrow> provider_view act" where
  "create_provider E hs = put_profile E hs None"

definition update_provider :: "host \<Rightarrow> headers \<Rightarrow> string \<Rightarrow> provider_patch \<Rightarrow> world \<Rightarrow> provider_view act" where
  "update_provider E hs i = put_profile E hs (Some i)"

definition remove_provider :: "host \<Rightarrow> headers \<Rightarrow> string \<Rightarrow> world \<Rightarrow> unit act" where
  "remove_provider E hs i = as_owner E hs (\<lambda>s.
     and_then (in_vault E 1 bad (committing (delete_provider i)) s) (\<lambda>b s.
     and_then (found ''Provider'' b s) (\<lambda>_.
     audit_event E 2 ''provider_deleted'' (provider_details i))))"

section \<open>Discovery\<close>

definition probe_limit :: nat where "probe_limit = 1024 * 1024"

definition probe_request :: "platform \<Rightarrow> provider \<Rightarrow> string \<Rightarrow> outbound" where
  "probe_request P p url =
     \<lparr>ob_local = is_loopback_url P (pv_base p), ob_url = url, ob_headers = key_headers p, ob_body = None\<rparr>"

definition probe_json :: "host \<Rightarrow> provider \<Rightarrow> string \<Rightarrow> world \<Rightarrow> json act" where
  "probe_json E p url s =
     (let q = probe_request (ho_platform E) p url; s = (fst s, snd s @ [q]) in
      case ho_answer E q of
        Abandoned \<Rightarrow> (Inl Cancelled, s)
      | Unanswered timeout \<Rightarrow> (Inl (Api 502 ''Provider could not be reached within eight seconds''), s)
      | Answered r \<Rightarrow>
          (if \<not> success_status (rs_status r)
           then (Inl (Api (rs_status r) (''Discovery rejected (HTTP '' @ show_nat (rs_status r) @ '')'')), s)
           else and_then (check body_error (read_bounded_body probe_limit (rs_announced r) (map snd (rs_body r))) s) (\<lambda>bytes.
             check bad (ok_or (json_parse (ho_platform E) bytes) (Bail ''Provider returned an invalid model catalog'')))))"

definition catalog_name :: "string \<Rightarrow> bool" where
  "catalog_name n \<longleftrightarrow> length n \<le> 200 \<and> \<not> has_control n"

definition catalog_names :: "string \<Rightarrow> json list \<Rightarrow> string list" where
  "catalog_names key items = filter catalog_name (List.map_filter (get_str key) (take 1000 items))"

definition loaded_model :: "json \<Rightarrow> json option" where
  "loaded_model v =
     Option.bind (get_str ''name'' v) (\<lambda>name.
     if \<not> catalog_name name then None
     else Some (JObj
       [(''expires_at'', case get_str ''expires_at'' v of None \<Rightarrow> JNull | Some t \<Rightarrow> if length t \<le> 100 then JStr t else JNull),
        (''name'', JStr name),
        (''size_bytes'', case Option.bind (j_get ''size'' v) as_u64 of None \<Rightarrow> JNull | Some n \<Rightarrow> JNum (UInt n))]))"

definition entries :: "string \<Rightarrow> string \<Rightarrow> json \<Rightarrow> world \<Rightarrow> json list act" where
  "entries key message v = check bad (ok_or (get_array key v) (Bail message))"

definition ollama_models :: "site \<Rightarrow> provider \<Rightarrow> world \<Rightarrow> (string list \<times> json list option) act" where
  "ollama_models S p s =
     (let E = si_host S in
      if pv_kind p = ''ollama'' \<and> is_loopback_url (ho_platform E) (pv_base p)
      then and_then (check bad (ok_or (si_root S (pv_base p)) (Bail ''Invalid Ollama endpoint'')) s) (\<lambda>root s.
           and_then (probe_json E p (root @ ''api/tags'') s) (\<lambda>tags s.
           and_then (probe_json E p (root @ ''api/ps'') s) (\<lambda>loaded s.
           and_then (entries ''models'' ''Ollama returned an invalid installed model catalog'' tags s) (\<lambda>tags s.
           and_then (entries ''models'' ''Ollama returned an invalid loaded model catalog'' loaded s) (\<lambda>loaded.
           returning (catalog_names ''name'' tags, Some (List.map_filter loaded_model (take 1000 loaded))))))))
      else (Inr ([], None), s))"

definition models_url :: "provider \<Rightarrow> string" where
  "models_url p = pv_base p @ ''/models'' @ (if is_anthropic p then ''?limit=1000'' else [])"

definition discover :: "site \<Rightarrow> provider \<Rightarrow> world \<Rightarrow> discovery act" where
  "discover S p s =
     (let E = si_host S in
      and_then (require (policy_allowed (ho_config E) p)
        (Api 403 ''Provider blocked by the environment upstream allowlist'') s) (\<lambda>_ s.
      and_then (probe_json E p (models_url p) s) (\<lambda>catalog s.
      and_then (entries ''data'' ''Provider returned an invalid model catalog'' catalog s) (\<lambda>data s.
      and_then (ollama_models S p s) (\<lambda>(installed, loaded).
      returning \<lparr>di_status = ''available'', di_checked = Some (rfc3339 (ho_platform E) (clock_at E 2)),
        di_models = take 1000 (remdups_adj (sort (catalog_names ''id'' data @ installed))),
        di_loaded = loaded, di_error = None\<rparr>)))))"

definition failed_discovery :: "host \<Rightarrow> provider \<Rightarrow> nat \<Rightarrow> string \<Rightarrow> discovery" where
  "failed_discovery E p code message = not_checked\<lparr>
     di_status := (if (code = 401 \<or> code = 403) \<and> policy_allowed (ho_config E) p then ''auth_error'' else ''unavailable''),
     di_checked := Some (rfc3339 (ho_platform E) (clock_at E 2)), di_error := Some message\<rparr>"

definition save_probe :: "host \<Rightarrow> provider \<Rightarrow> discovery \<Rightarrow> world \<Rightarrow> provider_view act" where
  "save_probe E p x s =
     and_then (in_vault E 3 bad (committing (save_discovery p x)) s) (\<lambda>p s.
     and_then (audit_event E 4 ''provider_probed'' ((provider_details (pv_id p))\<lparr>
       ad_count := Some (length (di_models (pv_discovery p))),
       ad_error := (if di_status (pv_discovery p) = ''available'' then None else Some ''provider_unavailable'')\<rparr>) s) (\<lambda>_.
     returning (provider_public (ho_config E) p)))"

definition probe_provider :: "site \<Rightarrow> headers \<Rightarrow> string \<Rightarrow> world \<Rightarrow> provider_view act" where
  "probe_provider S hs i =
     (let E = si_host S in as_owner E hs (\<lambda>s.
      and_then (in_vault E 1 bad (reading (read_provider i)) s) (\<lambda>p s.
      case discover S p s of
        (Inr x, s) \<Rightarrow> save_probe E p x s
      | (Inl (Api code message), s) \<Rightarrow> save_probe E p (failed_discovery E p code message) s
      | (Inl Cancelled, s) \<Rightarrow> (Inl Cancelled, s))))"

section \<open>The journal\<close>

definition show_history :: "host \<Rightarrow> headers \<Rightarrow> history_query \<Rightarrow> world \<Rightarrow> interaction_record page act" where
  "show_history E hs q = as_owner E hs (in_vault E 1 bad (journal_history (ho_platform E) (clock_at E 1) q))"

definition show_entry :: "host \<Rightarrow> headers \<Rightarrow> string \<Rightarrow> world \<Rightarrow> interaction_record act" where
  "show_entry E hs i = as_owner E hs (\<lambda>s.
     and_then (in_vault E 1 bad (journal_entry (ho_platform E) (clock_at E 1) i) s) (\<lambda>x s.
     case x of None \<Rightarrow> (Inl (Api 404 ''Interaction not found''), s) | Some r \<Rightarrow> (Inr r, s)))"

definition show_usage :: "host \<Rightarrow> headers \<Rightarrow> string option \<Rightarrow> world \<Rightarrow> usage_summary act" where
  "show_usage E hs period = as_owner E hs (in_vault E 1 bad (journal_usage (ho_platform E) (clock_at E 1)
     (case period of None \<Rightarrow> ''7d'' | Some p \<Rightarrow> p)))"

definition show_logs :: "host \<Rightarrow> headers \<Rightarrow> audit_query \<Rightarrow> world \<Rightarrow> audit_row page act" where
  "show_logs E hs q = as_owner E hs (in_vault E 1 bad (journal_logs (ho_platform E) (clock_at E 1) q))"

definition clear_history :: "host \<Rightarrow> headers \<Rightarrow> world \<Rightarrow> unit act" where
  "clear_history E hs = as_owner E hs (\<lambda>s.
     and_then (in_vault E 1 bad (committing (journal_delete_history (ho_platform E) (draw_at E 1))) s) (\<lambda>_.
     returning ()))"

section \<open>Memories and sources\<close>

definition list_memories :: "host \<Rightarrow> headers \<Rightarrow> world \<Rightarrow> memory list act" where
  "list_memories E hs = as_owner E hs (in_vault E 1 bad (reading (\<lambda>d. Inr (memories d))))"

definition create_memory ::
    "host \<Rightarrow> headers \<Rightarrow> string \<Rightarrow> string option \<Rightarrow> string option \<Rightarrow> world \<Rightarrow> memory act" where
  "create_memory E hs content status source = as_owner E hs (in_vault E 1 bad (committing
     (add_memory (ho_platform E) (draw_at E 1) content (case status of None \<Rightarrow> ''proposed'' | Some x \<Rightarrow> x)
       (case source of None \<Rightarrow> ''manual'' | Some x \<Rightarrow> x) (JObj []))))"

definition change_memory ::
    "host \<Rightarrow> headers \<Rightarrow> string \<Rightarrow> string option \<Rightarrow> string option \<Rightarrow> world \<Rightarrow> memory act" where
  "change_memory E hs i content status = as_owner E hs (in_vault E 1 bad (committing
     (update_memory (ho_platform E) (draw_at E 1) i content status)))"

definition remove_memory :: "host \<Rightarrow> headers \<Rightarrow> string \<Rightarrow> world \<Rightarrow> unit act" where
  "remove_memory E hs i = as_owner E hs (\<lambda>s.
     and_then (in_vault E 1 bad (committing (delete_memory (ho_platform E) (draw_at E 1) i)) s) (found ''Memory''))"

definition remove_source :: "host \<Rightarrow> headers \<Rightarrow> string \<Rightarrow> world \<Rightarrow> unit act" where
  "remove_source E hs i = as_owner E hs (\<lambda>s.
     and_then (in_vault E 1 bad (committing (delete_source (ho_platform E) (draw_at E 1) i)) s) (found ''Source''))"

section \<open>Permissions\<close>

definition list_grants :: "host \<Rightarrow> headers \<Rightarrow> world \<Rightarrow> grant list act" where
  "list_grants E hs = as_owner E hs (in_vault E 1 bad (reading (\<lambda>d. Inr (grants d))))"

record grant_input =
  gi_client :: "string option"
  gi_destination :: string
  gi_scope :: "string list"
  gi_seconds :: "int option"

definition configured_destination :: "config \<Rightarrow> string \<Rightarrow> provider list \<Rightarrow> bool" where
  "configured_destination c destination ps \<longleftrightarrow> list_ex (\<lambda>p. pv_base p = destination \<and> policy_allowed c p) ps"

text \<open>The three statements under the second lock.\<close>

definition give_grant :: "host \<Rightarrow> grant_input \<Rightarrow> string \<Rightarrow> world \<Rightarrow> (grant \<times> string option) act" where
  "give_grant E g destination s =
     and_then (enter E 2 s) (\<lambda>_ s.
     and_then (case gi_client g of
         None \<Rightarrow> (Inr (), s)
       | Some i \<Rightarrow> on_vault bad (reading (authorize_principal (ho_platform E) (clock_at E 2) (Client i) destination None)) s) (\<lambda>_ s.
     and_then (on_vault bad (committing (create_grant (ho_platform E) (draw_at E 3) destination (gi_scope g)
         (case gi_seconds g of None \<Rightarrow> 3600 | Some n \<Rightarrow> n))) s) (\<lambda>x s.
     and_then (case gi_client g of
         None \<Rightarrow> (Inr (), s)
       | Some i \<Rightarrow> on_vault bad (committing (bind_work_grant (ho_platform E) (clock_at E 4) (g_id x) i destination)) s) (\<lambda>_.
     returning (x, gi_client g)))))"

definition add_grant :: "host \<Rightarrow> headers \<Rightarrow> grant_input \<Rightarrow> world \<Rightarrow> (grant \<times> string option) act" where
  "add_grant E hs g = as_owner E hs (\<lambda>s.
     and_then (check bad (normalize_base (ho_platform E) (gi_destination g)) s) (\<lambda>destination s.
     and_then (in_vault E 1 bad (reading read_providers) s) (\<lambda>ps s.
     and_then (require (configured_destination (ho_config E) destination ps \<or> destination = mcp_destination)
       (Api 400 ''Destination must be a configured provider or https://omni.local/mcp'') s) (\<lambda>_.
     give_grant E g destination))))"

definition revoke_grant :: "host \<Rightarrow> headers \<Rightarrow> string \<Rightarrow> world \<Rightarrow> unit act" where
  "revoke_grant E hs i = as_owner E hs (\<lambda>s.
     and_then (in_vault E 1 bad (committing (revoke (ho_platform E) (draw_at E 1) i)) s) (found ''Grant''))"

section \<open>Analytics\<close>

definition require_collector :: "config \<Rightarrow> world \<Rightarrow> unit act" where
  "require_collector c = require (cf_analytics_url c \<noteq> [])
     (Api 400 ''Analytics is unavailable until a collector is configured'')"

definition change_consent :: "host \<Rightarrow> headers \<Rightarrow> bool \<Rightarrow> world \<Rightarrow> stats act" where
  "change_consent E hs enabled = as_owner E hs (\<lambda>s.
     and_then (if enabled then require_collector (ho_config E) s else (Inr (), s)) (\<lambda>_ s.
     and_then (in_vault E 1 bad (committing (set_consent (ho_platform E) (draw_at E 1) enabled)) s) (\<lambda>_.
     on_vault bad (reading (\<lambda>d. Inr (analytics_stats (cf_analytics_opt_in (ho_config E)) d))))))"

definition report_of :: "site \<Rightarrow> string option \<Rightarrow> world \<Rightarrow> report act" where
  "report_of S week =
     (let E = si_host S in in_vault E 1 bad (committing (prepare_report (ho_calendar E) (si_mechanism S) (ho_platform E)
        (draw_at E 1) (case week of None \<Rightarrow> week_of (ho_calendar E) (clock_at E 1) | Some x \<Rightarrow> x)
        (cf_analytics_opt_in (ho_config E)) (cf_simulation (ho_config E)))))"

definition show_report :: "site \<Rightarrow> headers \<Rightarrow> string option \<Rightarrow> world \<Rightarrow> report act" where
  "show_report S hs week =
     (let E = si_host S in as_owner E hs (\<lambda>s.
      and_then (require_collector (ho_config E) s) (\<lambda>_ s.
      and_then (report_of S week s) (\<lambda>r s.
      and_then (audit_event E 2 ''analytics_report_prepared'' no_details s) (\<lambda>_.
      returning r)))))"

text \<open>\<open>sender::send\<close>.\<close>

definition report_request :: "site \<Rightarrow> report \<Rightarrow> outbound" where
  "report_request S r =
     (let E = si_host S; url = cf_analytics_url (ho_config E) in
      \<lparr>ob_local = is_loopback_url (ho_platform E) url, ob_url = url,
       ob_headers = [(''content-type'', ''application/json'')], ob_body = Some (si_report S r)\<rparr>)"

definition send_report :: "site \<Rightarrow> headers \<Rightarrow> string option \<Rightarrow> world \<Rightarrow> (string \<times> string \<times> nat) act" where
  "send_report S hs week =
     (let E = si_host S; c = ho_config E in as_owner E hs (\<lambda>s.
      and_then (require_collector c s) (\<lambda>_ s.
      and_then (report_of S week s) (\<lambda>r s.
      and_then (in_vault E 2 bad (reading (\<lambda>d. Inr (consent (cf_analytics_opt_in c) d))) s) (\<lambda>ok s.
      and_then (require ok (Api 403 ''Analytics consent has been revoked'') s) (\<lambda>_ s.
      let q = report_request S r; a = ho_answer E q; s = (fst s, snd s @ [q]);
          accepted = (case status_of a of None \<Rightarrow> False | Some n \<Rightarrow> success_status n) in
      if a = Abandoned then (Inl Cancelled, s)
      else and_then (enter E 3 s) (\<lambda>_ s.
           and_then (audit_event E 3 ''analytics_report_sent''
             (no_details\<lparr>ad_error := (if accepted then None else Some ''provider_unavailable'')\<rparr>) s) (\<lambda>_ s.
           if accepted then (Inr (rp_id r, rp_week r, the (status_of a)), s)
           else (Inl (Api 502 ''Analytics collector unavailable or rejected this report; retry reuses the existing noise''), s)))))))))"

section \<open>Work clients\<close>

definition show_work :: "host \<Rightarrow> headers \<Rightarrow> world \<Rightarrow> work_view act" where
  "show_work E hs = as_owner E hs (in_vault E 1 bad (reading view_work))"

definition enable_installation :: "host \<Rightarrow> headers \<Rightarrow> string \<Rightarrow> bool \<Rightarrow> world \<Rightarrow> work_view act" where
  "enable_installation E hs name acknowledged = as_owner E hs (\<lambda>s.
     and_then (require acknowledged
       (Api 400 ''Confirm that this is a dedicated work installation for one OS user'') s) (\<lambda>_ s.
     and_then (in_vault E 1 bad (committing (enable_work (ho_platform E) (draw_at E 1) name)) s) (\<lambda>_.
     in_vault E 2 bad (reading view_work))))"

definition approve_client ::
    "host \<Rightarrow> headers \<Rightarrow> string \<Rightarrow> string list \<Rightarrow> int \<Rightarrow> world \<Rightarrow> client_token act" where
  "approve_client E hs name destinations seconds = as_owner E hs (\<lambda>s.
     and_then (in_vault E 1 bad (reading read_providers) s) (\<lambda>ps s.
     and_then (check bad (map_res (normalize_base (ho_platform E)) destinations) s) (\<lambda>ds s.
     and_then (require (list_all (\<lambda>d. configured_destination (ho_config E) d ps) ds)
       (Api 400 ''Approve only configured, policy-allowed provider destinations'') s) (\<lambda>_.
     on_vault bad (committing (create_work_client (ho_platform E) (draw_at E 2) name ds seconds))))))"

definition remove_client :: "host \<Rightarrow> headers \<Rightarrow> string \<Rightarrow> world \<Rightarrow> unit act" where
  "remove_client E hs i = as_owner E hs (\<lambda>s.
     and_then (in_vault E 1 bad (committing (revoke_client (ho_platform E) (draw_at E 1) i)) s) (found ''Client''))"

section \<open>Saved conversations\<close>

definition list_conversations :: "host \<Rightarrow> headers \<Rightarrow> world \<Rightarrow> thread_row list act" where
  "list_conversations E hs = as_owner E hs (in_vault E 1 bad (conversations (ho_platform E) (clock_at E 1)))"

definition start_conversation :: "host \<Rightarrow> headers \<Rightarrow> conversation_input \<Rightarrow> world \<Rightarrow> thread_row act" where
  "start_conversation E hs input = as_owner E hs (\<lambda>s.
     and_then (in_vault E 1 bad (reading (selected_provider (Some (ci_provider input)) None (ho_config E))) s) (\<lambda>p.
     on_vault bad (create_conversation (ho_platform E) (draw_at E 2) input (pv_base p))))"

definition read_conversation :: "host \<Rightarrow> headers \<Rightarrow> string \<Rightarrow> world \<Rightarrow> (thread_row \<times> turn_row list) act" where
  "read_conversation E hs i = as_owner E hs (in_vault E 1 bad (conversation_messages (ho_platform E) (clock_at E 1) i))"

definition remove_conversation :: "host \<Rightarrow> headers \<Rightarrow> string \<Rightarrow> world \<Rightarrow> unit act" where
  "remove_conversation E hs i = as_owner E hs (\<lambda>s.
     and_then (in_vault E 1 bad (committing (delete_conversation (ho_platform E) (draw_at E 1) i)) s) (found ''Conversation''))"

definition clear_attempt :: "host \<Rightarrow> headers \<Rightarrow> string \<Rightarrow> string \<Rightarrow> bool \<Rightarrow> world \<Rightarrow> unit act" where
  "clear_attempt E hs i request acknowledged = as_owner E hs (\<lambda>s.
     and_then (require acknowledged
       (Api 400 ''Acknowledge that the previous request may already have reached the provider'') s) (\<lambda>_.
     in_vault E 1 bad (committing (clear_conversation_attempt i request))))"

section \<open>The router\<close>

datatype owner_call =
    GetState
  | GetAdmin
  | GetPolicies
  | PostPolicy nat policy_spec
  | PostPolicyTest json "attachment list"
  | GetDecisions
  | PatchSettings settings_patch
  | PostProvider provider_patch
  | PatchProvider string provider_patch
  | DeleteProvider string
  | PostProbe string
  | GetInteractions history_query
  | DeleteInteractions
  | GetInteraction string
  | GetUsage "string option"
  | GetLogs audit_query
  | GetMemories
  | PostMemory string "string option" "string option"
  | PatchMemory string "string option" "string option"
  | DeleteMemory string
  | DeleteSource string
  | GetGrants
  | PostGrant grant_input
  | DeleteGrant string
  | PostConsent bool
  | PostPrepare "string option"
  | PostSend "string option"
  | GetWork
  | PostWork string bool
  | PostClient string "string list" int
  | DeleteClient string
  | GetConversations
  | PostConversation conversation_input
  | GetConversation string
  | DeleteConversation string
  | PostAttempt string string bool

datatype owner_reply =
    NoContent
  | StateReply state_view
  | AdminReply admin_settings "provider_view list" runtime_view
  | PolicyReply policy_view
  | DecisionReply decision
  | DecisionsReply decisions_view
  | SettingsReply admin_settings
  | ProviderReply provider_view
  | HistoryReply "interaction_record page"
  | InteractionReply interaction_record
  | UsageReply usage_summary
  | LogsReply "audit_row page"
  | MemoriesReply "memory list"
  | MemoryReply memory
  | GrantsReply "grant list"
  | GrantReply grant "string option"
  | ConsentReply stats
  | ReportReply report
  | SentReply string string nat
  | WorkReply work_view
  | ClientReply client_token
  | ConversationsReply "thread_row list"
  | ConversationReply thread_row
  | MessagesReply thread_row "turn_row list"

definition reply :: "('a \<Rightarrow> owner_reply) \<Rightarrow> 'a act \<Rightarrow> owner_reply act" where
  "reply f m = and_then m (\<lambda>x s. (Inr (f x), s))"

fun app :: "site \<Rightarrow> headers \<Rightarrow> owner_call \<Rightarrow> world \<Rightarrow> owner_reply act" where
  "app S hs GetState s = reply StateReply (show_state (si_host S) hs s)"
| "app S hs GetAdmin s = reply (\<lambda>(a, b, c). AdminReply a b c) (admin_view S hs s)"
| "app S hs GetPolicies s = reply PolicyReply (show_policy (si_host S) hs s)"
| "app S hs (PostPolicy n spec) s = reply PolicyReply (save_policy (si_host S) hs n spec s)"
| "app S hs (PostPolicyTest body files) s = reply DecisionReply (policy_test (si_host S) hs body files s)"
| "app S hs GetDecisions s = reply DecisionsReply (list_decisions (si_host S) hs s)"
| "app S hs (PatchSettings t) s = reply SettingsReply (change_settings (si_host S) hs t s)"
| "app S hs (PostProvider t) s = reply ProviderReply (create_provider (si_host S) hs t s)"
| "app S hs (PatchProvider i t) s = reply ProviderReply (update_provider (si_host S) hs i t s)"
| "app S hs (DeleteProvider i) s = reply (\<lambda>_. NoContent) (remove_provider (si_host S) hs i s)"
| "app S hs (PostProbe i) s = reply ProviderReply (probe_provider S hs i s)"
| "app S hs (GetInteractions q) s = reply HistoryReply (show_history (si_host S) hs q s)"
| "app S hs DeleteInteractions s = reply (\<lambda>_. NoContent) (clear_history (si_host S) hs s)"
| "app S hs (GetInteraction i) s = reply InteractionReply (show_entry (si_host S) hs i s)"
| "app S hs (GetUsage p) s = reply UsageReply (show_usage (si_host S) hs p s)"
| "app S hs (GetLogs q) s = reply LogsReply (show_logs (si_host S) hs q s)"
| "app S hs GetMemories s = reply MemoriesReply (list_memories (si_host S) hs s)"
| "app S hs (PostMemory c st src) s = reply MemoryReply (create_memory (si_host S) hs c st src s)"
| "app S hs (PatchMemory i c st) s = reply MemoryReply (change_memory (si_host S) hs i c st s)"
| "app S hs (DeleteMemory i) s = reply (\<lambda>_. NoContent) (remove_memory (si_host S) hs i s)"
| "app S hs (DeleteSource i) s = reply (\<lambda>_. NoContent) (remove_source (si_host S) hs i s)"
| "app S hs GetGrants s = reply GrantsReply (list_grants (si_host S) hs s)"
| "app S hs (PostGrant g) s = reply (\<lambda>(x, c). GrantReply x c) (add_grant (si_host S) hs g s)"
| "app S hs (DeleteGrant i) s = reply (\<lambda>_. NoContent) (revoke_grant (si_host S) hs i s)"
| "app S hs (PostConsent b) s = reply ConsentReply (change_consent (si_host S) hs b s)"
| "app S hs (PostPrepare w) s = reply ReportReply (show_report S hs w s)"
| "app S hs (PostSend w) s = reply (\<lambda>(a, b, c). SentReply a b c) (send_report S hs w s)"
| "app S hs GetWork s = reply WorkReply (show_work (si_host S) hs s)"
| "app S hs (PostWork name ack) s = reply WorkReply (enable_installation (si_host S) hs name ack s)"
| "app S hs (PostClient name ds n) s = reply ClientReply (approve_client (si_host S) hs name ds n s)"
| "app S hs (DeleteClient i) s = reply (\<lambda>_. NoContent) (remove_client (si_host S) hs i s)"
| "app S hs GetConversations s = reply ConversationsReply (list_conversations (si_host S) hs s)"
| "app S hs (PostConversation x) s = reply ConversationReply (start_conversation (si_host S) hs x s)"
| "app S hs (GetConversation i) s = reply (\<lambda>(t, us). MessagesReply t us) (read_conversation (si_host S) hs i s)"
| "app S hs (DeleteConversation i) s = reply (\<lambda>_. NoContent) (remove_conversation (si_host S) hs i s)"
| "app S hs (PostAttempt i r ack) s = reply (\<lambda>_. NoContent) (clear_attempt (si_host S) hs i r ack s)"

section \<open>The owner only\<close>

definition owner_request :: "config \<Rightarrow> headers \<Rightarrow> bool" where
  "owner_request c hs \<longleftrightarrow> bearer hs = cf_local_token c
     \<and> (case header_text ''origin'' hs of None \<Rightarrow> True | Some x \<Rightarrow> x \<in> set (cf_origins c))"

lemma auth_admin_cases:
  "auth E n hs True s = (if owner_request (ho_config E) hs then (Inr Owner, s)
     else (Inl (if bearer hs = cf_local_token (ho_config E) then Api 403 ''Origin is not allowed''
            else Api 401 ''A valid local owner token is required''), s))"
  by (auto simp: auth_def owner_request_def require_def List.member_iff split: option.splits)

definition refusal :: "config \<Rightarrow> headers \<Rightarrow> api_error" where
  "refusal c hs = (if bearer hs = cf_local_token c then Api 403 ''Origin is not allowed''
     else Api 401 ''A valid local owner token is required'')"

lemma as_owner_cases:
  "as_owner E hs k s = (if owner_request (ho_config E) hs then k s else (Inl (refusal (ho_config E) hs), s))"
  by (simp add: as_owner_def auth_admin_cases refusal_def)

lemmas handler_defs =
  show_state_def admin_view_def show_policy_def save_policy_def policy_test_def list_decisions_def change_settings_def
  create_provider_def update_provider_def put_profile_def remove_provider_def probe_provider_def show_history_def
  clear_history_def show_entry_def show_usage_def show_logs_def list_memories_def create_memory_def change_memory_def
  remove_memory_def remove_source_def list_grants_def add_grant_def revoke_grant_def change_consent_def show_report_def
  send_report_def show_work_def enable_installation_def approve_client_def remove_client_def list_conversations_def
  start_conversation_def read_conversation_def remove_conversation_def clear_attempt_def

lemma app_refuses:
  "\<not> owner_request (ho_config (si_host S)) hs \<Longrightarrow> app S hs c s = (Inl (refusal (ho_config (si_host S)) hs), s)"
  by (cases c) (simp_all add: handler_defs as_owner_cases reply_def Let_def)

end
