(* ===== verification/OwnerProperties.thy ===== *)
theory OwnerProperties
  imports OwnerApi
begin

text \<open>
  The properties of the owner's API: it answers the owner only, it sends nothing but model discovery and
  consented reports, and it gives permissions for configured destinations and approved clients only.
\<close>

section \<open>What the handlers send\<close>

lemma sent_as_owner: "(\<And>s. sent (k s) = snd s) \<Longrightarrow> sent (as_owner E hs k s) = snd s"
  by (simp add: as_owner_cases)

lemma sent_then: "sent m = l \<Longrightarrow> (\<And>x s. sent (k x s) = snd s) \<Longrightarrow> sent (and_then m k) = l"
  by (cases m; cases "fst m") auto

lemma sent_steps [simp]:
  "sent (audit_event E n action details s) = snd s" "sent (returning x s) = snd s" "sent (found name b s) = snd s"
  "sent (require_collector c s) = snd s" "sent (entries key message v s) = snd s" "sent (reply f m) = sent m"
  by (simp_all add: audit_event_def returning_def found_def require_collector_def entries_def reply_def sent_then)

lemma sent_give_grant [simp]: "sent (give_grant E g destination s) = snd s"
proof -
  have "sent (case gi_client g of None \<Rightarrow> (Inr (), s) | Some i \<Rightarrow> on_vault f (r i) s) = snd s" for f s
    and r :: "string \<Rightarrow> db \<Rightarrow> unit stmts"
    by (cases "gi_client g") simp_all
  then show ?thesis unfolding give_grant_def by (intro sent_then) simp_all
qed

lemma sent_report_of [simp]: "sent (report_of S week s) = snd s"
  by (simp add: report_of_def Let_def)

lemma sent_save_probe [simp]: "sent (save_probe E p x s) = snd s"
  unfolding save_probe_def by (intro sent_then) simp_all

definition sends_nothing :: "owner_call \<Rightarrow> bool" where
  "sends_nothing c = (case c of PostProbe i \<Rightarrow> False | PostSend w \<Rightarrow> False | _ \<Rightarrow> True)"

lemma app_quiet: "sends_nothing c \<Longrightarrow> sent (app S hs c s) = snd s"
  by (cases c) (auto simp: sends_nothing_def handler_defs Let_def intro!: sent_as_owner sent_then split: option.split)

text \<open>The requests of a discovery: no body, the provider's own credential and address.\<close>

definition probe_of :: "site \<Rightarrow> provider \<Rightarrow> outbound \<Rightarrow> bool" where
  "probe_of S p x \<longleftrightarrow> (\<exists>url. x = probe_request (ho_platform (si_host S)) p url
     \<and> (url = models_url p \<or> (\<exists>root. si_root S (pv_base p) = Some root \<and> is_loopback_url (ho_platform (si_host S)) (pv_base p)
         \<and> url \<in> {root @ ''api/tags'', root @ ''api/ps''})))"

definition logs_probes :: "site \<Rightarrow> provider \<Rightarrow> nat \<Rightarrow> outbound list \<Rightarrow> outbound list \<Rightarrow> bool" where
  "logs_probes S p n l l' \<longleftrightarrow> (\<exists>xs. l' = l @ xs \<and> length xs \<le> n \<and> (\<forall>x \<in> set xs. probe_of S p x))"

lemma logs_probes_none [simp]: "logs_probes S p n l l"
  by (simp add: logs_probes_def)

lemma logs_probes_then: "logs_probes S p n l l1 \<Longrightarrow> logs_probes S p m l1 l2 \<Longrightarrow> n + m \<le> k \<Longrightarrow> logs_probes S p k l l2"
  by (fastforce simp: logs_probes_def)

lemma probes_then:
  assumes "logs_probes S p n l (sent m)"
    and "\<And>x s. m = (Inr x, s) \<Longrightarrow> logs_probes S p n' (snd s) (sent (k x s))" and "n + n' \<le> N"
  shows "logs_probes S p N l (sent (and_then m k))"
proof -
  obtain r s where m: "m = (r, s)" by (rule prod.exhaust)
  show ?thesis
  proof (cases r)
    case (Inl e)
    with assms(1) m have "logs_probes S p n l (snd s)" by simp
    from logs_probes_then [OF this logs_probes_none [of S p n']] assms(3) Inl m show ?thesis by simp
  next
    case (Inr x)
    with assms m show ?thesis by (auto intro: logs_probes_then)
  qed
qed

lemma sent_probe_json [simp]:
  "sent (probe_json E p url s) = snd s @ [probe_request (ho_platform E) p url]"
  by (auto simp: probe_json_def Let_def intro!: sent_then split: answer.split)

lemma probe_json_probes:
  assumes "probe_of S p (probe_request (ho_platform (si_host S)) p url)"
  shows "logs_probes S p 1 (snd s) (sent (probe_json (si_host S) p url s))"
  using assms by (simp add: logs_probes_def)

lemma ollama_probes: "logs_probes S p 2 (snd s) (sent (ollama_models S p s))"
proof (cases "pv_kind p = ''ollama'' \<and> is_loopback_url (ho_platform (si_host S)) (pv_base p)")
  case True
  have one: "probe_of S p (probe_request (ho_platform (si_host S)) p url)"
    if "si_root S (pv_base p) = Some root" "url \<in> {root @ ''api/tags'', root @ ''api/ps''}" for root url
    using True that by (auto simp: probe_of_def)
  have rest: "logs_probes S p 2 (snd s) (sent (
      and_then (probe_json (si_host S) p (root @ ''api/tags'') s) (\<lambda>tags s.
      and_then (probe_json (si_host S) p (root @ ''api/ps'') s) (\<lambda>loaded s.
      and_then (entries ''models'' a tags s) (\<lambda>tags s.
      and_then (entries ''models'' b loaded s) (\<lambda>loaded.
      returning (catalog_names ''name'' tags, Some (List.map_filter loaded_model (take 1000 loaded)))))))))"
    if "si_root S (pv_base p) = Some root" for root s a b
  proof (rule probes_then [where n = 1 and n' = 1])
    show "logs_probes S p 1 (snd s) (sent (probe_json (si_host S) p (root @ ''api/tags'') s))"
      by (intro probe_json_probes one [OF that]) simp
  next
    fix tags s1
    show "logs_probes S p 1 (snd s1) (sent (and_then (probe_json (si_host S) p (root @ ''api/ps'') s1) (\<lambda>loaded s.
      and_then (entries ''models'' a tags s) (\<lambda>tags s.
      and_then (entries ''models'' b loaded s) (\<lambda>loaded.
      returning (catalog_names ''name'' tags, Some (List.map_filter loaded_model (take 1000 loaded))))))))"
      by (rule probes_then [where n = 1 and n' = 0], intro probe_json_probes one [OF that])
        (simp_all add: sent_then)
  qed simp
  from True show ?thesis
    unfolding ollama_models_def Let_def if_P [OF True]
    by (intro probes_then [where n = 0 and n' = 2] rest) (auto simp: res_simps)
next
  case False
  then show ?thesis unfolding ollama_models_def Let_def if_not_P [OF False] by simp
qed

lemma discover_probes:
  "logs_probes S p 3 (snd s) (sent (discover S p s))
   \<and> (sent (discover S p s) \<noteq> snd s \<longrightarrow> policy_allowed (ho_config (si_host S)) p)"
proof -
  have "logs_probes S p 3 (snd s) (sent (discover S p s))"
    unfolding discover_def Let_def
  proof (rule probes_then [where n = 0 and n' = 3], goal_cases)
    case (2 u s1)
    show ?case
    proof (rule probes_then [where n = 1 and n' = 2], goal_cases)
      case 1
      show ?case by (rule probe_json_probes) (auto simp: probe_of_def)
    next
      case (2 catalog s2)
      show ?case
      proof (rule probes_then [where n = 0 and n' = 2], goal_cases)
        case (2 data s3)
        show ?case by (rule probes_then [where n = 2 and n' = 0], rule ollama_probes) (auto split: prod.split)
      qed simp_all
    qed simp
  qed simp_all
  moreover have "sent (discover S p s) = snd s" if "\<not> policy_allowed (ho_config (si_host S)) p"
    using that by (simp add: discover_def Let_def require_def)
  ultimately show ?thesis by blast
qed

lemma probe_provider_sends:
  assumes "probe_provider S hs i s = (r, s')" and "snd s' \<noteq> snd s"
  shows "\<exists>p s1. enter (si_host S) 1 s = (Inr (), s1) \<and> read_provider i (fst s1) = Inr p
     \<and> policy_allowed (ho_config (si_host S)) p \<and> logs_probes S p 3 (snd s) (snd s')"
proof -
  let ?E = "si_host S"
  have own: "owner_request (ho_config ?E) hs"
    using assms by (auto simp: probe_provider_def as_owner_cases Let_def split: if_splits)
  obtain r1 s1 where 1: "in_vault ?E 1 bad (reading (read_provider i)) s = (r1, s1)" by (rule prod.exhaust)
  then have l1: "snd s1 = snd s" using sent_in_vault [of ?E 1 bad "reading (read_provider i)" s] by simp
  obtain p where p: "r1 = Inr p"
    using assms 1 l1 own by (cases r1) (auto simp: probe_provider_def as_owner_cases Let_def)
  obtain r2 s2 where 2: "discover S p s1 = (r2, s2)" by (rule prod.exhaust)
  have "snd s' = snd s2"
  proof (cases r2)
    case (Inl e)
    have "(r, s') = (case e of Api code message \<Rightarrow> save_probe ?E p (failed_discovery ?E p code message) s2
        | Cancelled \<Rightarrow> (Inl Cancelled, s2))"
      using assms(1) own 1 p 2 Inl by (cases e) (simp_all add: probe_provider_def as_owner_cases Let_def)
    then show ?thesis by (cases e) (auto dest: sym simp: sent_done [OF _ sent_save_probe])
  next
    case (Inr x)
    then have "save_probe ?E p x s2 = (r, s')"
      using assms(1) own 1 p 2 by (simp add: probe_provider_def as_owner_cases Let_def)
    then show ?thesis by (rule sent_done) simp
  qed
  with discover_probes [of S p s1] 2 l1 assms(2) have "logs_probes S p 3 (snd s) (snd s')"
    "policy_allowed (ho_config ?E) p" by simp_all
  moreover obtain s0 where "enter ?E 1 s = (Inr (), s0)" "read_provider i (fst s0) = Inr p"
    using 1 p by (auto simp: res_simps)
  ultimately show ?thesis by blast
qed

lemma send_report_sends:
  assumes "send_report S hs week s = (r, s')" and "snd s' \<noteq> snd s"
  shows "\<exists>x sa sb. report_of S week s = (Inr x, sa) \<and> enter (si_host S) 2 sa = (Inr (), sb)
     \<and> consent (cf_analytics_opt_in (ho_config (si_host S))) (fst sb) \<and> cf_analytics_url (ho_config (si_host S)) \<noteq> []
     \<and> snd s' = snd s @ [report_request S x]"
proof -
  let ?E = "si_host S" and ?c = "ho_config (si_host S)"
  have own: "owner_request ?c hs"
    using assms by (auto simp: send_report_def as_owner_cases Let_def split: if_splits)
  have fin: "sent (let q = report_request S x; a = ho_answer ?E q; s = (fst s1, snd s1 @ [q]);
          accepted = (case status_of a of None \<Rightarrow> False | Some n \<Rightarrow> success_status n) in
      if a = Abandoned then (Inl Cancelled, s)
      else and_then (enter ?E 3 s) (\<lambda>_ s.
           and_then (audit_event ?E 3 ''analytics_report_sent''
             (no_details\<lparr>ad_error := (if accepted then None else Some ''provider_unavailable'')\<rparr>) s) (\<lambda>_ s.
           if accepted then (Inr (rp_id x, rp_week x, the (status_of a)), s)
           else (Inl (Api 502 ''Analytics collector unavailable or rejected this report; retry reuses the existing noise''), s))))
      = snd s1 @ [report_request S x]" for x s1
    by (auto simp: Let_def intro!: sent_then)
  show ?thesis
    using assms own unfolding send_report_def Let_def [of "si_host S"] Let_def [of "ho_config _"] as_owner_cases if_P [OF own]
    apply -
    apply ((erule quiet_stepE, assumption, simp only: sent_quiet sent_in_vault sent_steps sent_report_of)+)
    apply (unfold require_Inr)
    apply (elim conjE)
    apply hypsubst
    apply (drule sent_done [OF _ fin])
    apply (auto simp: res_simps require_collector_def)
    done
qed

lemma add_grant_Inr:
  assumes "add_grant E hs g s = (Inr (x, client), s')"
  shows "owner_request (ho_config E) hs \<and> client = gi_client g
     \<and> (\<exists>destination s1 ps s2. normalize_base (ho_platform E) (gi_destination g) = Inr destination
       \<and> enter E 1 s = (Inr (), s1) \<and> read_providers (fst s1) = Inr ps
       \<and> (configured_destination (ho_config E) destination ps \<or> destination = mcp_destination)
       \<and> enter E 2 s1 = (Inr (), s2)
       \<and> (\<exists>row. row \<in> set (d_grants (fst s')) \<and> gr_id row = g_id x \<and> gr_destination row = destination
            \<and> gr_scope row = Some (gi_scope g) \<and> gr_revoked row = None)
       \<and> (case client of None \<Rightarrow> True
          | Some i \<Rightarrow> \<lparr>wg_grant = g_id x, wg_client = i\<rparr> \<in> set (d_bindings (fst s'))
              \<and> (\<exists>c. active_client (ho_platform E) (clock_at E 2) i (fst s2) = Inr c \<and> destination \<in> set (cl_destinations c))))"
proof -
  have own: "owner_request (ho_config E) hs" using assms by (auto simp: add_grant_def as_owner_cases split: if_splits)
  obtain destination s1 ps where n: "normalize_base (ho_platform E) (gi_destination g) = Inr destination"
    "enter E 1 s = (Inr (), s1)" "read_providers (fst s1) = Inr ps"
    "configured_destination (ho_config E) destination ps \<or> destination = mcp_destination"
    and gg: "give_grant E g destination s1 = (Inr (x, client), s')"
    using assms own by (auto simp: add_grant_def as_owner_cases res_simps)
  obtain s2 u d3 v where e: "enter E 2 s1 = (Inr (), s2)"
    and a: "(case gi_client g of None \<Rightarrow> (Inr (), s2)
      | Some i \<Rightarrow> on_vault bad (reading (authorize_principal (ho_platform E) (clock_at E 2) (Client i) destination None)) s2) = (Inr (), s2)"
    and c: "create_grant (ho_platform E) (draw_at E 3) destination (gi_scope g)
         (case gi_seconds g of None \<Rightarrow> 3600 | Some n \<Rightarrow> n) (fst s2) = Inr (x, d3)"
    and b: "(case gi_client g of None \<Rightarrow> (Inr (), (d3, snd s2))
      | Some i \<Rightarrow> on_vault bad (committing (bind_work_grant (ho_platform E) (clock_at E 4) (g_id x) i destination)) (d3, snd s2)) = (Inr v, s')"
    and cl: "client = gi_client g"
    using gg by (cases "gi_client g") (auto simp: give_grant_def returning_def res_simps)
  note cg = create_grant_Inr [OF c]
  then have d3: "d_grants d3 = d_grants (fst s2) @ [\<lparr>gr_id = g_id x, gr_destination = destination, gr_scope = Some (gi_scope g),
      gr_expires = g_expires x, gr_revoked = None, gr_created = g_created x\<rparr>]"
    using audit_on_frame by (auto simp: audit_on_frame)
  have "d_grants (fst s') = d_grants d3"
    using b by (cases "gi_client g") (auto simp: res_simps dest!: bind_work_grant_Inr)
  with d3 have "\<lparr>gr_id = g_id x, gr_destination = destination, gr_scope = Some (gi_scope g), gr_expires = g_expires x,
      gr_revoked = None, gr_created = g_created x\<rparr> \<in> set (d_grants (fst s'))" by simp
  then have row: "\<exists>row. row \<in> set (d_grants (fst s')) \<and> gr_id row = g_id x \<and> gr_destination row = destination
            \<and> gr_scope row = Some (gi_scope g) \<and> gr_revoked row = None"
    by (intro exI conjI) (assumption, simp_all)
  have "case client of None \<Rightarrow> True
          | Some i \<Rightarrow> \<lparr>wg_grant = g_id x, wg_client = i\<rparr> \<in> set (d_bindings (fst s'))
              \<and> (\<exists>c. active_client (ho_platform E) (clock_at E 2) i (fst s2) = Inr c \<and> destination \<in> set (cl_destinations c))"
    using a b cl by (cases "gi_client g") (auto simp: res_simps dest!: bind_work_grant_Inr authorize_client_Inr)
  with own cl n e row show ?thesis by blast
qed

section \<open>Properties\<close>

text \<open>C17: The owner's API is the owner's: whichever of its operations is asked for, without the local token, or
  from a browser origin that is not allowed, it is refused with status 401 or 403 before anything is
  read, changed or sent.\<close>

theorem owner_api_is_the_owners:
  assumes "bearer hs \<noteq> cf_local_token (ho_config (si_host S))
     \<or> (\<exists>x. header_text ''origin'' hs = Some x \<and> x \<notin> set (cf_origins (ho_config (si_host S))))"
  shows "\<exists>code message. code \<in> {401, 403} \<and> app S hs c s = (Inl (Api code message), s)"
proof -
  have "\<not> owner_request (ho_config (si_host S)) hs" using assms by (auto simp: owner_request_def)
  from app_refuses [OF this] show ?thesis by (auto simp: refusal_def)
qed

definition demo_site :: site where
  "demo_site = \<lparr>si_host = gate_host, si_mechanism = demo_mechanism, si_root = (\<lambda>_. None), si_redact = (\<lambda>_. None),
     si_report = (\<lambda>_. JNull), si_os = ''linux'', si_pid = 1\<rparr>"

lemma owner_api_is_the_owners_witness:
  "\<exists>code message. code \<in> {401, 403}
     \<and> app demo_site [(''authorization'', Some ''Bearer agent'')] (DeleteMemory ''m1'') (gate_db, []) = (Inl (Api code message), gate_db, [])"
proof -
  have "bearer [(''authorization'', Some ''Bearer agent'')] \<noteq> cf_local_token (ho_config (si_host demo_site))"
    by (simp add: bearer_def header_text_def strip_prefix_def demo_site_def demo_core_def)
  then show ?thesis by (intro owner_api_is_the_owners) simp
qed

text \<open>C18: The owner's API sends no content: of all its operations only two hand anything to the HTTP client.
  A discovery sends at most three requests without a body, with the credential of the stored provider, to
  addresses of that provider, which must be on the allowlist; sending a report sends exactly one released
  report to the configured collector, after the consent was found in the vault again.\<close>

theorem owner_api_sends_no_content:
  assumes "app S hs c s = (r, s')"
  shows "snd s' = snd s \<or> owner_request (ho_config (si_host S)) hs \<and>
     (case c of
        PostProbe i \<Rightarrow> \<exists>p s1 xs. enter (si_host S) 1 s = (Inr (), s1) \<and> read_provider i (fst s1) = Inr p
          \<and> policy_allowed (ho_config (si_host S)) p \<and> snd s' = snd s @ xs \<and> length xs \<le> 3
          \<and> list_all (\<lambda>x. ob_body x = None \<and> ob_headers x = key_headers p \<and> probe_of S p x) xs
      | PostSend week \<Rightarrow> \<exists>x sa sb. report_of S week s = (Inr x, sa) \<and> enter (si_host S) 2 sa = (Inr (), sb)
          \<and> consent (cf_analytics_opt_in (ho_config (si_host S))) (fst sb)
          \<and> (\<exists>row. row \<in> set (d_reports (fst sa)) \<and> ar_payload row = Some x)
          \<and> snd s' = snd s @ [report_request S x]
      | _ \<Rightarrow> False)"
proof (cases "snd s' = snd s")
  case False
  then have own: "owner_request (ho_config (si_host S)) hs"
    using app_refuses [of S hs c s] assms by auto
  have "\<not> sends_nothing c" using False app_quiet [of c S hs s] assms by auto
  then consider i where "c = PostProbe i" | week where "c = PostSend week"
    by (cases c) (simp_all add: sends_nothing_def)
  then show ?thesis
  proof cases
    case 1
    obtain r0 where "probe_provider S hs i s = (r0, s')"
      using assms 1 by (cases "probe_provider S hs i s"; cases "fst (probe_provider S hs i s)") (auto simp: reply_def)
    from probe_provider_sends [OF this False] obtain p s1 xs where
      "enter (si_host S) 1 s = (Inr (), s1)" "read_provider i (fst s1) = Inr p"
      "policy_allowed (ho_config (si_host S)) p" "snd s' = snd s @ xs" "length xs \<le> 3" "\<forall>x \<in> set xs. probe_of S p x"
      by (auto simp: logs_probes_def)
    moreover have "ob_body x = None \<and> ob_headers x = key_headers p" if "probe_of S p x" for x p
      using that by (auto simp: probe_of_def probe_request_def)
    ultimately show ?thesis using own 1 by (auto simp: list_all_iff)
  next
    case 2
    obtain r0 where "send_report S hs week s = (r0, s')"
      using assms 2 by (cases "send_report S hs week s"; cases "fst (send_report S hs week s)") (auto simp: reply_def)
    from send_report_sends [OF this False] obtain x sa sb where x: "report_of S week s = (Inr x, sa)"
      "enter (si_host S) 2 sa = (Inr (), sb)" "consent (cf_analytics_opt_in (ho_config (si_host S))) (fst sb)"
      "snd s' = snd s @ [report_request S x]" by blast
    from x(1) obtain row where row: "row \<in> set (d_reports (fst sa))" "ar_payload row = Some x"
      by (auto simp: report_of_def Let_def res_simps t_find_def dest!: prepare_report_stored find_SomeD)
    show ?thesis unfolding 2 owner_call.case using x own row by blast
  qed
qed simp

lemma demo_owner: "owner_request (ho_config gate_host) capture_headers"
  by (simp add: owner_request_def bearer_def header_text_def capture_headers_def strip_prefix_def demo_core_def)

lemma demo_probe:
  "sent (app demo_site capture_headers (PostProbe ''p'') (gate_db, []))
     = [probe_request demo_platform gate_provider (models_url gate_provider)]"
proof -
  have p: "d_providers gate_db = Some (Some [gate_provider])" by (simp add: gate_db_def)
  have host: "si_host demo_site = gate_host" by (simp add: demo_site_def)
  have rd: "read_provider ''p'' gate_db = Inr gate_provider"
    by (simp add: read_provider_def read_providers_def read_document_def ok_or_def p gate_provider_def)
  have allowed: "policy_allowed (demo_core\<lparr>cf_allowlist := [''https://a'']\<rparr>) gate_provider"
    by (simp add: policy_allowed_def List.member_iff)
  have ans: "ho_answer gate_host q = Answered \<lparr>rs_status = 200, rs_announced = None, rs_headers = [], rs_body = []\<rparr>" for q
    by (simp add: gate_host_def)
  let ?q = "probe_request demo_platform gate_provider (models_url gate_provider)"
  obtain e where d: "discover demo_site gate_provider (gate_db, []) = (Inl e, gate_db, [?q])"
    by (simp add: discover_def host Let_def require_def allowed probe_json_def ans success_status_def read_bounded_body_def check_def)
  show ?thesis
    using demo_owner by (cases e) (simp_all add: probe_provider_def host as_owner_cases Let_def in_vault_def gate_enter [OF p]
      on_vault_def reading_def rd d)
qed

lemma owner_api_sends_no_content_witness:
  "\<exists>r s' xs. app demo_site capture_headers (PostProbe ''p'') (gate_db, []) = (r, s') \<and> snd s' = xs \<and> length xs = 1
     \<and> list_all (\<lambda>x. ob_body x = None \<and> ob_headers x = key_headers gate_provider) xs"
proof -
  obtain r s' where a: "app demo_site capture_headers (PostProbe ''p'') (gate_db, []) = (r, s')" by (rule prod.exhaust)
  then have l: "snd s' = [probe_request demo_platform gate_provider (models_url gate_provider)]" using demo_probe by simp
  have p: "d_providers gate_db = Some (Some [gate_provider])" by (simp add: gate_db_def)
  have rd: "read_provider ''p'' gate_db = Inr gate_provider"
    by (simp add: read_provider_def read_providers_def read_document_def ok_or_def p gate_provider_def)
  have host: "si_host demo_site = gate_host" by (simp add: demo_site_def)
  from owner_api_sends_no_content [OF a] l have "list_all (\<lambda>x. ob_body x = None \<and> ob_headers x = key_headers gate_provider) (snd s')"
    by (auto simp: host gate_enter [OF p] rd list_all_iff)
  with a l show ?thesis by auto
qed

text \<open>C19: A permission is for a configured destination: the API gives a permission only to the owner's
  request, for the memory tools or the address of a configured provider on the allowlist, as normalized;
  and for a client only if it is approved for that address, active, and then bound to the permission.\<close>

theorem permissions_are_for_configured_destinations:
  assumes "app S hs (PostGrant g) s = (Inr (GrantReply x client), s')"
  shows "owner_request (ho_config (si_host S)) hs \<and> client = gi_client g
     \<and> (\<exists>destination s1 ps s2. normalize_base (ho_platform (si_host S)) (gi_destination g) = Inr destination
       \<and> enter (si_host S) 1 s = (Inr (), s1) \<and> read_providers (fst s1) = Inr ps
       \<and> (configured_destination (ho_config (si_host S)) destination ps \<or> destination = mcp_destination)
       \<and> enter (si_host S) 2 s1 = (Inr (), s2)
       \<and> (\<exists>row. row \<in> set (d_grants (fst s')) \<and> gr_id row = g_id x \<and> gr_destination row = destination
            \<and> gr_scope row = Some (gi_scope g) \<and> gr_revoked row = None)
       \<and> (case client of None \<Rightarrow> True
          | Some i \<Rightarrow> \<lparr>wg_grant = g_id x, wg_client = i\<rparr> \<in> set (d_bindings (fst s'))
              \<and> (\<exists>c. active_client (ho_platform (si_host S)) (clock_at (si_host S) 2) i (fst s2) = Inr c
                    \<and> destination \<in> set (cl_destinations c))))"
proof -
  have "add_grant (si_host S) hs g s = (Inr (x, client), s')" using assms by (auto simp: reply_def res_simps)
  from add_grant_Inr [OF this] show ?thesis .
qed

definition demo_office :: db where
  "demo_office = demo_work\<lparr>d_settings := d_settings gate_db, d_providers := Some (Some [gate_provider])\<rparr>"

definition demo_permission :: grant_input where
  "demo_permission = \<lparr>gi_client = Some ''c1'', gi_destination = ''https://a'', gi_scope = [''*''], gi_seconds = None\<rparr>"

lemma demo_grants:
  "\<exists>x s'. app demo_site capture_headers (PostGrant demo_permission) (demo_office, []) = (Inr (GrantReply x (Some ''c1'')), s')"
proof -
  have p: "d_providers demo_office = Some (Some [gate_provider])" by (simp add: demo_office_def)
  have host: "si_host demo_site = gate_host" by (simp add: demo_site_def)
  have n: "normalize_base demo_platform ''https://a'' = Inr ''https://a''"
    by (simp add: normalize_base_def demo_platform_def trim_def trim_start_def trim_end_def strip_with.simps white_space_def
        url_is_loopback_def trim_end_char_def trim_start_char_def)
  have ps: "read_providers demo_office = Inr [gate_provider]" by (simp add: read_providers_def read_document_def p)
  have conf: "configured_destination (demo_core\<lparr>cf_allowlist := [''https://a'']\<rparr>) ''https://a'' [gate_provider]"
    by (simp add: configured_destination_def policy_allowed_def List.member_iff)
  let ?c = "\<lparr>cl_id = ''c1'', cl_label = ''editor'', cl_destinations = [''https://a''], cl_expires = ''100'',
      cl_revoked = None, cl_created = ''1''\<rparr>"
  have "active_client demo_platform 3 ''c1'' demo_work = Inr ?c" by code_simp
  then have cl: "active_client demo_platform 3 ''c1'' d = Inr ?c"
    if "d_clients d = d_clients demo_work" "d_instance d = d_instance demo_work" for d
    using that by (simp add: active_client_def work_enabled_def work_clients_def)
  have az: "authorize_principal demo_platform 3 (Client ''c1'') ''https://a'' None demo_office = Inr ()"
    by (simp add: authorize_principal_def cl demo_office_def)
  have e1: "audit_checks ''grant_created'' (entity ''u'') = Inr ()"
    by (simp add: audit_checks_def entity_def no_details_def opt_check_def opt_all_def valid_action_def audit_actions_def
        List.member_iff valid_identifier_def metric_def ascii_alphanumeric_def ascii_upper_def ascii_lower_def ascii_digit_def)
  obtain x d where g: "create_grant demo_platform (demo_draw 3 ''u'') ''https://a'' [''*''] 3600 demo_office = Inr (x, d)"
    by (auto simp: create_grant_def List.member_iff Let_def t_insert_def audited_def audit_on_def e1 journal_timestamp_def
        demo_office_def demo_work_def demo_vault_def empty_db_def demo_draw_def)
  note cg = create_grant_Inr [OF g]
  have x: "g_id x = ''u''" using cg by (simp add: demo_draw_def)
  obtain grant where gs: "audit_on demo_platform (demo_draw 3 ''u'') 1 ''grant_created'' (entity (uuid (demo_draw 3 ''u'') 0))
      (demo_office\<lparr>d_grants := d_grants demo_office @ [grant]\<rparr>) = Inr d" "gr_id grant = ''u''"
    using cg by (auto simp: demo_draw_def)
  note fr = audit_on_frame [OF gs(1)]
  have dd: "d_clients d = d_clients demo_work" "d_instance d = d_instance demo_work" "d_bindings d = d_bindings demo_work"
    "''u'' \<in> gr_id ` set (d_grants d)" using gs(2) by (simp_all add: fr demo_office_def)
  have "list_ex (\<lambda>x. x = ''https://a'') (cl_destinations ?c)" by simp
  then obtain d2 where b: "bind_work_grant demo_platform 3 ''u'' ''c1'' ''https://a'' d = Inr ((), d2)"
    using dd by (simp add: bind_work_grant_def cl t_insert_def demo_work_def demo_vault_def empty_db_def)
  show ?thesis
    using demo_owner by (simp add: add_grant_def host as_owner_cases check_def demo_permission_def n in_vault_def gate_enter [OF p]
      on_vault_def reading_def ps require_def conf give_grant_def az committing_def commit_def g x b returning_def reply_def)
qed

lemma permissions_are_for_configured_destinations_witness:
  "\<exists>x s'. app demo_site capture_headers (PostGrant demo_permission) (demo_office, []) = (Inr (GrantReply x (Some ''c1'')), s')
     \<and> \<lparr>wg_grant = g_id x, wg_client = ''c1''\<rparr> \<in> set (d_bindings (fst s'))
     \<and> (\<exists>row. row \<in> set (d_grants (fst s')) \<and> gr_destination row = ''https://a'')"
proof -
  obtain x s' where a: "app demo_site capture_headers (PostGrant demo_permission) (demo_office, []) = (Inr (GrantReply x (Some ''c1'')), s')"
    using demo_grants by blast
  have n: "normalize_base demo_platform ''https://a'' = Inr ''https://a''"
    by (simp add: normalize_base_def demo_platform_def trim_def trim_start_def trim_end_def strip_with.simps white_space_def
        url_is_loopback_def trim_end_char_def trim_start_char_def)
  have f: "gi_destination demo_permission = ''https://a''" "ho_platform (si_host demo_site) = demo_platform"
    by (simp_all add: demo_permission_def demo_site_def)
  from permissions_are_for_configured_destinations [OF a, unfolded f n] have
    "\<lparr>wg_grant = g_id x, wg_client = ''c1''\<rparr> \<in> set (d_bindings (fst s'))"
    "\<exists>row. row \<in> set (d_grants (fst s')) \<and> gr_destination row = ''https://a''" by auto
  with a show ?thesis by blast
qed

end
