(* ===== verification/Core.thy ===== *)
theory Core
  imports OwnerProperties
begin

text \<open>
  The core service as a whole: the state machine of its atomic operations, the refinement of every
  handler (the owner's API, chat, both proxies, the restricted listener, capture and the memory tools) to it,
  and the invariants of the vault that follow for any requests, in any order and interleaving.
\<close>

section \<open>Atomic operations\<close>

datatype core_op =
    InVault vault_op
  | InAdmin admin_op
  | InPolicy policy_op
  | InJournal journal_op
  | InChat chat_op
  | InReports string bool bool
  | InWork work_op
  | Initialize

fun core_step :: "site \<Rightarrow> draw \<times> core_op \<Rightarrow> db \<Rightarrow> db" where
  "core_step S (w, InVault x) d = vault_step (ho_platform (si_host S)) (w, x) d"
| "core_step S (w, InAdmin x) d = admin_step (ho_platform (si_host S)) (w, x) d"
| "core_step S (w, InPolicy x) d = policy_step (ho_platform (si_host S)) (w, x) d"
| "core_step S (w, InJournal x) d = journal_step (ho_platform (si_host S)) (w, x) d"
| "core_step S (w, InChat x) d = chat_step (ho_platform (si_host S)) (w, x) d"
| "core_step S (w, InReports week dflt sim) d =
     report_step (ho_calendar (si_host S)) (si_mechanism S) (ho_platform (si_host S)) (w, week, dflt, sim) d"
| "core_step S (w, InWork x) d = work_step (ho_platform (si_host S)) (w, x) d"
| "core_step S (w, Initialize) d = after (initialize_admin (ho_platform (si_host S)) (ho_config (si_host S)) d) d"

text \<open>The states that operations of this handler and of the others lead to.\<close>

inductive evolves :: "site \<Rightarrow> db \<Rightarrow> db \<Rightarrow> bool" for S d where
  evolves_refl [simp, intro]: "evolves S d d"
| evolves_step: "evolves S d d' \<Longrightarrow> evolves S d (core_step S x d')"
| evolves_others: "evolves S d d' \<Longrightarrow> evolves S d (ho_others (si_host S) n d')"

lemma evolves_trans: "evolves S d1 d2 \<Longrightarrow> evolves S d0 d1 \<Longrightarrow> evolves S d0 d2"
  by (induction rule: evolves.induct) (auto intro: evolves_step evolves_others)

section \<open>Operations\<close>

definition sound_op :: "site \<Rightarrow> (db \<Rightarrow> 'a stmts) \<Rightarrow> bool" where
  "sound_op S m \<longleftrightarrow> (\<forall>d. evolves S d (snd (m d)))"

lemma soundI: "(\<And>d. core_step S x d = snd (m d)) \<Longrightarrow> sound_op S m"
  unfolding sound_op_def by (metis evolves_refl evolves_step)

lemma sound_step: "sound_op S m \<Longrightarrow> evolves S d (snd (m d))"
  by (simp add: sound_op_def)

lemma snd_committing: "snd (committing r d) = after (r d) d"
  by (simp add: committing_def after_def)

named_theorems sound_ops

lemma sound_reading [sound_ops]: "sound_op S (reading r)"
  by (simp add: sound_op_def reading_def)

lemma sound_add_memory [sound_ops]: "sound_op S (committing (add_memory (ho_platform (si_host S)) w c st src md))"
  by (rule soundI [of _ "(w, InVault (AddMemory c st src md))"]) (simp add: snd_committing after_def)

lemma sound_update_memory [sound_ops]: "sound_op S (committing (update_memory (ho_platform (si_host S)) w i c st))"
  by (rule soundI [of _ "(w, InVault (UpdateMemory i c st))"]) (simp add: snd_committing after_def)

lemma sound_delete_memory [sound_ops]: "sound_op S (committing (delete_memory (ho_platform (si_host S)) w i))"
  by (rule soundI [of _ "(w, InVault (vault_op.DeleteMemory i))"]) (simp add: snd_committing after_def)

lemma sound_delete_source [sound_ops]: "sound_op S (committing (delete_source (ho_platform (si_host S)) w i))"
  by (rule soundI [of _ "(w, InVault (vault_op.DeleteSource i))"]) (simp add: snd_committing after_def)

lemma sound_add_capture [sound_ops]: "sound_op S (committing (add_capture (ho_platform (si_host S)) w raw kind md ps))"
  by (rule soundI [of _ "(w, InVault (AddCapture raw kind md ps))"]) (simp add: snd_committing after_def)

lemma sound_create_grant [sound_ops]: "sound_op S (committing (create_grant (ho_platform (si_host S)) w dest scope n))"
  by (rule soundI [of _ "(w, InVault (CreateGrant dest scope n))"]) (simp add: snd_committing after_def)

lemma sound_revoke [sound_ops]: "sound_op S (committing (revoke (ho_platform (si_host S)) w i))"
  by (rule soundI [of _ "(w, InVault (Revoke i))"]) (simp add: snd_committing after_def)

lemma sound_add_receipt [sound_ops]: "sound_op S (committing (add_receipt (ho_platform (si_host S)) w dest ms g))"
  by (rule soundI [of _ "(w, InVault (AddReceipt dest ms g))"]) (simp add: snd_committing after_def)

lemma sound_current_receipt [sound_ops]: "sound_op S (committing (current_context_receipt (ho_platform (si_host S)) w dest g ms))"
  by (rule soundI [of _ "(w, InVault (CurrentReceipt dest g ms))"]) (simp add: snd_committing after_def)

lemma sound_set_consent [sound_ops]: "sound_op S (committing (set_consent (ho_platform (si_host S)) w b))"
  by (rule soundI [of _ "(w, InVault (SetConsent b))"]) (simp add: snd_committing after_def)

lemma sound_interaction [sound_ops]: "sound_op S (\<lambda>d. commit (interaction (ho_platform (si_host S)) w wk t l n ok d) d)"
  by (rule soundI [of _ "(w, InVault (Interaction wk t l n ok))"]) (simp add: snd_committing after_def)

lemma sound_receipt_status [sound_ops]: "sound_op S (\<lambda>d. (r, receipt_status i st d))"
  by (rule soundI [of _ "(w, InVault (ReceiptStatus i st))"]) (simp add: snd_committing after_def)

lemma sound_update_tokens [sound_ops]: "sound_op S (\<lambda>d. (r, update_interaction_tokens i n d))"
  by (rule soundI [of _ "(w, InVault (UpdateTokens i n))"]) (simp add: snd_committing after_def)

lemma sound_complete_interaction [sound_ops]: "sound_op S (\<lambda>d. (r, complete_interaction i n d))"
  by (rule soundI [of _ "(w, InVault (CompleteInteraction i n))"]) (simp add: snd_committing after_def)

lemma sound_patch_settings [sound_ops]: "sound_op S (committing (patch_admin_settings (ho_platform (si_host S)) t))"
  by (rule soundI [of _ "(w, InAdmin (admin_op.PatchSettings t))"]) (simp add: snd_committing after_def)

lemma sound_save_provider [sound_ops]: "sound_op S (committing (save_provider (ho_platform (si_host S)) w i t))"
  by (rule soundI [of _ "(w, InAdmin (SaveProvider i t))"]) (simp add: snd_committing after_def)

lemma sound_delete_provider [sound_ops]: "sound_op S (committing (delete_provider i))"
  by (rule soundI [of _ "(w, InAdmin (admin_op.DeleteProvider i))"]) (simp add: snd_committing after_def)

lemma sound_save_discovery [sound_ops]: "sound_op S (committing (save_discovery p x))"
  by (rule soundI [of _ "(w, InAdmin (SaveDiscovery p x))"]) (simp add: snd_committing after_def)

lemma sound_policy_save [sound_ops]: "sound_op S (committing (policy_save (ho_platform (si_host S)) w n spec))"
  by (rule soundI [of _ "(w, InPolicy (SavePolicy n spec))"]) (simp add: snd_committing after_def)

lemma sound_policy_evaluate [sound_ops]: "sound_op S (policy_evaluate (ho_platform (si_host S)) w managed content x persist)"
  by (rule soundI [of _ "(w, InPolicy (Evaluate managed content x persist))"]) (simp add: snd_committing after_def)

lemma sound_journal_start [sound_ops]: "sound_op S (journal_start (ho_platform (si_host S)) w entry)"
  by (rule soundI [of _ "(w, InJournal (StartInteraction entry))"]) (simp add: snd_committing after_def)

lemma sound_journal_finish [sound_ops]: "sound_op S (\<lambda>d. commit (journal_finish (ho_platform (si_host S)) w i f d) d)"
  by (rule soundI [of _ "(w, InJournal (FinishInteraction i f))"]) (simp add: snd_committing after_def)

lemma sound_journal_prune [sound_ops]: "sound_op S (journal_prune (ho_platform (si_host S)) (now_at (w :: draw)))"
  by (rule soundI [of _ "(w, InJournal PruneJournal)"]) (simp add: snd_committing after_def)

lemma sound_delete_history [sound_ops]: "sound_op S (committing (journal_delete_history (ho_platform (si_host S)) w))"
  by (rule soundI [of _ "(w, InJournal ClearHistory)"]) (simp add: snd_committing after_def)

lemma sound_audited [sound_ops]: "sound_op S (committing (audited (ho_platform (si_host S)) w 0 a x ()))"
  by (rule soundI [of _ "(w, InJournal (RecordAudit a x))"]) (simp add: snd_committing after_def)

lemma sound_create_conversation [sound_ops]: "sound_op S (create_conversation (ho_platform (si_host S)) w input dest)"
  by (rule soundI [of _ "(w, InChat (CreateConversation input dest))"]) (simp add: snd_committing after_def)

lemma sound_prepare_conversation [sound_ops]: "sound_op S (prepare_conversation (ho_platform (si_host S)) (now_at (w :: draw)) q)"
  by (rule soundI [of _ "(w, InChat (Prepare q))"]) (simp add: snd_committing after_def)

lemma sound_finish_conversation [sound_ops]: "sound_op S (finish_conversation (ho_platform (si_host S)) w p txt receipt ia)"
  by (rule soundI [of _ "(w, InChat (Finish p txt receipt ia))"]) (simp add: snd_committing after_def)

lemma sound_clear_attempt [sound_ops]: "sound_op S (committing (clear_conversation_attempt i r))"
  by (rule soundI [of _ "(w, InChat (ClearAttempt i r))"]) (simp add: snd_committing after_def)

lemma sound_delete_conversation [sound_ops]: "sound_op S (committing (delete_conversation (ho_platform (si_host S)) w i))"
  by (rule soundI [of _ "(w, InChat (chat_op.DeleteConversation i))"]) (simp add: snd_committing after_def)

lemma sound_conversations [sound_ops]: "sound_op S (conversations (ho_platform (si_host S)) (now_at (w :: draw)))"
  by (rule soundI [of _ "(w, InChat ListConversations)"]) (simp add: snd_committing after_def)

lemma sound_prepare_report [sound_ops]: "sound_op S (committing (prepare_report (ho_calendar (si_host S)) (si_mechanism S) (ho_platform (si_host S)) w week dflt sim))"
  by (rule soundI [of _ "(w, InReports week dflt sim)"]) (simp add: snd_committing after_def)

lemma sound_enable_work [sound_ops]: "sound_op S (committing (enable_work (ho_platform (si_host S)) w name))"
  by (rule soundI [of _ "(w, InWork (EnableWork name))"]) (simp add: snd_committing after_def)

lemma sound_create_client [sound_ops]: "sound_op S (committing (create_work_client (ho_platform (si_host S)) w name ds n))"
  by (rule soundI [of _ "(w, InWork (CreateClient name ds n))"]) (simp add: snd_committing after_def)

lemma sound_revoke_client [sound_ops]: "sound_op S (committing (revoke_client (ho_platform (si_host S)) w i))"
  by (rule soundI [of _ "(w, InWork (RevokeClient i))"]) (simp add: snd_committing after_def)

lemma sound_bind_grant [sound_ops]: "sound_op S (committing (bind_work_grant (ho_platform (si_host S)) (now_at (w :: draw)) g c dest))"
  by (rule soundI [of _ "(w, InWork (BindGrant g c dest))"]) (simp add: snd_committing after_def)

lemma sound_work_request [sound_ops]: "sound_op S (record_work_request (ho_platform (si_host S)) w i p r a b)"
  by (rule soundI [of _ "(w, InWork (RecordRequest i p r a b))"]) (simp add: snd_committing after_def)

lemma sound_initialize [sound_ops]: "sound_op S (\<lambda>d. commit (initialize_admin (ho_platform (si_host S)) (ho_config (si_host S)) d) d)"
  by (rule soundI [of _ "(w, Initialize)"]) (simp add: snd_committing after_def)

lemma then_stmt_keep: "snd (then_stmt m (\<lambda>x d. (f x d, d))) = snd m"
  by (cases m; cases "fst m") simp_all

lemma sound_journal_readers [sound_ops]:
  "sound_op S (journal_history (ho_platform (si_host S)) (now_at (w :: draw)) q)" "sound_op S (journal_entry (ho_platform (si_host S)) (now_at w) i)"
  "sound_op S (journal_usage (ho_platform (si_host S)) (now_at w) period)" "sound_op S (journal_logs (ho_platform (si_host S)) (now_at w) aq)"
  using sound_journal_prune [of S w]
  by (simp_all add: sound_op_def journal_history_def journal_entry_def journal_usage_def journal_logs_def then_stmt_keep)

lemma sound_conversation_messages [sound_ops]: "sound_op S (conversation_messages (ho_platform (si_host S)) (now_at (w :: draw)) i)"
  using sound_conversations [of S w]
  by (simp add: sound_op_def conversation_messages_def then_stmt_keep conversation_snd conversations_def Let_def)

lemma sound_then:
  assumes "sound_op S m" and "\<And>x. sound_op S (k x)"
  shows "sound_op S (\<lambda>d. then_stmt (m d) k)"
  unfolding sound_op_def
proof
  fix d
  show "evolves S d (snd (then_stmt (m d) k))"
    by (rule snd_then_stmt [where P = "evolves S d"])
      (use assms in \<open>auto simp: sound_op_def intro: evolves_trans\<close>)
qed

lemma sound_return: "sound_op S (\<lambda>d. (r, d))"
  by (simp add: sound_op_def)

lemma sound_new_trace [sound_ops]: "sound_op S (new_trace (ho_platform (si_host S)) w entry)"
  unfolding new_trace_def by (intro sound_then sound_ops sound_return)

lemma sound_record_metrics [sound_ops]:
  "sound_op S (record_metrics (si_host S) n m content receipt status)"
  unfolding record_metrics_def
  by (intro sound_then sound_ops) (cases receipt; simp add: sound_return sound_receipt_status)

section \<open>Handlers\<close>

text \<open>Where a handler has come to, from a given state.\<close>

definition sound_act :: "site \<Rightarrow> (world \<Rightarrow> 'a act) \<Rightarrow> bool" where
  "sound_act S k \<longleftrightarrow> (\<forall>s. evolves S (fst s) (fst (snd (k s))))"

named_theorems sound_acts

lemma sound_act_then:
  assumes "sound_act S m" and "\<And>x. sound_act S (k x)"
  shows "sound_act S (\<lambda>s. and_then (m s) k)"
  unfolding sound_act_def
proof
  fix s
  obtain r s1 where m: "m s = (r, s1)" by (rule prod.exhaust)
  have e: "evolves S (fst s) (fst s1)" using assms(1) unfolding sound_act_def by (metis m snd_conv)
  show "evolves S (fst s) (fst (snd (and_then (m s) k)))"
  proof (cases r)
    case (Inr x)
    have "evolves S (fst s1) (fst (snd (k x s1)))" using assms(2) unfolding sound_act_def by blast
    with m e Inr show ?thesis by (simp add: evolves_trans)
  qed (simp add: m e)
qed

lemma sound_act_steps [sound_acts]:
  "sound_act S (check f r)" "sound_act S (require b e)" "sound_act S (\<lambda>s. (r', s))" "sound_act S (Pair r')"
  "sound_act S (returning x)" "sound_act S (found name b)" "sound_act S (require_collector c)"
  "sound_act S (entries key message v)" "sound_act S (refuse_client who)" "sound_act S (require_policy_decision y)"
  by (auto simp: sound_act_def check_def require_def returning_def found_def require_collector_def entries_def
      refuse_client_def require_policy_decision_def split: sum.split)

lemma sound_on_vault [sound_acts]: "sound_op S m \<Longrightarrow> sound_act S (on_vault f m)"
  by (auto simp: sound_op_def sound_act_def on_vault_def split: prod.split sum.split)
    (metis snd_conv)+

lemma sound_enter [sound_acts]: "sound_act S (enter (si_host S) n)"
  unfolding sound_act_def
proof
  fix s :: world
  let ?d = "ho_others (si_host S) n (fst s)"
  have o: "evolves S (fst s) ?d" by (intro evolves_others evolves_refl)
  have "evolves S ?d (fst (snd (on_vault bad (\<lambda>d. commit (initialize_admin (ho_platform (si_host S)) (ho_config (si_host S)) d) d) (?d, snd s))))"
    using sound_on_vault [OF sound_initialize, of S bad] by (simp add: sound_act_def)
  with o show "evolves S (fst s) (fst (snd (enter (si_host S) n s)))"
    by (auto simp: enter_def Let_def intro: evolves_trans)
qed

lemma sound_in_vault [sound_acts]: "sound_op S m \<Longrightarrow> sound_act S (in_vault (si_host S) n f m)"
  unfolding in_vault_def by (intro sound_act_then sound_acts)

lemma sound_actI: "(\<And>s. evolves S (fst s) (fst (snd (k s)))) \<Longrightarrow> sound_act S k"
  by (simp add: sound_act_def)

lemma sound_at: "sound_act S k \<Longrightarrow> evolves S d (fst (snd (k (d, l))))"
  unfolding sound_act_def by (metis fst_conv)

lemma sound_actD: "sound_act S k \<Longrightarrow> k s = (r, s') \<Longrightarrow> evolves S (fst s) (fst s')"
  unfolding sound_act_def by (metis snd_conv)

text \<open>A step whose error ends the trace.\<close>

lemma sound_act_case:
  assumes "sound_act S m" and "\<And>e. sound_act S (h e)" and "\<And>x. sound_act S (k x)"
  shows "sound_act S (\<lambda>s. case m s of (Inl e, s) \<Rightarrow> h e s | (Inr x, s) \<Rightarrow> k x s)"
proof (rule sound_actI)
  fix s
  obtain r s1 where m: "m s = (r, s1)" by (rule prod.exhaust)
  have e: "evolves S (fst s) (fst s1)" using sound_actD [OF assms(1) m] .
  have "evolves S (fst s1) (fst (snd (h x s1)))" "evolves S (fst s1) (fst (snd (k y s1)))" for x y
    using assms(2,3) unfolding sound_act_def by blast+
  with e m show "evolves S (fst s) (fst (snd (case m s of (Inl e, s) \<Rightarrow> h e s | (Inr x, s) \<Rightarrow> k x s)))"
    by (cases r) (auto intro: evolves_trans)
qed

section \<open>Traces\<close>

definition sound_trace :: "site \<Rightarrow> (trace \<times> db \<Rightarrow> trace \<times> db) \<Rightarrow> bool" where
  "sound_trace S f \<longleftrightarrow> (\<forall>t d. evolves S d (snd (f (t, d))))"

lemma write_finish_sound: "evolves S d (write_finish (ho_platform (si_host S)) q t d)"
  using sound_step [OF sound_journal_finish [of S "oc_draw q" "tr_id t" "tr_finish t"], of d]
  by (simp add: write_finish_def)

lemma trace_complete_sound: "evolves S d (snd (trace_complete (ho_platform (si_host S)) q status err (t, d)))"
  by (simp add: trace_complete_def Let_def write_finish_sound)

lemma sound_traces [sound_acts]:
  "sound_trace S (trace_headers (ho_platform (si_host S)) q status)" "sound_trace S (trace_complete (ho_platform (si_host S)) q st err)"
  "sound_trace S (response_complete (ho_platform (si_host S)) q)" "sound_trace S (drop_trace (ho_platform (si_host S)) q)"
  by (auto simp: sound_trace_def trace_headers_def response_complete_def drop_trace_def Let_def write_finish_sound
      trace_complete_sound)

lemma tracing_sound:
  assumes "sound_trace S f"
  shows "evolves S (fst s) (fst (snd (tracing (si_host S) n f t s)))"
proof -
  have "evolves S (fst s) (ho_others (si_host S) n (fst s))" by (intro evolves_others evolves_refl)
  moreover have "evolves S (ho_others (si_host S) n (fst s)) (snd (f (t, ho_others (si_host S) n (fst s))))"
    using assms by (simp add: sound_trace_def)
  ultimately show ?thesis by (auto simp: tracing_def intro: evolves_trans split: prod.split)
qed

lemma dropped_sound: "evolves S (fst s) (fst (dropped (si_host S) n t s))"
  unfolding dropped_def by (intro tracing_sound sound_acts)

lemma sound_failing [sound_acts]: "sound_act S (failing (si_host S) n code e t)"
  by (rule sound_actI) (simp only: failing_def snd_conv tracing_sound [OF sound_traces(2)])

lemma sound_dropping [sound_acts]: "sound_act S (\<lambda>s. (r, dropped (si_host S) n t s))"
  by (rule sound_actI) (simp add: dropped_sound)

lemma track_chunks_sound: "evolves S (snd td) (snd (snd (track_chunks (ho_platform (si_host S)) limit as body td)))"
proof (induction "(ho_platform (si_host S))" limit as body td rule: track_chunks.induct)
  case (1 limit q c as body t d)
  then show ?case using trace_complete_sound [of S d q "''failed''"] by (auto simp: Let_def)
qed (use trace_complete_sound in \<open>auto simp: Let_def\<close>)

lemma sound_read_reply [sound_acts]: "sound_act S (read_reply (si_host S) n limit r t)"
proof (rule sound_actI)
  fix s :: world
  let ?d = "ho_others (si_host S) n (fst s)"
  have o: "evolves S (fst s) ?d" by (intro evolves_others evolves_refl)
  obtain x t1 d1 where x: "read_tracked_body (ho_platform (si_host S)) (ho_at (si_host S) n) limit (rs_announced r) (rs_body r) (t, ?d) = (x, t1, d1)"
    by (rule prod_cases3)
  have "evolves S ?d (snd (snd (read_tracked_body (ho_platform (si_host S)) (ho_at (si_host S) n) limit (rs_announced r) (rs_body r) (t, ?d))))"
    using track_chunks_sound [of S "(t, ?d)" limit "rs_body r" "[]"] trace_complete_sound
    by (auto simp: read_tracked_body_def)
  with x o have "evolves S (fst s) d1" by (auto intro: evolves_trans)
  with x show "evolves S (fst s) (fst (snd (read_reply (si_host S) n limit r t s)))"
    using dropped_sound [of S "(d1, snd s)" "Suc n" t1] by (cases x) (auto simp: read_reply_def intro: evolves_trans)
qed

lemma sound_traceD: "sound_trace S f \<Longrightarrow> evolves S (snd td) (snd (f td))"
  by (cases td) (simp add: sound_trace_def)

lemma sound_trace_then: "sound_trace S f \<Longrightarrow> sound_trace S g \<Longrightarrow> evolves S (snd td) (snd (g (f td)))"
  by (rule evolves_trans [OF sound_traceD sound_traceD])

lemma relay_sound: "evolves S (snd td) (snd (snd (relay (ho_platform (si_host S)) limit gone as used td)))"
proof (induction "(ho_platform (si_host S))" limit gone as used td rule: relay.induct)
  case (2 limit gone q c as used t d)
  have e: "evolves S d (snd (drop_trace (ho_platform (si_host S)) gone (trace_complete (ho_platform (si_host S)) q x y (t1, d))))" for x y t1
    using sound_trace_then [OF sound_traces(2) sound_traces(4), where td = "(t1, d)"] by simp
  show ?case
  proof (cases "length c > limit - used")
    case True
    with e show ?thesis by (simp add: Let_def)
  next
    case False
    with 2 show ?thesis by (auto simp: Let_def split: prod.split)
  qed
qed (simp_all only: relay.simps snd_conv sound_traceD sound_trace_then sound_traces)

section \<open>The gateway\<close>

lemma sound_auth [sound_acts]: "sound_act S (auth (si_host S) n hs admin)"
proof -
  have "sound_act S (\<lambda>s. and_then (in_vault (si_host S) n bad (reading (principal_of (si_host S) n (bearer hs))) s) (\<lambda>p s.
          case p of Some p \<Rightarrow> (Inr p, s) | None \<Rightarrow> (Inl e, s)))" for e
    by (intro sound_act_then sound_acts sound_ops) (auto simp: sound_act_def split: option.split)
  then have "sound_act S (\<lambda>s. if bearer hs = cf_local_token (ho_config (si_host S)) then (Inr Owner, s)
        else if \<not> admin
        then and_then (in_vault (si_host S) n bad (reading (principal_of (si_host S) n (bearer hs))) s) (\<lambda>p s.
          case p of Some p \<Rightarrow> (Inr p, s) | None \<Rightarrow> (Inl e, s))
        else (Inl e', s))" for e e'
    by (auto simp: sound_act_def)
  then show ?thesis unfolding auth_def by (intro sound_act_then sound_acts)
qed

lemma sound_enforce_policy [sound_acts]: "sound_act S (enforce_policy (si_host S) n c x)"
  unfolding enforce_policy_def by (intro sound_act_then sound_acts sound_ops)

lemma sound_prepare_request [sound_acts]: "sound_act S (prepare_request (si_host S) who p grant m body)"
  unfolding prepare_request_def authorized_context_def
  by (intro sound_act_then sound_acts sound_ops) (auto intro!: sound_act_then sound_acts sound_ops split: prod.split)

lemma sound_clear_to_send [sound_acts]: "sound_act S (clear_to_send (si_host S) who p grant m body ms n)"
proof -
  have r: "sound_act S (disclosure_receipt (si_host S) k base grant ms)" for k base
    by (cases grant) (auto simp: disclosure_receipt_def [abs_def] intro!: sound_act_then sound_acts sound_ops)
  have b: "sound_act S (baseline_bytes (si_host S) k ms)" for k
    by (cases "ms = []") (auto simp: baseline_bytes_def [abs_def] intro!: sound_act_then sound_acts sound_ops)
  show ?thesis
    unfolding clear_to_send_def last_check_def begin_exchange_def
    by (intro sound_act_then sound_act_case sound_acts sound_ops r b)
qed

lemma sound_deliver [sound_acts]: "sound_act S (deliver (si_host S) p m c body receipt t)"
proof (rule sound_actI)
  fix s :: world
  let ?E = "si_host S"
  let ?q = "request_for (ho_platform (si_host S)) p body"
  let ?s = "(fst s, snd s @ [?q])"
  show "evolves S (fst s) (fst (snd (deliver ?E p m c body receipt t s)))"
  proof (cases "ho_answer ?E ?q = Abandoned")
    case True
    then show ?thesis using dropped_sound [of S ?s 18 t] by (simp add: deliver_def Let_def)
  next
    case False
    obtain t1 s1 where t1: "(case ho_answer ?E ?q of
        Answered r \<Rightarrow> tracing ?E 18 (trace_headers (ho_platform (si_host S)) (ho_at ?E 18) (rs_status r)) t ?s | _ \<Rightarrow> (t, ?s)) = (t1, s1)"
      by (rule prod.exhaust)
    have 1: "evolves S (fst s) (fst s1)"
    proof (cases "ho_answer ?E ?q")
      case (Answered r)
      from tracing_sound [OF sound_traces(1), of S ?s 18 "ho_at ?E 18" "rs_status r" t] t1 Answered show ?thesis by simp
    qed (use t1 in auto)
    obtain r2 s2 where r2: "in_vault ?E 19 bad (record_metrics ?E 19 m c receipt (status_of (ho_answer ?E ?q))) s1 = (r2, s2)"
      by (rule prod.exhaust)
    from sound_actD [OF sound_in_vault [OF sound_record_metrics] this] have 2: "evolves S (fst s1) (fst s2)" .
    have 3: "evolves S (fst s2) (fst (dropped ?E 20 t1 s2))" by (rule dropped_sound)
    have 4: "evolves S (fst s2) (fst (snd (tracing ?E 20 (trace_complete (ho_platform (si_host S)) (ho_at ?E 20) ''failed'' x) t1 s2)))" for x
      by (rule tracing_sound [OF sound_traces(2)])
    have "deliver ?E p m c body receipt t s = (case (r2, s2) of
          (Inl e, s) \<Rightarrow> (Inl e, dropped ?E 20 t1 s)
        | (Inr i, s) \<Rightarrow>
            (case ho_answer ?E ?q of
               Answered r \<Rightarrow> (Inr (r, receipt, i, t1), s)
             | Unanswered timeout \<Rightarrow> (Inl (no_answer timeout), snd (tracing ?E 20 (trace_complete (ho_platform (si_host S)) (ho_at ?E 20)
                 ''failed'' (Some (if timeout then ''provider_timeout'' else ''provider_unavailable''))) t1 s))
             | Abandoned \<Rightarrow> (Inl Cancelled, s)))"
      using False by (simp only: deliver_def Let_def t1 r2 split_conv if_False)
    then show ?thesis
      using 1 2 3 4 by (cases r2; cases "ho_answer ?E ?q") (auto intro: evolves_trans)
  qed
qed

lemma sound_upstream [sound_acts]: "sound_act S (upstream (si_host S) body grant p m who)"
  unfolding upstream_def
  by (intro sound_act_then sound_acts) (auto intro!: sound_act_then sound_acts split: prod.split)

lemma sound_act_option:
  "(x = None \<Longrightarrow> sound_act S k) \<Longrightarrow> (\<And>y. x = Some y \<Longrightarrow> sound_act S (h y)) \<Longrightarrow>
   sound_act S (\<lambda>s. case x of None \<Rightarrow> k s | Some y \<Rightarrow> h y s)"
  by (cases x) simp_all

lemma sound_act_if:
  "(b \<Longrightarrow> sound_act S k) \<Longrightarrow> (\<not> b \<Longrightarrow> sound_act S h) \<Longrightarrow> sound_act S (\<lambda>s. if b then k s else h s)"
  by (cases b) simp_all

lemma sound_act_tracing:
  assumes "sound_trace S f" and "\<And>t. sound_act S (k t)"
  shows "sound_act S (\<lambda>s. case tracing (si_host S) n f t s of (t, s) \<Rightarrow> k t s)"
proof (rule sound_actI)
  fix s
  obtain t1 s1 where t1: "tracing (si_host S) n f t s = (t1, s1)" by (rule prod.exhaust)
  from tracing_sound [OF assms(1), of s n t] t1 have "evolves S (fst s) (fst s1)" by simp
  moreover have "evolves S (fst s1) (fst (snd (k t1 s1)))" using assms(2) unfolding sound_act_def by blast
  ultimately show "evolves S (fst s) (fst (snd (case tracing (si_host S) n f t s of (t, s) \<Rightarrow> k t s)))"
    using t1 by (auto intro: evolves_trans)
qed

lemma sound_chat_answer [sound_acts]: "sound_act S (chat_answer (si_host S) c p model q y)"
proof -
  obtain r receipt i t where y: "y = (r, receipt, i, t)" by (cases y)
  have st: "sound_act S (stored_reply (si_host S) q x rc j)" for x rc j
    by (cases q) (auto simp: stored_reply_def [abs_def] intro!: sound_acts sound_ops)
  have k: "sound_act S (\<lambda>s. and_then (read_reply (si_host S) 30 body_limit r t s) (\<lambda>z. h z))"
    if "\<And>b t. sound_act S (h (b, t))" for h :: "string \<times> trace \<Rightarrow> world \<Rightarrow> chat_result act"
    using that by (intro sound_act_then sound_acts) auto
  show ?thesis
    unfolding chat_answer_def y split_conv Let_def
    by (intro k) (auto simp only: split_conv intro!: sound_act_if sound_act_option sound_act_case sound_act_tracing
      sound_act_then sound_acts sound_ops st)
qed

lemma sound_continuity_of [sound_acts]: "sound_act S (continuity_of (si_host S) c p model)"
proof (cases "ch_conversation c")
  case (Some i)
  have "sound_op S (\<lambda>d. case ch_request c of
      None \<Rightarrow> (Inl (Bail ''A request UUID is required''), d)
    | Some r \<Rightarrow>
        (case ch_revision c of
           None \<Rightarrow> (Inl (Bail ''A conversation revision is required''), d)
         | Some n \<Rightarrow> prepare_conversation (ho_platform (si_host S)) (clock_at (si_host S) 2) \<lparr>rq_id = i, rq_request = r, rq_revision = n,
             rq_provider = pv_id p, rq_destination = pv_base p, rq_model = model, rq_grant = ch_grant c,
             rq_message = ch_message c\<rparr> d))"
    by (cases "ch_request c"; cases "ch_revision c") (simp_all add: sound_return clock_at_def sound_prepare_conversation)
  then show ?thesis
    by (auto simp: continuity_of_def [abs_def] Some intro!: sound_act_then sound_acts)
qed (simp add: continuity_of_def [abs_def] sound_acts)

lemma sound_chat: "sound_act S (chat (si_host S) hs c)"
  unfolding chat_def Let_def
  by (intro sound_act_then sound_act_option sound_acts sound_ops)

lemma sound_act_ended:
  "sound_trace S f \<Longrightarrow> sound_act S (\<lambda>s. (r, snd (tracing (si_host S) n f t s)))"
  by (rule sound_actI) (simp add: tracing_sound)

lemma sound_relayed: "sound_act S (\<lambda>s. let (chunks, t, d) = relay (ho_platform (si_host S)) limit gone as 0 (t, ho_others (si_host S) n (fst s))
     in (Inr (g chunks), d, snd s))"
proof (rule sound_actI)
  fix s :: world
  let ?d = "ho_others (si_host S) n (fst s)"
  have "evolves S (fst s) ?d" by (intro evolves_others evolves_refl)
  with relay_sound [of S "(t, ?d)" limit gone as 0] have "evolves S (fst s) (snd (snd (relay (ho_platform (si_host S)) limit gone as 0 (t, ?d))))"
    by (auto intro: evolves_trans)
  then show "evolves S (fst s) (fst (snd (let (chunks, t, d) = relay (ho_platform (si_host S)) limit gone as 0 (t, ?d) in (Inr (g chunks), d, snd s))))"
    by (auto simp: Let_def split: prod.split)
qed

lemma sound_proxy_answer [sound_acts]: "sound_act S (proxy_answer (si_host S) streaming y)"
proof -
  obtain r receipt i t where y: "y = (r, receipt, i, t)" by (cases y)
  have k: "sound_act S (\<lambda>s. and_then (read_reply (si_host S) 30 body_limit r t s) (\<lambda>z. h z))"
    if "\<And>b t. sound_act S (h (b, t))" for h :: "string \<times> trace \<Rightarrow> world \<Rightarrow> proxied act"
    using that by (intro sound_act_then sound_acts) auto
  show ?thesis
    unfolding proxy_answer_def y split_conv
    by (intro sound_act_if sound_relayed k, unfold split_conv)
      (intro sound_act_case sound_act_option sound_acts sound_ops sound_act_ended)
qed

lemma sound_proxy: "sound_act S (proxy (si_host S) hs body anthropic)"
  unfolding proxy_def by (intro sound_act_then sound_acts sound_ops)

lemma sound_client_app: "sound_act S (client_app (si_host S) hs body anthropic)"
proof (rule sound_actI)
  fix s
  obtain r s1 where a: "auth (si_host S) 40 hs False s = (r, s1)" by (rule prod.exhaust)
  note e = sound_actD [OF sound_auth a]
  have p: "evolves S (fst s1) (fst (snd (proxy (si_host S) hs body anthropic s1)))"
    using sound_proxy unfolding sound_act_def by blast
  show "evolves S (fst s) (fst (snd (client_app (si_host S) hs body anthropic s)))"
  proof (cases r)
    case (Inr who)
    with a e p show ?thesis by (cases who) (auto simp: client_app_def intro: evolves_trans)
  qed (simp add: client_app_def a e)
qed

section \<open>Capture and the memory tools\<close>

lemma extractor_answer_sound:
  "evolves S (fst s) (fst (snd (extractor_answer (si_host S) decode a t s)))"
proof (cases a)
  case (Answered r)
  let ?E = "si_host S"
  obtain t1 s1 where 1: "tracing ?E 4 (trace_headers (ho_platform (si_host S)) (ho_at ?E 4) (rs_status r)) t s = (t1, s1)"
    by (rule prod.exhaust)
  from tracing_sound [OF sound_traces(1), of S s 4 "ho_at ?E 4" "rs_status r" t] 1 have e1: "evolves S (fst s) (fst s1)" by simp
  obtain y s2 where 2: "read_reply ?E 5 extractor_limit r t1 s1 = (y, s2)" by (rule prod.exhaust)
  from sound_actD [OF sound_read_reply this] e1 have e2: "evolves S (fst s) (fst s2)" by (rule evolves_trans)
  have e3: "evolves S (fst s) (fst (snd (tracing ?E 7 (trace_complete (ho_platform (si_host S)) (ho_at ?E 7) st x) t2 s2)))" for st x t2
    by (rule evolves_trans [OF tracing_sound [OF sound_traces(2)] e2])
  show ?thesis
  proof (cases y)
    case (Inl e)
    with Answered 1 2 e2 show ?thesis by (simp add: extractor_answer_def)
  next
    case (Inr z)
    obtain bytes t2 where z: "z = (bytes, t2)" by (cases z)
    show ?thesis
      by (simp add: extractor_answer_def Answered 1 2 Inr z Let_def e3)
  qed
next
  case (Unanswered timeout)
  then show ?thesis using tracing_sound [OF sound_traces(2)] by (simp add: extractor_answer_def)
next
  case Abandoned
  then show ?thesis using dropped_sound by (simp add: extractor_answer_def)
qed

lemma sound_save_capture [sound_acts]: "sound_act S (save_capture (si_host S) c settings a ps)"
  unfolding save_capture_def Let_def
  by (intro sound_act_then sound_acts sound_ops) (auto split: prod.split intro: sound_acts)

lemma sound_memory_search [sound_acts]: "sound_act S (memory_search (si_host S) query grant)"
  unfolding memory_search_def by (intro sound_act_then sound_acts sound_ops)

lemma sound_mcp_call [sound_acts]: "sound_act S (mcp_call (si_host S) params)"
  unfolding mcp_call_def Let_def by (intro sound_act_if sound_act_then sound_acts sound_ops)

lemma sound_mcp_method [sound_acts]: "sound_act S (mcp_method (si_host S) request method)"
  unfolding mcp_method_def by (intro sound_act_if sound_acts)

lemma sound_mcp: "sound_act S (mcp (si_host S) hs request)"
proof -
  have m: "sound_act S (\<lambda>s. case mcp_method (si_host S) request x s of (Inr v, s) \<Rightarrow> (Inr (McpResult i v), s)
     | (Inl (Api code message), s) \<Rightarrow> (Inr (McpError i message), s) | (Inl Cancelled, s) \<Rightarrow> (Inl Cancelled, s))" for x i
  proof (rule sound_actI)
    fix s
    obtain r s1 where r: "mcp_method (si_host S) request x s = (r, s1)" by (rule prod.exhaust)
    note e = sound_actD [OF sound_mcp_method r]
    show "evolves S (fst s) (fst (snd (case mcp_method (si_host S) request x s of (Inr v, s) \<Rightarrow> (Inr (McpResult i v), s)
       | (Inl (Api code message), s) \<Rightarrow> (Inr (McpError i message), s) | (Inl Cancelled, s) \<Rightarrow> (Inl Cancelled, s))))"
      using r e by (cases r) (auto split: api_error.split)
  qed
  show ?thesis
    unfolding mcp_def Let_def by (intro sound_act_then sound_act_if sound_acts m)
qed

lemma sound_extraction:
  "sound_act S (\<lambda>s. let call = extractor_call settings request; a = ho_answer (si_host S) call;
     (ps, s) = extractor_answer (si_host S) decode a t (fst s, snd s @ [call])
   in if a = Abandoned then (Inl Cancelled, s) else save_capture (si_host S) c settings a ps s)"
proof (rule sound_actI)
  fix s :: world
  let ?call = "extractor_call settings request"
  let ?a = "ho_answer (si_host S) ?call"
  obtain ps s1 where x: "extractor_answer (si_host S) decode ?a t (fst s, snd s @ [?call]) = (ps, s1)" by (rule prod.exhaust)
  with extractor_answer_sound [of S "(fst s, snd s @ [?call])" decode ?a t] have e: "evolves S (fst s) (fst s1)" by simp
  have "evolves S (fst s1) (fst (snd (save_capture (si_host S) c settings ?a ps s1)))"
    using sound_save_capture unfolding sound_act_def by blast
  with e x show "evolves S (fst s) (fst (snd (let call = extractor_call settings request; a = ho_answer (si_host S) call;
     (ps, s) = extractor_answer (si_host S) decode a t (fst s, snd s @ [call])
   in if a = Abandoned then (Inl Cancelled, s) else save_capture (si_host S) c settings a ps s)))"
    by (auto simp: Let_def intro: evolves_trans)
qed

lemma sound_capture: "sound_act S (capture (si_host S) decode hs c)"
  unfolding capture_def Let_def [of "extractor_request _ _ _"] begin_exchange_def
  by (intro sound_act_then sound_extraction sound_acts sound_ops)

section \<open>The owner's API\<close>

lemma sound_as_owner: "sound_act S k \<Longrightarrow> sound_act S (as_owner (si_host S) hs k)"
  unfolding as_owner_def by (intro sound_act_then sound_acts)

lemma sound_audit_event [sound_acts]: "sound_act S (audit_event (si_host S) n action details)"
  unfolding audit_event_def by (intro sound_acts sound_ops)

lemma sound_reply: "sound_act S m \<Longrightarrow> sound_act S (\<lambda>s. reply f (m s))"
  unfolding reply_def by (intro sound_act_then sound_acts)

lemma sound_give_grant [sound_acts]: "sound_act S (give_grant (si_host S) g destination)"
  unfolding give_grant_def clock_at_def
  by (intro sound_act_then sound_act_option sound_acts sound_ops)

lemma sound_report_of [sound_acts]: "sound_act S (report_of S week)"
  unfolding report_of_def Let_def by (intro sound_acts sound_ops)

lemma sound_probe_json [sound_acts]: "sound_act S (probe_json (si_host S) p url)"
proof (rule sound_actI)
  fix s :: world
  let ?q = "probe_request (ho_platform (si_host S)) p url"
  have "sound_act S (\<lambda>s. and_then (check body_error b s) (\<lambda>bytes.
      check bad (ok_or (json_parse (ho_platform (si_host S)) bytes) (Bail x))))" for b x
    by (intro sound_act_then sound_acts)
  then have "evolves S (fst s) (fst (snd (and_then (check body_error b (fst s, snd s @ [?q])) (\<lambda>bytes.
      check bad (ok_or (json_parse (ho_platform (si_host S)) bytes) (Bail x))))))" for b x
    by (rule sound_at)
  then show "evolves S (fst s) (fst (snd (probe_json (si_host S) p url s)))"
    by (auto simp: probe_json_def Let_def split: answer.split)
qed

lemma sound_discover [sound_acts]: "sound_act S (discover S p)"
proof -
  have "sound_act S (ollama_models S p)"
    unfolding ollama_models_def Let_def by (intro sound_act_if sound_act_then sound_acts)
  then show ?thesis
    unfolding discover_def Let_def
    by (intro sound_act_then sound_acts) (auto intro: sound_acts split: prod.split)
qed

lemma sound_save_probe [sound_acts]: "sound_act S (save_probe (si_host S) p x)"
  unfolding save_probe_def by (intro sound_act_then sound_acts sound_ops sound_audit_event)

lemma sound_probe_provider: "sound_act S (probe_provider S hs i)"
proof -
  have "sound_act S (\<lambda>s. case discover S p s of
        (Inr x, s) \<Rightarrow> save_probe (si_host S) p x s
      | (Inl (Api code message), s) \<Rightarrow> save_probe (si_host S) p (failed_discovery (si_host S) p code message) s
      | (Inl Cancelled, s) \<Rightarrow> (Inl Cancelled, s))" for p
  proof (rule sound_actI)
    fix s
    obtain r s1 where r: "discover S p s = (r, s1)" by (rule prod.exhaust)
    note e = sound_actD [OF sound_discover r]
    have "evolves S (fst s1) (fst (snd (save_probe (si_host S) p x s1)))" for x
      using sound_save_probe unfolding sound_act_def by blast
    with r e show "evolves S (fst s) (fst (snd (case discover S p s of
        (Inr x, s) \<Rightarrow> save_probe (si_host S) p x s
      | (Inl (Api code message), s) \<Rightarrow> save_probe (si_host S) p (failed_discovery (si_host S) p code message) s
      | (Inl Cancelled, s) \<Rightarrow> (Inl Cancelled, s))))"
      by (cases r) (auto intro: evolves_trans split: api_error.split)
  qed
  then show ?thesis
    unfolding probe_provider_def Let_def by (intro sound_as_owner sound_act_then sound_acts sound_ops)
qed

lemma sound_sending:
  "sound_act S (\<lambda>s. let q = report_request S r; a = ho_answer (si_host S) q; s = (fst s, snd s @ [q]);
          accepted = (case status_of a of None \<Rightarrow> False | Some n \<Rightarrow> success_status n) in
      if a = Abandoned then (Inl Cancelled, s)
      else and_then (enter (si_host S) 3 s) (\<lambda>_ s.
           and_then (audit_event (si_host S) 3 action (f accepted) s) (\<lambda>_ s.
           if accepted then (Inr (g a), s) else (Inl e, s))))"
proof -
  have "sound_act S (\<lambda>s. and_then (enter (si_host S) 3 s) (\<lambda>_ s.
           and_then (audit_event (si_host S) 3 action (f b) s) (\<lambda>_ s.
           if b then (Inr (g a), s) else (Inl e, s))))" for b a
    by (intro sound_act_then sound_act_if sound_acts)
  then have "evolves S (fst s) (fst (snd (and_then (enter (si_host S) 3 (fst s, l)) (\<lambda>_ s.
           and_then (audit_event (si_host S) 3 action (f b) s) (\<lambda>_ s.
           if b then (Inr (g a), s) else (Inl e, s))))))" for s :: world and l b a
    by (rule sound_at)
  then show ?thesis by (intro sound_actI) (simp add: Let_def)
qed

lemma sound_send_report: "sound_act S (send_report S hs week)"
  unfolding send_report_def Let_def [of "si_host S"] Let_def [of "ho_config _"]
  by (intro sound_as_owner sound_act_then sound_sending sound_acts sound_ops)

lemma sound_policy_test: "sound_act S (policy_test (si_host S) hs body files)"
  unfolding policy_test_def
  by (intro sound_as_owner sound_act_then sound_acts) (auto intro: sound_acts sound_ops split: prod.split)

lemma policy_handlers_sound:
  "sound_act S (show_state (si_host S) hs)"
  "sound_act S (admin_view S hs)"
  "sound_act S (show_policy (si_host S) hs)"
  "sound_act S (save_policy (si_host S) hs n spec)"
  "sound_act S (list_decisions (si_host S) hs)"
  "sound_act S (change_settings (si_host S) hs t)"
  "sound_act S (put_profile (si_host S) hs j pt)"
  "sound_act S (remove_provider (si_host S) hs i)"
  unfolding show_state_def admin_view_def Let_def show_policy_def save_policy_def list_decisions_def
    change_settings_def clock_at_def put_profile_def remove_provider_def
  by (intro sound_as_owner sound_act_then sound_act_if sound_act_option sound_acts sound_ops)+

lemma journal_handlers_sound:
  "sound_act S (show_history (si_host S) hs q)"
  "sound_act S (show_entry (si_host S) hs i)"
  "sound_act S (show_usage (si_host S) hs p)"
  "sound_act S (show_logs (si_host S) hs aq)"
  "sound_act S (clear_history (si_host S) hs)"
  "sound_act S (change_consent (si_host S) hs b)"
  "sound_act S (show_report S hs w)"
  unfolding show_history_def clock_at_def show_entry_def show_usage_def show_logs_def clear_history_def
    change_consent_def show_report_def Let_def
  by (intro sound_as_owner sound_act_then sound_act_if sound_act_option sound_acts sound_ops)+

lemma memory_handlers_sound:
  "sound_act S (list_memories (si_host S) hs)"
  "sound_act S (create_memory (si_host S) hs c st src)"
  "sound_act S (change_memory (si_host S) hs i nc ns)"
  "sound_act S (remove_memory (si_host S) hs i)"
  "sound_act S (remove_source (si_host S) hs i)"
  "sound_act S (list_grants (si_host S) hs)"
  "sound_act S (add_grant (si_host S) hs g)"
  "sound_act S (revoke_grant (si_host S) hs i)"
  unfolding list_memories_def create_memory_def change_memory_def remove_memory_def remove_source_def
    list_grants_def add_grant_def revoke_grant_def
  by (intro sound_as_owner sound_act_then sound_act_if sound_act_option sound_acts sound_ops)+

lemma work_handlers_sound:
  "sound_act S (show_work (si_host S) hs)"
  "sound_act S (enable_installation (si_host S) hs name b)"
  "sound_act S (approve_client (si_host S) hs name ds m)"
  "sound_act S (remove_client (si_host S) hs i)"
  "sound_act S (list_conversations (si_host S) hs)"
  "sound_act S (start_conversation (si_host S) hs input)"
  "sound_act S (read_conversation (si_host S) hs i)"
  "sound_act S (remove_conversation (si_host S) hs i)"
  "sound_act S (clear_attempt (si_host S) hs i r b)"
  unfolding show_work_def enable_installation_def approve_client_def remove_client_def list_conversations_def
    clock_at_def start_conversation_def read_conversation_def remove_conversation_def clear_attempt_def
  by (intro sound_as_owner sound_act_then sound_act_if sound_act_option sound_acts sound_ops)+

lemma sound_app: "sound_act S (app S hs c)"
proof (rule sound_actI)
  fix s
  have r: "evolves S (fst s) (fst (snd (reply f (k s))))" if "sound_act S k" for k :: "world \<Rightarrow> 'a act" and f
    using sound_reply [OF that, of f] unfolding sound_act_def by blast
  show "evolves S (fst s) (fst (snd (app S hs c s)))"
    by (cases c) (simp_all only: app.simps create_provider_def update_provider_def r policy_handlers_sound journal_handlers_sound memory_handlers_sound
      work_handlers_sound sound_policy_test
      sound_probe_provider sound_send_report)
qed

end
