(* ===== verification/CoreProperties.thy ===== *)
theory CoreProperties
  imports Core
begin

text \<open>
  What each kind of atomic operation leaves alone, the invariant of the whole vault, and the
  properties of the core service for any requests.
\<close>

section \<open>The parts of the database\<close>

datatype part = VaultTables | ReportLog | AdminDocuments | PolicyTables | InteractionLog | Conversations | WorkTables

fun same_part :: "part \<Rightarrow> db \<Rightarrow> db \<Rightarrow> bool" where
  "same_part VaultTables d d' = same_vault_tables d d'"
| "same_part ReportLog d d' = (d_reports d' = d_reports d)"
| "same_part AdminDocuments d d' = (d_settings d' = d_settings d \<and> d_providers d' = d_providers d)"
| "same_part PolicyTables d d' = (d_policy d' = d_policy d \<and> d_decisions d' = d_decisions d
     \<and> d_decision_seq d' = d_decision_seq d)"
| "same_part InteractionLog d d' = (d_journal d' = d_journal d)"
| "same_part Conversations d d' = (d_threads d' = d_threads d \<and> d_turns d' = d_turns d)"
| "same_part WorkTables d d' = (d_clients d' = d_clients d \<and> d_bindings d' = d_bindings d
     \<and> d_instance d' = d_instance d)"

definition only :: "part set \<Rightarrow> db \<Rightarrow> db \<Rightarrow> bool" where
  "only A d d' \<longleftrightarrow> (\<forall>p. p \<notin> A \<longrightarrow> same_part p d d')"

lemma same_part_refl [simp]: "same_part p d d"
  by (cases p) (simp_all add: same_vault_tables_def)

lemma same_part_trans: "same_part p a b \<Longrightarrow> same_part p b c \<Longrightarrow> same_part p a c"
  by (cases p) (simp_all add: same_vault_tables_def)

lemma only_refl [simp]: "only A d d"
  by (simp add: only_def)

lemma only_trans: "only A a b \<Longrightarrow> only A b c \<Longrightarrow> only A a c"
  unfolding only_def by (metis same_part_trans)

lemma onlyI:
  assumes "VaultTables \<notin> A \<Longrightarrow> same_vault_tables d d'" "ReportLog \<notin> A \<Longrightarrow> d_reports d' = d_reports d"
    "AdminDocuments \<notin> A \<Longrightarrow> d_settings d' = d_settings d \<and> d_providers d' = d_providers d"
    "PolicyTables \<notin> A \<Longrightarrow> d_policy d' = d_policy d \<and> d_decisions d' = d_decisions d \<and> d_decision_seq d' = d_decision_seq d"
    "InteractionLog \<notin> A \<Longrightarrow> d_journal d' = d_journal d"
    "Conversations \<notin> A \<Longrightarrow> d_threads d' = d_threads d \<and> d_turns d' = d_turns d"
    "WorkTables \<notin> A \<Longrightarrow> d_clients d' = d_clients d \<and> d_bindings d' = d_bindings d \<and> d_instance d' = d_instance d"
  shows "only A d d'"
  unfolding only_def
proof (intro allI impI)
  fix p
  assume "p \<notin> A"
  with assms show "same_part p d d'" by (cases p) simp_all
qed

lemmas only_simps = same_vault_tables_def

section \<open>What each component's operations change\<close>

lemma initialize_only: "initialize_admin P c d = Inr (u, d') \<Longrightarrow> only {AdminDocuments} d d'"
  by (rule onlyI) (auto simp: initialize_admin_def only_simps res_simps split: if_splits)

interpretation vault_only: op_monotone "vault_step P" "only {VaultTables}" for P
proof
  fix d :: db and x
  from vault_frame.step_rel [of d P x] show "only {VaultTables} d (vault_step P x d)"
    by (intro onlyI) (simp_all add: same_clients_def)
qed (auto intro: only_trans)

interpretation admin_only: op_monotone "admin_step P" "only {AdminDocuments}" for P
proof
  fix d :: db and x :: "draw \<times> admin_op"
  obtain w y where x: "x = (w, y)" by (cases x)
  have "patch_admin_settings P t d = Inr (s, d') \<Longrightarrow> only {AdminDocuments} d d'" for t s d'
    by (rule onlyI) (auto simp: patch_admin_settings_def only_simps rbind_eq_Inr Let_def)
  moreover have "save_provider P w i t d = Inr (p, d') \<Longrightarrow> only {AdminDocuments} d d'" for i t p d'
    by (erule save_provider_Inr, rule onlyI) (simp_all add: only_simps)
  moreover have "delete_provider i d = Inr (p, d') \<Longrightarrow> only {AdminDocuments} d d'" for i p d'
    by (rule onlyI) (auto simp: delete_provider_def only_simps rbind_eq_Inr Let_def)
  moreover have "save_discovery p v d = Inr (q, d') \<Longrightarrow> only {AdminDocuments} d d'" for p v q d'
    by (rule onlyI) (auto simp: save_discovery_def only_simps rbind_eq_Inr Let_def)
  ultimately show "only {AdminDocuments} d (admin_step P x d)"
    unfolding x by (cases y) (auto intro!: commit_cases [where Q = "only {AdminDocuments} d"])
qed (auto intro: only_trans)

interpretation reports_only: op_monotone "report_step C M P" "only {ReportLog}" for C M P
proof
  fix d :: db and x :: "draw \<times> string \<times> bool \<times> bool"
  have "prepare_report C M P w week dflt sim d = Inr (r, d') \<Longrightarrow> only {ReportLog} d d'" for w week dflt sim r d'
    by (drule prepare_report_Inr, rule onlyI) (auto dest!: new_report_Inr simp: only_simps)
  then show "only {ReportLog} d (report_step C M P x d)"
    by (cases x) (auto intro!: after_cases [where P = "only {ReportLog} d"])
qed (auto intro: only_trans)

interpretation work_only: op_monotone "work_step P" "only {VaultTables, WorkTables}" for P
proof
  fix d :: db and x :: "draw \<times> work_op"
  let ?only = "only {VaultTables, WorkTables} d"
  obtain w y where x: "x = (w, y)" by (cases x)
  have "enable_work P w name d = Inr (u, d') \<Longrightarrow> ?only d'" for name u d'
    by (auto simp: enable_work_def rbind_eq_Inr audited_Inr audit_on_frame intro!: onlyI)
  moreover have "create_work_client P w name ds n d = Inr (t, d') \<Longrightarrow> ?only d'" for name ds n t d'
    by (auto dest!: create_work_client_Inr simp: insert_client_Inr audit_on_frame intro!: onlyI)
  moreover have "revoke_client P w i d = Inr (b, d') \<Longrightarrow> ?only d'" for i b d'
    by (auto dest!: revoke_client_Inr simp: audit_on_frame split: if_splits intro!: onlyI)
  moreover have "bind_work_grant P n g c dest d = Inr (u, d') \<Longrightarrow> ?only d'" for n g c dest u d'
    by (auto dest!: bind_work_grant_Inr intro!: onlyI)
  moreover have "?only (snd (record_work_request P w i p r a b d))" for i p r a b
    by (auto simp: record_work_request_def split: sum.splits intro!: onlyI)
  moreover have "?only (vault_step P z d)" for z
    using vault_only.step_rel [of d P z] by (simp add: only_def)
  ultimately show "?only (work_step P x d)"
    unfolding x by (cases y) (auto intro!: after_cases [where P = ?only])
qed (auto intro: only_trans)


lemma prune_only: "only {Conversations} d (prune_conversations P n d)"
  by (rule onlyI) (simp_all add: prune_conversations_def drop_threads_def only_simps Let_def)

lemma create_conversation_only: "only {Conversations} d (snd (create_conversation P w input dest d))"
proof -
  let ?d0 = "prune_conversations P (now_at w) d"
  have "insert_conversation P w input dest title scope model ?d0 = Inr (u, d') \<Longrightarrow> only {Conversations} ?d0 d'"
    for title scope model u d'
    by (rule onlyI) (auto simp: insert_conversation_def insert_thread_def res_simps audited_Inr audit_on_frame only_simps split: if_splits)
  then have ins: "only {Conversations} d (snd (commit (insert_conversation P w input dest title scope model ?d0) ?d0))"
    for title scope model
    by (intro only_trans [OF prune_only commit_cases [where Q = "only {Conversations} ?d0"]]) simp_all
  have "only {Conversations} d (snd (then_stmt (commit (insert_conversation P w input dest title scope model ?d0) ?d0)
            (\<lambda>_ d1. conversation P (now_at w) (uuid w 0) d1)))" for title scope model
    by (rule snd_then_stmt [where P = "only {Conversations} d"])
      (auto simp: ins conversation_snd intro: only_trans [OF _ prune_only])
  then show ?thesis by (auto simp: create_conversation_def Let_def prune_only split: sum.split)
qed

lemma prepare_conversation_only: "only {Conversations} d (snd (prepare_conversation P n q d))"
proof -
  have m: "only {Conversations} e (mark_pending p e)" for p e
    by (rule onlyI) (simp_all add: mark_pending_def only_simps)
  have "only {Conversations} d (snd (then_stmt (conversation P n (rq_id q) d) (\<lambda>c d0.
            case prepare_with P n q c d0 of Inl e \<Rightarrow> (Inl e, d0)
            | Inr p \<Rightarrow> (Inr p, if pp_replay p \<noteq> None then d0 else mark_pending p d0))))"
    by (rule snd_then_stmt [where P = "only {Conversations} d"])
      (auto simp: conversation_snd prune_only m intro: only_trans [OF _ m] split: sum.split)
  then show ?thesis by (auto simp: prepare_conversation_def split: sum.split)
qed

lemma finish_conversation_only: "only {Conversations} d (snd (finish_conversation P w p txt receipt ia d))"
proof -
  obtain r d' where f: "finish_conversation P w p txt receipt ia d = (r, d')" by (rule prod.exhaust)
  have "save_turn P w p txt receipt ia e = Inr (True, d') \<Longrightarrow> only {Conversations} e d'" for e
    by (rule onlyI) (auto dest!: save_turn_Inr simp: insert_turn_Inr audit_on_frame only_simps)
  then show ?thesis
    using finish_conversation_cases(1) [OF f] prune_only f by (auto intro: only_trans [OF prune_only])
qed

interpretation chat_only: op_monotone "chat_step P" "only {Conversations}" for P
proof
  fix d :: db and x :: "draw \<times> chat_op"
  obtain w y where x: "x = (w, y)" by (cases x)
  have "clear_conversation_attempt i r d = Inr (u, d') \<Longrightarrow> only {Conversations} d d'" for i r u d'
    by (rule onlyI) (auto simp: clear_conversation_attempt_def only_simps split: if_splits)
  moreover have "delete_conversation P w i d = Inr (b, d') \<Longrightarrow> only {Conversations} d d'" for i b d'
    by (rule onlyI) (auto dest!: delete_conversation_Inr simp: drop_threads_def Let_def audit_on_frame only_simps split: if_splits)
  ultimately show "only {Conversations} d (chat_step P x d)"
    unfolding x by (cases y) (auto simp: create_conversation_only prepare_conversation_only finish_conversation_only
      conversations_def Let_def prune_only intro!: after_cases [where P = "only {Conversations} d"])
qed (auto intro: only_trans)

lemma journal_prune_only: "only {InteractionLog} d (snd (journal_prune P n d))"
  by (rule onlyI) (simp_all add: journal_prune_def only_simps Let_def split: sum.split)

lemma journal_finish_only: "journal_finish P w i f d = Inr (b, d') \<Longrightarrow> only {InteractionLog} d d'"
proof -
  assume "journal_finish P w i f d = Inr (b, d')"
  then have "\<exists>rows. d' = d\<lparr>d_journal := rows\<rparr> \<or> d' = d"
    by (auto simp: journal_finish_def rbind_eq_Inr Let_def split: option.splits if_splits)
  then show ?thesis by (auto simp: only_simps intro!: onlyI)
qed

lemma journal_start_only: "only {InteractionLog} d (snd (journal_start P w entry d))"
proof -
  have "only {InteractionLog} d (snd (commit (
             rbind (start_checks P entry) (\<lambda>destination.
             rbind (journal_timestamp P w (is_started entry)) (\<lambda>started.
             let r = start_record entry destination started in
             rbind (t_insert jr_id \<lparr>jr_id = ir_id r, jr_provider = ir_provider r,
                 jr_provider_name = ir_provider_name r, jr_model = ir_model r, jr_status = ir_status r,
                 jr_started = ir_started r, jr_record = Some r\<rparr> (d_journal e)) (\<lambda>rows.
             Inr (True, e\<lparr>d_journal := rows\<rparr>))))) e))" if "only {InteractionLog} d e" for e
    by (rule commit_cases [where Q = "only {InteractionLog} d"])
      (auto simp: that rbind_eq_Inr Let_def only_simps intro!: only_trans [OF that] onlyI)
  then show ?thesis
    unfolding journal_start_def
    by (intro snd_then_stmt [where P = "only {InteractionLog} d"]) (auto simp: journal_prune_only split: sum.split)
qed

lemma abort_all_only: "only {InteractionLog} d (snd (abort_all P w rs n d))"
proof (induction rs arbitrary: n d)
  case (Cons r rs)
  have c: "only {InteractionLog} d (snd (commit (journal_finish P w (ir_id r) (abort_finish r) d) d))"
    by (rule commit_cases [where Q = "only {InteractionLog} d"]) (auto simp: journal_finish_only)
  show ?case
    unfolding abort_all.simps
    by (rule snd_then_stmt [where P = "only {InteractionLog} d"]) (use c in \<open>auto intro: only_trans [OF _ Cons.IH]\<close>)
qed simp

interpretation journal_only: op_monotone "journal_step P" "only {InteractionLog}" for P
proof
  fix d :: db and x :: "draw \<times> journal_op"
  obtain w y where x: "x = (w, y)" by (cases x)
  have "journal_delete_history P w d = Inr (u, d') \<Longrightarrow> only {InteractionLog} d d'" for u d'
    by (rule onlyI) (auto simp: journal_delete_history_def rbind_eq_Inr only_simps Let_def)
  moreover have "audited P w 0 a z () d = Inr (u, d') \<Longrightarrow> only {InteractionLog} d d'" for a z u d'
    by (rule onlyI) (auto simp: audited_Inr audit_on_frame only_simps)
  moreover have "only {InteractionLog} d (snd (journal_recover_interrupted P w d))"
    unfolding journal_recover_interrupted_def
    by (rule snd_then_stmt [where P = "only {InteractionLog} d"])
      (auto simp: journal_prune_only intro: only_trans abort_all_only split: sum.split)
  ultimately show "only {InteractionLog} d (journal_step P x d)"
    unfolding x by (cases y) (auto simp: journal_start_only journal_prune_only journal_finish_only
      intro!: after_cases [where P = "only {InteractionLog} d"])
qed (auto intro: only_trans)

interpretation policy_only: op_monotone "policy_step P" "only {PolicyTables}" for P
proof
  fix d :: db and x :: "draw \<times> policy_op"
  obtain w y where x: "x = (w, y)" by (cases x)
  have "policy_save P w n spec d = Inr (ok, d') \<Longrightarrow> only {PolicyTables} d d'" for n spec ok d'
    by (rule onlyI) (auto dest!: policy_save_Inr simp: audit_on_frame only_simps split: if_splits)
  moreover have "only {PolicyTables} d (snd (policy_evaluate P w m c z p d))" for m c z p
  proof (cases "decide P w m c z d")
    case (Inr x)
    have "only {PolicyTables} d e" if "insert_decision x d = Inr d1" "audit_on P w 1 k a (d1\<lparr>d_decisions := rows\<rparr>) = Inr e" for d1 k a rows e
      using that by (intro onlyI) (auto simp: insert_decision_Inr audit_on_frame only_simps)
    moreover have "only {PolicyTables} d (d1\<lparr>d_decisions := rows\<rparr>)" if "insert_decision x d = Inr d1" for d1 rows
      using that by (intro onlyI) (auto simp: insert_decision_Inr only_simps)
    ultimately show ?thesis
      by (auto simp: policy_evaluate_def Inr Let_def audited_Inr split: sum.split intro!: commit_cases [where Q = "only {PolicyTables} d"])
  qed (simp add: policy_evaluate_def)
  ultimately show "only {PolicyTables} d (policy_step P x d)"
    unfolding x by (cases y) (auto intro!: commit_cases [where Q = "only {PolicyTables} d"])
qed (auto intro: only_trans)


section \<open>The invariant of the vault\<close>

fun part_ok :: "platform \<Rightarrow> part \<Rightarrow> db \<Rightarrow> bool" where
  "part_ok P VaultTables d = vault_wf d"
| "part_ok P ReportLog d = budget_ok d"
| "part_ok P AdminDocuments d = (d_providers d = None \<or> admin_ok P d)"
| "part_ok P PolicyTables d = decisions_wf d"
| "part_ok P InteractionLog d = journal_wf d"
| "part_ok P Conversations d = continuity_wf d"
| "part_ok P WorkTables d = True"

definition core_ok :: "platform \<Rightarrow> db \<Rightarrow> bool" where
  "core_ok P d \<longleftrightarrow> (\<forall>p. part_ok P p d)"

lemma part_ok_same: "same_part p d d' \<Longrightarrow> part_ok P p d' = part_ok P p d"
  by (cases p) (auto simp: vault_wf_same budget_ok_def admin_ok_def decisions_wf_def journal_wf_def continuity_wf_def)

lemma core_ok_only:
  assumes "core_ok P d" and "only A d d'" and "\<And>p. p \<in> A \<Longrightarrow> part_ok P p d'"
  shows "core_ok P d'"
  unfolding core_ok_def
proof
  fix p
  from assms show "part_ok P p d'" by (cases "p \<in> A") (auto simp: only_def core_ok_def part_ok_same)
qed

lemma work_vault_wf:
  assumes "vault_wf d"
  shows "vault_wf (work_step P x d)"
proof -
  obtain w y where x: "x = (w, y)" by (cases x)
  show ?thesis
  proof (cases y)
    case (EnableWork name)
    have "enable_work P w name d = Inr (u, d') \<Longrightarrow> vault_wf d'" for u d'
      using assms by (auto simp: enable_work_def rbind_eq_Inr audited_Inr vault_wf_def audit_on_frame)
    then show ?thesis unfolding x EnableWork by (auto intro!: after_cases [where P = vault_wf] assms)
  next
    case (CreateClient name ds n)
    have "create_work_client P w name ds n d = Inr (t, d') \<Longrightarrow> vault_wf d'" for t d'
      using assms by (auto dest!: create_work_client_Inr simp: insert_client_Inr vault_wf_def audit_on_frame)
    then show ?thesis unfolding x CreateClient by (auto intro!: after_cases [where P = vault_wf] assms)
  next
    case (RevokeClient i)
    have "vault_wf d'" if r: "revoke_client P w i d = Inr (b, d')" for b d'
    proof (cases b)
      case True
      let ?f = "\<lambda>r. if gr_id r \<in> set (client_grants i d) then revoke_row (rfc3339 P (now_at w)) r else r"
      from True revoke_client_Inr [OF r] have a: "audit_on P w 0 ''client_revoked'' (entity i)
          (d\<lparr>d_clients := t_update wc_id i (revoke_client_row (rfc3339 P (now_at w))) (d_clients d),
             d_grants := map ?f (d_grants d)\<rparr>) = Inr d'" by simp
      have "map gr_id (d_grants d') = map gr_id (d_grants d)" using audit_on_frame [OF a] by simp
      moreover have "d_sources d' = d_sources d" "d_memories d' = d_memories d" "d_history d' = d_history d"
        "d_receipts d' = d_receipts d" "d_interactions d' = d_interactions d" using audit_on_frame [OF a] by simp_all
      ultimately show ?thesis using assms by (simp add: vault_wf_def)
    next
      case False
      with revoke_client_Inr [OF r] assms show ?thesis by simp
    qed
    then show ?thesis unfolding x RevokeClient by (auto intro!: after_cases [where P = vault_wf] assms)
  next
    case (BindGrant g c dest)
    have "bind_work_grant P (now_at w) g c dest d = Inr (u, d') \<Longrightarrow> vault_wf d'" for u d'
      using assms by (auto dest!: bind_work_grant_Inr simp: vault_wf_def)
    then show ?thesis unfolding x BindGrant by (auto intro!: after_cases [where P = vault_wf] assms)
  next
    case (RecordRequest i p r a b)
    with x assms show ?thesis by (auto simp: record_work_request_def vault_wf_def split: sum.split)
  next
    case (VaultOp v)
    with x vault_machine.step_inv [OF assms] show ?thesis by simp
  qed
qed

lemma admin_part_ok:
  assumes "d_providers d = None \<or> admin_ok P d"
  shows "d_providers (admin_step P x d) = None \<or> admin_ok P (admin_step P x d)"
proof (cases "d_providers d = None")
  case True
  obtain w y where x: "x = (w, y)" by (cases x)
  have no: "read_providers d \<noteq> Inr ps" for ps using True by (simp add: read_providers_Inr)
  have "patch_admin_settings P t d = Inr (s, d') \<Longrightarrow> d_providers d' = None" for t s d'
    using True by (auto simp: patch_admin_settings_def rbind_eq_Inr Let_def)
  moreover have "save_provider P w i t d \<noteq> Inr y" for i t y
    using True by (cases y) (auto elim!: save_provider_Inr)
  moreover have "delete_provider i d \<noteq> Inr y" "save_discovery p v d \<noteq> Inr z" for i y p v z
    using no by (auto simp: delete_provider_def save_discovery_def rbind_eq_Inr)
  ultimately have "d_providers (admin_step P x d) = None"
    unfolding x by (cases y) (auto intro!: commit_cases [where Q = "\<lambda>d'. d_providers d' = None"] True)
  then show ?thesis ..
next
  case False
  with assms have "admin_ok P d" by blast
  then show ?thesis by (intro disjI2 administration.step_inv)
qed

lemma initialize_part_ok:
  assumes "d_providers d = None \<or> admin_ok P d" and "cf_llm_model c \<noteq> []" and "is_loopback_url P (cf_extractor_base c)"
  shows "d_providers (after (initialize_admin P c d) d) = None \<or> admin_ok P (after (initialize_admin P c d) d)"
proof (rule after_cases [where P = "\<lambda>d'. d_providers d' = None \<or> admin_ok P d'"])
  fix u d'
  assume i: "initialize_admin P c d = Inr (u, d')"
  show "d_providers d' = None \<or> admin_ok P d'"
  proof (cases "d_providers d = None")
    case True
    with initialize_admin_ok [OF i] assms show ?thesis by blast
  next
    case False
    with i assms show ?thesis by (auto simp: initialize_admin_def res_simps split: if_splits)
  qed
qed (rule assms)

text \<open>A configuration the administration can start from.\<close>

definition usable :: "site \<Rightarrow> bool" where
  "usable S \<longleftrightarrow> cf_llm_model (ho_config (si_host S)) \<noteq> []
     \<and> is_loopback_url (ho_platform (si_host S)) (cf_extractor_base (ho_config (si_host S)))"

lemma core_step_ok:
  assumes "usable S" and ok: "core_ok (ho_platform (si_host S)) d"
  shows "core_ok (ho_platform (si_host S)) (core_step S x d)"
proof -
  let ?P = "ho_platform (si_host S)"
  obtain w y where x: "x = (w, y)" by (cases x)
  have part: "part_ok ?P p d" for p using ok by (simp add: core_ok_def)
  show ?thesis
  proof (cases y)
    case (InVault v)
    with x vault_machine.step_inv part [of VaultTables] show ?thesis
      by (auto intro!: core_ok_only [OF ok vault_only.step_rel])
  next
    case (InAdmin v)
    with x admin_part_ok part [of AdminDocuments] show ?thesis
      by (auto intro!: core_ok_only [OF ok admin_only.step_rel])
  next
    case (InPolicy v)
    with x decision_log.step_inv part [of PolicyTables] show ?thesis
      by (auto intro!: core_ok_only [OF ok policy_only.step_rel])
  next
    case (InJournal v)
    with x ledger.step_inv part [of InteractionLog] show ?thesis
      by (auto intro!: core_ok_only [OF ok journal_only.step_rel])
  next
    case (InChat v)
    with x chat_machine.step_inv part [of Conversations] show ?thesis
      by (auto intro!: core_ok_only [OF ok chat_only.step_rel])
  next
    case (InReports a b c)
    with x reports.step_inv part [of ReportLog] show ?thesis
      unfolding x InReports core_step.simps
      by (intro core_ok_only [OF ok reports_only.step_rel]) auto
  next
    case (InWork v)
    with x work_vault_wf part [of VaultTables] show ?thesis
      by (auto intro!: core_ok_only [OF ok work_only.step_rel])
  next
    case Initialize
    have "only {AdminDocuments} d (after (initialize_admin ?P (ho_config (si_host S)) d) d)"
      by (rule after_cases) (auto intro: initialize_only)
    from core_ok_only [OF ok this] initialize_part_ok [of d ?P] part [of AdminDocuments] assms(1) show ?thesis
      unfolding x Initialize core_step.simps by (auto simp: usable_def)
  qed
qed


section \<open>The service\<close>

text \<open>
  The requests of the listeners: the owner's API, chat, the two proxies, the restricted listener of the work
  clients, the memory tools and capture; \<open>app\<close> and \<open>client_app\<close> of http.rs route them.
\<close>

datatype incoming =
    OwnerCall owner_call
  | ChatCall chat_input
  | OpenaiCall json
  | AnthropicCall json
  | ClientCall json bool
  | McpCall json
  | CaptureCall capture_input
  | CaptureStatus

fun serve :: "site \<Rightarrow> (string \<Rightarrow> string list option) \<Rightarrow> headers \<Rightarrow> incoming \<Rightarrow> world \<Rightarrow> world" where
  "serve S decode hs (OwnerCall c) s = snd (app S hs c s)"
| "serve S decode hs (ChatCall c) s = snd (chat (si_host S) hs c s)"
| "serve S decode hs (OpenaiCall body) s = snd (proxy (si_host S) hs body False s)"
| "serve S decode hs (AnthropicCall body) s = snd (proxy (si_host S) hs body True s)"
| "serve S decode hs (ClientCall body anthropic) s = snd (client_app (si_host S) hs body anthropic s)"
| "serve S decode hs (McpCall request) s = snd (mcp (si_host S) hs request s)"
| "serve S decode hs (CaptureCall c) s = snd (capture (si_host S) decode hs c s)"
| "serve S decode hs CaptureStatus s = snd (capture_status (si_host S) hs s)"

fun serve_all ::
    "(string \<Rightarrow> string list option) \<Rightarrow> (site \<times> headers \<times> incoming) list \<Rightarrow> world \<Rightarrow> world" where
  "serve_all decode [] s = s"
| "serve_all decode ((S, hs, q) # rest) s = serve_all decode rest (serve S decode hs q s)"

lemma sound_from: "sound_act S k \<Longrightarrow> evolves S (fst s) (fst (snd (k s)))"
  by (cases s) (simp add: sound_at)

lemma serve_evolves: "evolves S (fst s) (fst (serve S decode hs q s))"
proof (cases q)
  case CaptureStatus
  have "sound_act S (capture_status (si_host S) hs)"
    unfolding capture_status_def [abs_def] by (intro sound_act_then sound_acts)
  from sound_from [OF this, of s] show ?thesis by (simp add: CaptureStatus)
qed (simp_all add: sound_from sound_app sound_chat sound_proxy sound_client_app sound_mcp sound_capture)

text \<open>
  A request of the process \<open>S0\<close>: its handler draws, waits and gets its answers as it does, but runs in the same
  process, and what happens while it waits are operations of that process.
\<close>

definition runs_in :: "site \<Rightarrow> site \<Rightarrow> bool" where
  "runs_in S0 S \<longleftrightarrow> ho_platform (si_host S) = ho_platform (si_host S0) \<and> ho_config (si_host S) = ho_config (si_host S0)
     \<and> ho_calendar (si_host S) = ho_calendar (si_host S0) \<and> si_mechanism S = si_mechanism S0
     \<and> (\<forall>n. \<exists>xs. \<forall>d. ho_others (si_host S) n d = run_ops (core_step S0) xs d)"

lemma runs_in_step:
  assumes "runs_in S0 S"
  shows "core_step S x d = core_step S0 x d"
proof -
  obtain w y where x: "x = (w, y)" by (cases x)
  show ?thesis unfolding x using assms by (cases y) (simp_all add: runs_in_def)
qed

lemma evolves_runs:
  assumes "runs_in S0 S" and "evolves S d d'"
  shows "\<exists>xs. d' = run_ops (core_step S0) xs d"
  using assms(2)
proof (induction rule: evolves.induct)
  case evolves_refl
  show ?case by (rule exI [of _ "[]"]) simp
next
  case (evolves_step e x)
  then obtain xs where "e = run_ops (core_step S0) xs d" by blast
  with assms(1) show ?case by (intro exI [of _ "xs @ [x]"]) (simp add: run_ops_append runs_in_step)
next
  case (evolves_others e n)
  then obtain xs where e: "e = run_ops (core_step S0) xs d" by blast
  from assms(1) obtain ys where "ho_others (si_host S) n e = run_ops (core_step S0) ys e"
    by (auto simp: runs_in_def)
  with e show ?case by (intro exI [of _ "xs @ ys"]) (simp add: run_ops_append)
qed

lemma serve_runs: "runs_in S0 S \<Longrightarrow> \<exists>xs. fst (serve S decode hs q s) = run_ops (core_step S0) xs (fst s)"
  by (rule evolves_runs [OF _ serve_evolves])

lemma serve_all_runs:
  "\<forall>x \<in> set rs. runs_in S0 (fst x) \<Longrightarrow>
   \<exists>xs. fst (serve_all decode rs s) = run_ops (core_step S0) xs (fst s)"
proof (induction decode rs s rule: serve_all.induct)
  case (1 decode s)
  show ?case by (rule exI [of _ "[]"]) simp
next
  case (2 decode S hs q rest s)
  from "2.prems" have "runs_in S0 S" by simp
  from serve_runs [OF this, of decode hs q s] obtain xs where "fst (serve S decode hs q s) = run_ops (core_step S0) xs (fst s)" by blast
  moreover have "\<exists>ys. fst (serve_all decode rest (serve S decode hs q s))
      = run_ops (core_step S0) ys (fst (serve S decode hs q s))"
    using "2.IH" "2.prems" by simp
  then obtain ys where "fst (serve_all decode rest (serve S decode hs q s))
      = run_ops (core_step S0) ys (fst (serve S decode hs q s))" ..
  ultimately show ?case by (intro exI [of _ "xs @ ys"]) (simp add: run_ops_append)
qed

interpretation core: op_invariant "core_step S" "\<lambda>d. usable S \<longrightarrow> core_ok (ho_platform (si_host S)) d" for S
  by unfold_locales (simp add: core_step_ok)

interpretation withdrawn: op_invariant "core_step S" "\<lambda>d. revoked_in g d" for S g
proof
  fix d :: db and x :: "draw \<times> core_op"
  assume out: "revoked_in g d"
  obtain w y where x: "x = (w, y)" by (cases x)
  have kept: "revoked_in g d'" if "only A d d'" "VaultTables \<notin> A" for A d'
  proof -
    from that have "same_part VaultTables d d'" unfolding only_def by blast
    with out show ?thesis by (simp add: same_vault_tables_def revoked_in_def)
  qed
  show "revoked_in g (core_step S x d)"
  proof (cases y)
    case (InVault v)
    with x revocation.step_inv [OF out] show ?thesis by simp
  next
    case (InWork v)
    with x grant_revocation.step_inv [OF out] show ?thesis by simp
  next
    case Initialize
    have "only {AdminDocuments} d (after (initialize_admin (ho_platform (si_host S)) (ho_config (si_host S)) d) d)"
      by (rule after_cases) (auto intro: initialize_only)
    from kept [OF this] show ?thesis by (simp add: x Initialize)
  next
    case (InAdmin v)
    from kept [OF admin_only.step_rel] show ?thesis by (simp add: x InAdmin)
  next
    case (InPolicy v)
    from kept [OF policy_only.step_rel] show ?thesis by (simp add: x InPolicy)
  next
    case (InJournal v)
    from kept [OF journal_only.step_rel] show ?thesis by (simp add: x InJournal)
  next
    case (InChat v)
    from kept [OF chat_only.step_rel] show ?thesis by (simp add: x InChat)
  next
    case (InReports a b c)
    show ?thesis unfolding x InReports core_step.simps by (rule kept [OF reports_only.step_rel]) simp
  qed
qed


lemma revoke_grant_out:
  assumes "revoke_grant E hs g s = (Inr u, s')"
  shows "revoked_in g (fst s')"
proof -
  obtain s1 where r: "in_vault E 1 bad (committing (revoke (ho_platform E) (draw_at E 1) g)) s = (Inr True, s1)"
    and s': "s' = s1"
    using assms by (auto simp: revoke_grant_def as_owner_cases found_def require_def and_then_Inr split: if_splits)
  then obtain d where "committing (revoke (ho_platform E) (draw_at E 1) g) d = (Inr True, fst s1)"
    by (auto simp: in_vault_Inr on_vault_Inr)
  then show ?thesis
    using revoke_revokes by (auto simp: s' committing_def commit_def split: sum.splits)
qed

section \<open>Properties\<close>

lemma demo_runs: "runs_in demo_site demo_site"
proof -
  have "\<exists>xs. \<forall>d. d = run_ops (core_step demo_site) xs d" by (rule exI [of _ "[]"]) simp
  then show ?thesis by (simp add: runs_in_def) (simp add: demo_site_def)
qed

lemma demo_consistent: "core_ok demo_platform gate_db"
  unfolding core_ok_def
proof
  fix p
  have "vault_wf gate_db" using vault_wf_same [of demo_vault gate_db] demo_vault_wf
    by (simp add: same_vault_tables_def gate_db_def)
  moreover have "admin_ok demo_platform gate_db"
    by (simp add: admin_ok_def gate_db_def gate_provider_def primary_ready_def demo_urls)
  ultimately show "part_ok demo_platform p gate_db"
    by (cases p) (simp_all add: budget_ok_def decisions_wf_def journal_wf_def continuity_wf_def
      gate_db_def demo_vault_def empty_db_def)
qed





text \<open>C4: A withdrawn permission discloses nothing: once the owner's API has answered that a permission is
  withdrawn, then after any further requests of the process, none that asks for it sends anything.\<close>

theorem withdrawn_permission_discloses_nothing:
  assumes "app S hs (DeleteGrant g) s = (Inr r, s1)"
    and "\<forall>x \<in> set requests. runs_in S0 (fst x)" and "runs_in S0 S'"
    and "upstream (si_host S') body (Some g) p m who (serve_all decode requests s1) = (r', s2)"
  shows "snd s2 = snd (serve_all decode requests s1) \<and> (\<exists>e. r' = Inl e)"
proof -
  let ?s = "serve_all decode requests s1"
  obtain u where "revoke_grant (si_host S) hs g s = (Inr u, s1)"
    using assms(1) by (auto simp: reply_def and_then_Inr)
  then have "revoked_in g (fst s1)" by (rule revoke_grant_out)
  with serve_all_runs [OF assms(2), of decode s1] have out: "revoked_in g (fst ?s)"
    using withdrawn.run_inv by metis
  have no: "prepare_request (si_host S') who p (Some g) m body ?s \<noteq> (Inr x, s0)" for x s0
  proof
    assume a: "prepare_request (si_host S') who p (Some g) m body ?s = (Inr x, s0)"
    obtain body' ms n where x: "x = (body', ms, n)" by (cases x)
    obtain t0 where c: "authorized_context (si_host S') 10 who (pv_base p) (Some g) ?s = (Inr ms, t0)"
      using prepare_request_Inr [OF a [unfolded x]] by blast
    from authorized_context_Inr [OF c] have e: "enter (si_host S') 10 ?s = (Inr (), t0)"
      and k: "context_for (ho_platform (si_host S')) (clock_at (si_host S') 10) g (pv_base p) None (fst t0) = Inr ms" by auto
    from sound_from [OF sound_enter, of S' ?s 10] e have "evolves S' (fst ?s) (fst t0)" by simp
    from evolves_runs [OF assms(3) this] out withdrawn.run_inv have "revoked_in g (fst t0)" by metis
    with k show False by (simp add: context_for_def revoked_grant_check)
  qed
  obtain r1 s3 where 1: "prepare_request (si_host S') who p (Some g) m body ?s = (r1, s3)" by (rule prod.exhaust)
  with no [of _ s3] obtain e where r1: "r1 = Inl e" by (cases r1) blast+
  have "snd s3 = snd ?s" using sent_prepare_request [of "si_host S'" who p "Some g" m body ?s] 1 by simp
  with assms(4) 1 r1 show ?thesis by (auto simp: upstream_def)
qed

lemma withdrawn_permission_discloses_nothing_witness:
  "\<exists>s1 e s2. app demo_site capture_headers (DeleteGrant ''g1'') (gate_db, []) = (Inr NoContent, s1)
     \<and> upstream gate_host gate_body (Some ''g1'') gate_provider Proxied Owner
         (serve demo_site (\<lambda>_. None) capture_headers (OwnerCall GetGrants) s1) = (Inl e, s2)
     \<and> snd s2 = snd (serve demo_site (\<lambda>_. None) capture_headers (OwnerCall GetGrants) s1)"
proof -
  have host: "si_host demo_site = gate_host" by (simp add: demo_site_def)
  have p: "d_providers gate_db = Some (Some [gate_provider])" by (simp add: gate_db_def)
  have "case revoke demo_platform (demo_draw 3 ''u'') ''g1'' gate_db of Inl e \<Rightarrow> False | Inr (b, d') \<Rightarrow> b" by code_simp
  then obtain d1 where r: "revoke demo_platform (demo_draw 3 ''u'') ''g1'' gate_db = Inr (True, d1)"
    by (auto split: sum.splits)
  have a: "app demo_site capture_headers (DeleteGrant ''g1'') (gate_db, []) = (Inr NoContent, d1, [])"
    using demo_owner r by (simp add: revoke_grant_def host as_owner_cases in_vault_def gate_enter [OF p] on_vault_def
      committing_def commit_def found_def require_def reply_def)
  let ?s = "serve demo_site (\<lambda>_. None) capture_headers (OwnerCall GetGrants) (d1, [])"
  obtain x s2 where u: "upstream (si_host demo_site) gate_body (Some ''g1'') gate_provider Proxied Owner
      (serve_all (\<lambda>_. None) [(demo_site, capture_headers, OwnerCall GetGrants)] (d1, [])) = (x, s2)"
    by (rule prod.exhaust)
  have "\<forall>x \<in> set [(demo_site, capture_headers, OwnerCall GetGrants)]. runs_in demo_site (fst x)" by (simp add: demo_runs)
  from withdrawn_permission_discloses_nothing [OF a this demo_runs u] u a show ?thesis by (cases s2) (auto simp: host)
qed

end
