(* ===== verification/Recovery.thy ===== *)
theory Recovery
  imports OwnerApi
begin

text \<open>
  Encrypted recovery archives (recovery.rs) and their two handlers (http/professional.rs): the bounded
  snapshot of the tables, sealing and opening an archive, and the restoration into an unused installation.
  SQLite, Argon2id, AES-GCM and the derived serialization are parameters.
\<close>

section \<open>The libraries\<close>

text \<open>A cell as rusqlite shows it: \<open>CRaw\<close> is text that is not UTF-8; a real number is its printed form.\<close>

datatype cell = CNull | CInt int | CReal string | CText string | CRaw string | CBlob string

record sql =
  sq_names :: "string list"
  sq_dump :: "string \<Rightarrow> db \<Rightarrow> cell list list"
  sq_insert :: "string \<Rightarrow> cell list \<Rightarrow> db \<Rightarrow> db res"
  sq_foreign_errors :: "db \<Rightarrow> nat"
  sq_real :: "number \<Rightarrow> string option"

record snapshot =
  sn_format :: string
  sn_created :: string
  sn_tables :: "(string \<times> json list list) list"

record sealer =
  se_argon2 :: "string \<Rightarrow> string \<Rightarrow> string option"
  se_seal :: "string \<Rightarrow> string \<Rightarrow> string \<Rightarrow> string \<Rightarrow> string option"
  se_open :: "string \<Rightarrow> string \<Rightarrow> string \<Rightarrow> string \<Rightarrow> string option"
  se_text :: "snapshot \<Rightarrow> string"
  se_parse :: "string \<Rightarrow> snapshot option"

section \<open>Archives\<close>

definition recovery_format :: string where "recovery_format = ''omni-workspace-recovery-v1''"

definition max_plaintext :: nat where "max_plaintext = 400000"

definition recovery_memory :: nat where "recovery_memory = 65536"

definition recovery_tables :: "(string \<times> string list) list" where
  "recovery_tables =
    [(''sources'', [''id'', ''kind'', ''content'', ''metadata'', ''created_at'']),
     (''memories'', [''id'', ''source_id'', ''content'', ''status'', ''created_at'', ''updated_at'']),
     (''memory_history'', [''id'', ''memory_id'', ''content'', ''status'', ''recorded_at'']),
     (''grants'', [''id'', ''destination'', ''scope'', ''expires_at'', ''revoked_at'', ''created_at'']),
     (''receipts'', [''id'', ''destination'', ''memory_ids'', ''created_at'', ''grant_id'', ''status'']),
     (''interactions'', [''id'', ''week'', ''topic'', ''latency_bucket'', ''token_bucket'', ''success'', ''created_at'']),
     (''analytics_reports'', [''week'', ''report_id'', ''epsilon'', ''payload'', ''created_at'']),
     (''settings'', [''key'', ''value'']),
     (''request_policy'', [''id'', ''revision'', ''document'']),
     (''policy_decisions'', [''seq'', ''id'', ''document'']),
     (''journal_interactions'', [''id'', ''provider_id'', ''provider_name'', ''model'', ''status'', ''started_at'', ''record'']),
     (''journal_audit'', [''id'', ''created_at'', ''action'', ''level'', ''provider_id'', ''model'', ''entity_id'', ''record'']),
     (''work_instance'', [''id'', ''instance_id'', ''label'', ''enabled'']),
     (''work_requests'', [''interaction_id'', ''principal_id'', ''receipt_id'', ''preflight_us'', ''policy_us'', ''created_at'']),
     (''continuity_threads'', [''id'', ''title'', ''scope'', ''provider_id'', ''destination'', ''model'', ''grant_id'',
        ''created_at'', ''expires_at'', ''revision'', ''pending_request'']),
     (''continuity_turns'', [''thread_id'', ''request_id'', ''request_hash'', ''user_text'', ''assistant_text'',
        ''receipt_id'', ''interaction_id'', ''created_at'', ''position''])]"

record archive =
  ra_format :: string
  ra_kdf :: string
  ra_memory :: nat
  ra_iterations :: nat
  ra_parallelism :: nat
  ra_salt :: string
  ra_nonce :: string
  ra_ciphertext :: string

definition recovery_key :: "sealer \<Rightarrow> string \<Rightarrow> string \<Rightarrow> string res" where
  "recovery_key C password salt =
     rbind (ensure (16 \<le> length password \<and> length password \<le> 1024)
       ''Use a recovery passphrase of 16-1024 UTF-8 bytes, stored separately from the archive'') (\<lambda>_.
     ok_or (se_argon2 C password salt) (Bail ''Recovery key derivation failed''))"

text \<open>\<open>salt\<close> and \<open>nonce\<close> are what the operating system's generator fills in.\<close>

definition encrypt :: "platform \<Rightarrow> sealer \<Rightarrow> string \<Rightarrow> string \<Rightarrow> string \<Rightarrow> string \<Rightarrow> archive res" where
  "encrypt P C salt nonce bytes password =
     rbind (ensure (length bytes \<le> max_plaintext)
       ''Recovery snapshot exceeds 400000 bytes; no partial archive was created'') (\<lambda>_.
     rbind (recovery_key C password salt) (\<lambda>key.
     rbind (ok_or (se_seal C key nonce recovery_format bytes) (Bail ''Recovery encryption failed'')) (\<lambda>ciphertext.
     Inr \<lparr>ra_format = recovery_format, ra_kdf = ''argon2id-v19'', ra_memory = recovery_memory, ra_iterations = 3,
          ra_parallelism = 1, ra_salt = hex_encode P salt, ra_nonce = hex_encode P nonce,
          ra_ciphertext = hex_encode P ciphertext\<rparr>)))"

definition archive_supported :: "archive \<Rightarrow> bool" where
  "archive_supported a \<longleftrightarrow> ra_format a = recovery_format \<and> ra_kdf a = ''argon2id-v19'' \<and> ra_memory a = recovery_memory
     \<and> ra_iterations a = 3 \<and> ra_parallelism a = 1 \<and> length (ra_salt a) = 32 \<and> length (ra_nonce a) = 24
     \<and> length (ra_ciphertext a) \<le> 2 * (max_plaintext + 16)"

definition schema_supported :: "snapshot \<Rightarrow> bool" where
  "schema_supported snap \<longleftrightarrow> sn_format snap = recovery_format \<and> length (sn_tables snap) = length recovery_tables
     \<and> list_all (\<lambda>(t, _). map_of (sn_tables snap) t \<noteq> None) recovery_tables"

definition decrypt :: "platform \<Rightarrow> sealer \<Rightarrow> archive \<Rightarrow> string \<Rightarrow> snapshot res" where
  "decrypt P C a password =
     rbind (ensure (archive_supported a) ''Unsupported or oversized recovery archive'') (\<lambda>_.
     rbind (ok_or (hex_decode P (ra_salt a)) (Decode ''salt'')) (\<lambda>salt.
     rbind (ok_or (hex_decode P (ra_nonce a)) (Decode ''nonce'')) (\<lambda>nonce.
     rbind (ok_or (hex_decode P (ra_ciphertext a)) (Decode ''ciphertext'')) (\<lambda>ciphertext.
     rbind (recovery_key C password salt) (\<lambda>key.
     rbind (ok_or (se_open C key nonce recovery_format ciphertext)
       (Bail ''Wrong passphrase or damaged archive; nothing was restored'')) (\<lambda>bytes.
     rbind (ok_or (se_parse C bytes) (Decode ''snapshot'')) (\<lambda>snap.
     rbind (ensure (schema_supported snap) ''Unsupported recovery schema'') (\<lambda>_. Inr snap))))))))"

section \<open>The snapshot\<close>

fun json_of_cell :: "cell \<Rightarrow> json res" where
  "json_of_cell CNull = Inr JNull"
| "json_of_cell (CInt n) = Inr (JNum (if n < 0 then SInt n else UInt (nat n)))"
| "json_of_cell (CReal t) = Inr (JNum (Float t))"
| "json_of_cell (CText t) = Inr (JStr t)"
| "json_of_cell (CRaw t) = Inl (Decode ''utf8'')"
| "json_of_cell (CBlob t) = Inl (Bail ''Binary recovery columns are unsupported'')"

text \<open>The rows of a table under the two limits, with the numbers of rows and bytes so far.\<close>

fun dump_rows :: "platform \<Rightarrow> cell list list \<Rightarrow> nat \<times> nat \<Rightarrow> (json list list \<times> nat \<times> nat) res" where
  "dump_rows P [] (n, b) = Inr ([], n, b)"
| "dump_rows P (row # rows) (n, b) =
     rbind (ensure (Suc n \<le> 10000) ''Recovery snapshot exceeds 10000 records; no partial archive was created'') (\<lambda>_.
     rbind (map_res json_of_cell row) (\<lambda>cells.
     let b' = b + length (json_text P (JArr cells)) in
     rbind (ensure (b' \<le> max_plaintext) ''Recovery snapshot exceeds 400000 bytes; no partial archive was created'') (\<lambda>_.
     rbind (dump_rows P rows (Suc n, b')) (\<lambda>(rest, c). Inr (cells # rest, c)))))"

fun dump_tables ::
    "platform \<Rightarrow> sql \<Rightarrow> string list \<Rightarrow> db \<Rightarrow> nat \<times> nat \<Rightarrow> ((string \<times> json list list) list \<times> nat \<times> nat) res" where
  "dump_tables P Q [] d c = Inr ([], c)"
| "dump_tables P Q (t # ts) d c =
     rbind (dump_rows P (sq_dump Q t d) c) (\<lambda>(rows, c).
     rbind (dump_tables P Q ts d c) (\<lambda>(rest, c). Inr ((t, rows) # rest, c)))"

definition tables_known :: "sql \<Rightarrow> bool" where
  "tables_known Q \<longleftrightarrow> list_all (\<lambda>t. List.member (map fst recovery_tables) t
     \<or> List.member [''sqlite_sequence'', ''work_clients'', ''work_grants''] t) (sq_names Q)"

definition recovery_snapshot :: "platform \<Rightarrow> sql \<Rightarrow> sealer \<Rightarrow> int \<Rightarrow> db \<Rightarrow> string stmts" where
  "recovery_snapshot P Q C now d =
     (let d = prune_conversations P now d in
      (rbind (ensure (tables_known Q) ''The vault contains an unsupported table; recovery export refused'') (\<lambda>_.
       rbind (dump_tables P Q (map fst recovery_tables) d (0, 0)) (\<lambda>(tables, _).
       Inr (se_text C \<lparr>sn_format = recovery_format, sn_created = rfc3339 P now, sn_tables = tables\<rparr>))), d))"

section \<open>Restoration\<close>

definition recovery_empty :: "db \<Rightarrow> bool" where
  "recovery_empty d \<longleftrightarrow> d_sources d = [] \<and> d_memories d = [] \<and> d_grants d = [] \<and> d_receipts d = []
     \<and> d_interactions d = [] \<and> d_reports d = [] \<and> d_clients d = [] \<and> d_threads d = [] \<and> d_journal d = []
     \<and> list_all (\<lambda>r. au_action r = ''core_started'') (d_audit d)"

text \<open>DELETE FROM, of all tables but those of the work clients.\<close>

definition emptied :: "db \<Rightarrow> db" where
  "emptied d = d\<lparr>d_sources := [], d_memories := [], d_history := [], d_grants := [], d_receipts := [],
     d_interactions := [], d_reports := [], d_consent := None, d_settings := None, d_providers := None,
     d_policy := None, d_decisions := [], d_journal := [], d_audit := [], d_instance := None, d_requests := [],
     d_threads := [], d_turns := []\<rparr>"

fun cell_of_json :: "sql \<Rightarrow> json \<Rightarrow> cell res" where
  "cell_of_json Q JNull = Inr CNull"
| "cell_of_json Q (JStr t) = Inr (CText t)"
| "cell_of_json Q (JNum (SInt n)) = Inr (CInt n)"
| "cell_of_json Q (JNum (UInt n)) = (if n \<le> i64_max then Inr (CInt (int n))
     else map_sum id CReal (ok_or (sq_real Q (UInt n)) (Bail ''Invalid recovery number'')))"
| "cell_of_json Q (JNum (Float t)) = map_sum id CReal (ok_or (sq_real Q (Float t)) (Bail ''Invalid recovery number''))"
| "cell_of_json Q (JBool b) = Inl (Bail ''Invalid recovery cell'')"
| "cell_of_json Q (JArr xs) = Inl (Bail ''Invalid recovery cell'')"
| "cell_of_json Q (JObj kvs) = Inl (Bail ''Invalid recovery cell'')"

fun insert_rows :: "sql \<Rightarrow> string \<Rightarrow> nat \<Rightarrow> json list list \<Rightarrow> nat \<times> db \<Rightarrow> (nat \<times> db) res" where
  "insert_rows Q t columns [] (n, d) = Inr (n, d)"
| "insert_rows Q t columns (row # rows) (n, d) =
     rbind (ensure (length row = columns) ''Recovery column count is invalid; nothing was restored'') (\<lambda>_.
     rbind (map_res (cell_of_json Q) row) (\<lambda>cells.
     rbind (sq_insert Q t cells d) (\<lambda>d. insert_rows Q t columns rows (Suc n, d))))"

text \<open>Indexing with a name that is not a key panics.\<close>

fun insert_tables :: "sql \<Rightarrow> (string \<times> string list) list \<Rightarrow> snapshot \<Rightarrow> nat \<times> db \<Rightarrow> (nat \<times> db) res" where
  "insert_tables Q [] snap c = Inr c"
| "insert_tables Q ((t, columns) # ts) snap c =
     rbind (ok_or (map_of (sn_tables snap) t) (Decode t)) (\<lambda>rows.
     rbind (insert_rows Q t (length columns) rows c) (\<lambda>c. insert_tables Q ts snap c))"

text \<open>Old identity, permissions, pending requests and consent do not come back.\<close>

definition without_access :: "string \<Rightarrow> string \<Rightarrow> db \<Rightarrow> db" where
  "without_access instance_id now d = d\<lparr>
     d_instance := map_option (\<lambda>r. r\<lparr>wi_instance := instance_id\<rparr>) (d_instance d),
     d_grants := map (revoke_row now) (d_grants d),
     d_threads := map (\<lambda>t. t\<lparr>th_pending := None, th_revision := th_revision t + 1\<rparr>) (d_threads d),
     d_consent := Some ''0''\<rparr>"

definition restore_tables :: "platform \<Rightarrow> sql \<Rightarrow> draw \<Rightarrow> string \<Rightarrow> snapshot \<Rightarrow> db \<Rightarrow> (nat \<times> string) tx" where
  "restore_tables P Q w instance_id snap d =
     rbind (insert_tables Q recovery_tables snap (0, emptied d)) (\<lambda>(rows, d1).
     let d2 = without_access instance_id (rfc3339 P (now_at w)) d1 in
     rbind (ok_or (d_policy d2) (Sql ''Query returned no rows'')) (\<lambda>row.
     rbind (ok_or (pr_document row) (Decode ''document'')) (\<lambda>spec.
     rbind (compile P spec) (\<lambda>_.
     rbind (ensure (sq_foreign_errors Q d2 = 0) ''Recovery references are invalid; nothing was restored'') (\<lambda>_.
     audited P w 0 ''recovery_restored'' (no_details\<lparr>ad_count := Some rows\<rparr>) (rows, instance_id) d2)))))"

definition restore_snapshot :: "platform \<Rightarrow> sql \<Rightarrow> draw \<Rightarrow> snapshot \<Rightarrow> db \<Rightarrow> (nat \<times> string) stmts" where
  "restore_snapshot P Q w snap d =
     (if \<not> recovery_empty d
      then (Inl (Bail ''Restore requires an unused installation; existing work is never overwritten''), d)
      else case d_instance d of
          None \<Rightarrow> (Inl (Sql ''Query returned no rows''), d)
        | Some row \<Rightarrow>
            then_stmt (commit (restore_tables P Q w (wi_instance row) snap d) d)
              (\<lambda>y d. (Inr y, prune_conversations P (now_at w) d)))"

definition restore :: "platform \<Rightarrow> sql \<Rightarrow> sealer \<Rightarrow> draw \<Rightarrow> archive \<Rightarrow> string \<Rightarrow> db \<Rightarrow> (nat \<times> string) stmts" where
  "restore P Q C w a password d =
     (case decrypt P C a password of
        Inl e \<Rightarrow> (Inl e, d)
      | Inr snap \<Rightarrow> restore_snapshot P Q w snap d)"

section \<open>The handlers\<close>

text \<open>\<open>slot\<close>: the semaphore of one permit could be taken; \<open>worker\<close>: the runtime ran the blocking task.\<close>

definition recovery_slot :: "bool \<Rightarrow> world \<Rightarrow> unit act" where
  "recovery_slot slot = require slot (Api 429 ''Another recovery operation is running'')"

definition recovery_worker :: "bool \<Rightarrow> world \<Rightarrow> unit act" where
  "recovery_worker worker = require worker (Api 500 ''Recovery worker stopped'')"

definition export_recovery ::
    "host \<Rightarrow> sql \<Rightarrow> sealer \<Rightarrow> bool \<Rightarrow> bool \<Rightarrow> headers \<Rightarrow> string \<Rightarrow> world \<Rightarrow> archive act" where
  "export_recovery E Q C slot worker hs passphrase = as_owner E hs (\<lambda>s.
     and_then (recovery_slot slot s) (\<lambda>_ s.
     and_then (in_vault E 1 bad (recovery_snapshot (ho_platform E) Q C (clock_at E 1)) s) (\<lambda>bytes s.
     and_then (recovery_worker worker s) (\<lambda>_ s.
     and_then (check bad (encrypt (ho_platform E) C (take 16 (random (draw_at E 2) 0)) (take 12 (random (draw_at E 2) 1))
         bytes passphrase) s) (\<lambda>a s.
     and_then (enter E 3 s) (\<lambda>_ s.
     and_then (audit_event E 3 ''recovery_exported'' no_details s) (\<lambda>_. returning a)))))))"

definition restore_recovery ::
    "host \<Rightarrow> sql \<Rightarrow> sealer \<Rightarrow> bool \<Rightarrow> bool \<Rightarrow> headers \<Rightarrow> string \<Rightarrow> archive \<Rightarrow> bool \<Rightarrow> world \<Rightarrow> (nat \<times> string) act" where
  "restore_recovery E Q C slot worker hs passphrase a acknowledged = as_owner E hs (\<lambda>s.
     and_then (require acknowledged (Api 400
       ''Confirm restoration into an unused installation with all sharing permissions revoked'') s) (\<lambda>_ s.
     and_then (recovery_slot slot s) (\<lambda>_ s.
     and_then (in_vault E 1 bad (reading (\<lambda>d. Inr (recovery_empty d))) s) (\<lambda>unused s.
     and_then (require unused (Api 400
       ''Restore requires an unused installation; existing work is never overwritten'') s) (\<lambda>_ s.
     and_then (recovery_worker worker s) (\<lambda>_ s.
     let s = (ho_others E 2 (fst s), snd s) in
     and_then (require (oc_lock (ho_at E 2)) (Api 400 ''Vault unavailable'') s) (\<lambda>_.
     on_vault bad (restore (ho_platform E) Q C (draw_at E 2) a passphrase))))))))"

end
