(* ===== verification/RecoveryProperties.thy ===== *)
theory RecoveryProperties
  imports CoreProperties Recovery
begin

text \<open>
  Recovery archives: what is sealed is what is restored, a restoration brings no access back, and one that
  fails or meets an installation in use changes nothing.
\<close>

section \<open>Archives open\<close>

text \<open>Documented laws of the libraries: hexadecimal digits, authenticated encryption with a tag of 16 bytes.\<close>

definition sealer_laws :: "platform \<Rightarrow> sealer \<Rightarrow> bool" where
  "sealer_laws P C \<longleftrightarrow> (\<forall>s. hex_decode P (hex_encode P s) = Some s \<and> length (hex_encode P s) = 2 * length s)
     \<and> (\<forall>k n a m c. se_seal C k n a m = Some c \<longrightarrow> se_open C k n a c = Some m \<and> length c = length m + 16)"

text \<open>Laws of SQLite: a query returns a cell for each column, integers are of 64 bits, a real number is read
  back as it is printed.\<close>

definition cell_ok :: "sql \<Rightarrow> cell \<Rightarrow> bool" where
  "cell_ok Q c = (case c of CInt n \<Rightarrow> - (2 ^ 63) \<le> n \<and> n < 2 ^ 63 | CReal t \<Rightarrow> sq_real Q (Float t) = Some t | _ \<Rightarrow> True)"

definition sql_laws :: "sql \<Rightarrow> bool" where
  "sql_laws Q \<longleftrightarrow> (\<forall>t cols d row. (t, cols) \<in> set recovery_tables \<longrightarrow> row \<in> set (sq_dump Q t d) \<longrightarrow>
     length row = length cols \<and> list_all (cell_ok Q) row)"

lemma cell_roundtrip: "json_of_cell c = Inr v \<Longrightarrow> cell_ok Q c \<Longrightarrow> cell_of_json Q v = Inr c"
  by (cases c) (auto simp: cell_ok_def i64_max_def ok_or_def)

lemma cells_roundtrip:
  "map_res json_of_cell row = Inr vs \<Longrightarrow> list_all (cell_ok Q) row \<Longrightarrow> map_res (cell_of_json Q) vs = Inr row \<and> length vs = length row"
  by (induction row arbitrary: vs) (auto simp: rbind_eq_Inr cell_roundtrip)

text \<open>The reference: the cells of a table inserted as they were selected.\<close>

fun reinsert_rows :: "sql \<Rightarrow> string \<Rightarrow> cell list list \<Rightarrow> nat \<times> db \<Rightarrow> (nat \<times> db) res" where
  "reinsert_rows Q t [] c = Inr c"
| "reinsert_rows Q t (row # rows) (n, e) = rbind (sq_insert Q t row e) (\<lambda>e. reinsert_rows Q t rows (Suc n, e))"

fun reinsert :: "sql \<Rightarrow> string list \<Rightarrow> db \<Rightarrow> nat \<times> db \<Rightarrow> (nat \<times> db) res" where
  "reinsert Q [] d c = Inr c"
| "reinsert Q (t # ts) d c = rbind (reinsert_rows Q t (sq_dump Q t d) c) (reinsert Q ts d)"

lemma dump_rows_reinsert:
  assumes "dump_rows P rows c = Inr (jss, c')" and "\<forall>row \<in> set rows. length row = k \<and> list_all (cell_ok Q) row"
  shows "insert_rows Q t k jss (m, e) = reinsert_rows Q t rows (m, e)"
  using assms
proof (induction P rows c arbitrary: jss c' m e rule: dump_rows.induct)
  case (2 P row rows n b)
  from "2.prems"(1) obtain cells rest where cells: "map_res json_of_cell row = Inr cells" and jss: "jss = cells # rest"
    and rest: "dump_rows P rows (Suc n, b + length (json_text P (JArr cells))) = Inr (rest, c')"
    and lim: "Suc n \<le> 10000" "b + length (json_text P (JArr cells)) \<le> max_plaintext"
    by (auto simp: rbind_eq_Inr ensure_eq_Inr Let_def)
  have "insert_rows Q t k rest (m', e') = reinsert_rows Q t rows (m', e')" for m' e'
    using "2.prems"(2) by (intro "2.IH" [OF refl rest]) simp
  with cells_roundtrip [OF cells, of Q] "2.prems"(2) show ?case by (simp add: jss ensure_def)
qed simp

lemma dump_tables_reinsert:
  assumes "dump_tables P Q (map fst ts) d c = Inr (tables, c')" and "sql_laws Q" and "set ts \<subseteq> set recovery_tables"
    and "distinct (map fst ts)" and "\<forall>(t, rows) \<in> set tables. map_of (sn_tables snap) t = Some rows"
  shows "insert_tables Q ts snap (m, e) = reinsert Q (map fst ts) d (m, e)"
  using assms
proof (induction ts arbitrary: c tables m e)
  case (Cons tc ts)
  obtain t cols where tc: "tc = (t, cols)" by (cases tc)
  from Cons.prems(1) obtain rows c1 rest where rows: "dump_rows P (sq_dump Q t d) c = Inr (rows, c1)"
    and rest: "dump_tables P Q (map fst ts) d c1 = Inr (rest, c')" and tables: "tables = (t, rows) # rest"
    by (auto simp: tc rbind_eq_Inr)
  have "\<forall>row \<in> set (sq_dump Q t d). length row = length cols \<and> list_all (cell_ok Q) row"
    using Cons.prems(2,3) by (auto simp: tc sql_laws_def)
  from dump_rows_reinsert [OF rows this] have r: "insert_rows Q t (length cols) rows (m, e) = reinsert_rows Q t (sq_dump Q t d) (m, e)" .
  have "insert_tables Q ts snap = reinsert Q (map fst ts) d"
  proof
    fix z
    show "insert_tables Q ts snap z = reinsert Q (map fst ts) d z"
      using Cons.IH [OF rest Cons.prems(2), of "fst z" "snd z"] Cons.prems(3-5) by (simp add: tc tables)
  qed
  with r Cons.prems(5) show ?case by (simp add: tc tables)
qed simp

lemma dump_tables_names: "dump_tables P Q ts d c = Inr (tables, c') \<Longrightarrow> map fst tables = ts"
  by (induction ts arbitrary: c tables) (auto simp: rbind_eq_Inr)

lemma recovery_tables_distinct: "distinct (map fst recovery_tables)"
  by (simp add: recovery_tables_def)

lemma encrypt_decrypt:
  assumes "encrypt P C salt nonce bytes password = Inr a" and "sealer_laws P C" and "length salt = 16" and "length nonce = 12"
    and "se_parse C bytes = Some snap" and "schema_supported snap"
  shows "decrypt P C a password = Inr snap"
proof -
  from assms(1) obtain key c where b: "length bytes \<le> max_plaintext" and k: "recovery_key C password salt = Inr key"
    and c: "se_seal C key nonce recovery_format bytes = Some c"
    and a: "a = \<lparr>ra_format = recovery_format, ra_kdf = ''argon2id-v19'', ra_memory = recovery_memory, ra_iterations = 3,
          ra_parallelism = 1, ra_salt = hex_encode P salt, ra_nonce = hex_encode P nonce, ra_ciphertext = hex_encode P c\<rparr>"
    by (auto simp: encrypt_def rbind_eq_Inr ensure_eq_Inr ok_or_eq_Inr)
  have "se_open C key nonce recovery_format c = Some bytes" "length c = length bytes + 16"
    using assms(2) c by (auto simp: sealer_laws_def)
  with assms(2-6) b k show ?thesis
    by (simp add: decrypt_def a archive_supported_def sealer_laws_def ok_or_def ensure_def)
qed

section \<open>Access does not come back\<close>

definition keeps_clients :: "sql \<Rightarrow> bool" where
  "keeps_clients Q \<longleftrightarrow> (\<forall>t cells e e'. t \<in> fst ` set recovery_tables \<longrightarrow> sq_insert Q t cells e = Inr e' \<longrightarrow> d_clients e' = d_clients e)"

lemma insert_rows_clients:
  "keeps_clients Q \<Longrightarrow> t \<in> fst ` set recovery_tables \<Longrightarrow> insert_rows Q t k rows (n, e) = Inr (n', e') \<Longrightarrow> d_clients e' = d_clients e"
proof (induction rows arbitrary: n e)
  case (Cons row rows)
  from Cons.prems(3) obtain cells e1 where "sq_insert Q t cells e = Inr e1" "insert_rows Q t k rows (Suc n, e1) = Inr (n', e')"
    by (auto simp: rbind_eq_Inr)
  with Cons.IH [OF Cons.prems(1,2)] Cons.prems(1,2) show ?case by (metis keeps_clients_def)
qed simp

lemma insert_tables_clients:
  "keeps_clients Q \<Longrightarrow> set ts \<subseteq> set recovery_tables \<Longrightarrow> insert_tables Q ts snap (n, e) = Inr (n', e') \<Longrightarrow> d_clients e' = d_clients e"
proof (induction ts arbitrary: n e)
  case (Cons tc ts)
  obtain t cols where tc: "tc = (t, cols)" by (cases tc)
  from Cons.prems obtain rows n1 e1 where r: "insert_rows Q t (length cols) rows (n, e) = Inr (n1, e1)"
    and rest: "insert_tables Q ts snap (n1, e1) = Inr (n', e')" by (auto simp: tc rbind_eq_Inr)
  have "t \<in> fst ` set recovery_tables" using Cons.prems(2) by (force simp: tc)
  from insert_rows_clients [OF Cons.prems(1) this r] Cons.IH [OF Cons.prems(1) _ rest] Cons.prems(2) show ?case by simp
qed simp

lemma restore_tables_Inr:
  assumes "restore_tables P Q w i snap d = Inr (y, d')" and "keeps_clients Q" and "d_clients d = []"
  shows "snd y = i \<and> d_clients d' = [] \<and> d_consent d' = Some ''0''
     \<and> (\<forall>r \<in> set (d_grants d'). gr_revoked r \<noteq> None)
     \<and> (\<forall>row. d_instance d' = Some row \<longrightarrow> wi_instance row = i)
     \<and> (\<forall>t \<in> set (d_threads d'). th_pending t = None)
     \<and> (\<exists>row spec. d_policy d' = Some row \<and> pr_document row = Some spec \<and> is_ok (compile P spec))"
proof -
  from assms(1) obtain rows d1 row spec c where ins: "insert_tables Q recovery_tables snap (0, emptied d) = Inr (rows, d1)"
    and spec: "d_policy d1 = Some row" "pr_document row = Some spec" "compile P spec = Inr c" and y: "y = (rows, i)"
    and au: "audit_on P w 0 ''recovery_restored'' (no_details\<lparr>ad_count := Some rows\<rparr>)
      (without_access i (rfc3339 P (now_at w)) d1) = Inr d'"
    by (auto simp: restore_tables_def rbind_eq_Inr ok_or_eq_Inr ensure_eq_Inr audited_Inr Let_def without_access_def)
  have "d_clients d1 = []" using insert_tables_clients [OF assms(2) _ ins] assms(3) by (simp add: emptied_def)
  moreover have "gr_revoked r \<noteq> None" if "r \<in> revoke_row t ` rows" for r t rows using that revoke_row_revoked by auto
  ultimately show ?thesis using spec y audit_on_frame [OF au] by (auto simp: without_access_def is_ok_def)
qed

lemma prune_fields:
  "d_clients (prune_conversations P n d) = d_clients d" "d_consent (prune_conversations P n d) = d_consent d"
  "d_grants (prune_conversations P n d) = d_grants d" "d_instance (prune_conversations P n d) = d_instance d"
  "d_policy (prune_conversations P n d) = d_policy d" "set (d_threads (prune_conversations P n d)) \<subseteq> set (d_threads d)"
  by (auto simp: prune_conversations_def drop_threads_def Let_def)

lemma restore_snapshot_cases:
  obtains (refused) e where "restore_snapshot P Q w snap d = (Inl e, d)"
  | (restored) row y d1 where "recovery_empty d" "d_instance d = Some row"
      "restore_tables P Q w (wi_instance row) snap d = Inr (y, d1)"
      "restore_snapshot P Q w snap d = (Inr y, prune_conversations P (now_at w) d1)"
proof (cases "recovery_empty d")
  case True
  show thesis
  proof (cases "d_instance d")
    case (Some row)
    show thesis
    proof (cases "restore_tables P Q w (wi_instance row) snap d")
      case (Inl e)
      with True Some show thesis by (intro refused) (simp add: restore_snapshot_def commit_def)
    next
      case (Inr y)
      obtain z d1 where "y = (z, d1)" by (cases y)
      with True Some Inr show thesis by (intro restored) (auto simp: restore_snapshot_def commit_def)
    qed
  qed (use True in \<open>auto intro: refused simp: restore_snapshot_def\<close>)
qed (auto intro: refused simp: restore_snapshot_def)

lemma restore_Inr:
  assumes "restore P Q C w a password d = (Inr y, d')"
  shows "\<exists>snap row d1. recovery_empty d \<and> d_instance d = Some row
     \<and> restore_tables P Q w (wi_instance row) snap d = Inr (y, d1) \<and> d' = prune_conversations P (now_at w) d1"
proof (cases "decrypt P C a password")
  case (Inr snap)
  show ?thesis
    by (rule restore_snapshot_cases [of P Q w snap d]) (use assms Inr in \<open>auto simp: restore_def\<close>)
qed (use assms in \<open>simp add: restore_def\<close>)

lemma restore_Inl: "restore P Q C w a password d = (Inl e, d') \<Longrightarrow> d' = d"
proof (cases "decrypt P C a password")
  case (Inr snap)
  assume "restore P Q C w a password d = (Inl e, d')"
  with Inr have r: "restore_snapshot P Q w snap d = (Inl e, d')" by (simp add: restore_def)
  show ?thesis by (rule restore_snapshot_cases [of P Q w snap d]) (use r in simp_all)
qed (simp add: restore_def)

section \<open>A library and an installation for the closed examples\<close>

definition demo_hex :: platform where
  "demo_hex = demo_platform\<lparr>rfc3339 := (\<lambda>_. ''5''), hex_encode := (\<lambda>s. s @ s), hex_decode := (\<lambda>s. Some (take (length s div 2) s))\<rparr>"

definition demo_rows :: "string \<Rightarrow> cell list list" where
  "demo_rows t = (if t = ''sources'' then [[CText ''s1'', CText ''manual'', CText ''tea'', CText ''{}'', CText ''1'']]
     else if t = ''grants'' then [[CText ''g1'', CText ''https://a'', CText ''*'', CText ''10'', CNull, CText ''1'']]
     else if t = ''request_policy'' then [[CInt 1, CInt 0, CText ''{}'']] else [])"

definition demo_sql :: sql where
  "demo_sql = \<lparr>sq_names = map fst recovery_tables, sq_dump = (\<lambda>t d. demo_rows t),
     sq_insert = (\<lambda>t cells d. Inr (if t = ''grants'' then d\<lparr>d_grants := d_grants d @ d_grants demo_vault\<rparr>
        else if t = ''request_policy'' then d\<lparr>d_policy := Some \<lparr>pr_revision = 0, pr_document = Some demo_spec\<rparr>\<rparr> else d)),
     sq_foreign_errors = (\<lambda>_. 0), sq_real = (\<lambda>_. None)\<rparr>"

definition demo_snapshot :: snapshot where
  "demo_snapshot = \<lparr>sn_format = recovery_format, sn_created = ''5'', sn_tables = map (\<lambda>(t, _). (t,
     if t = ''sources'' then [[JStr ''s1'', JStr ''manual'', JStr ''tea'', JStr ''{}'', JStr ''1'']]
     else if t = ''grants'' then [[JStr ''g1'', JStr ''https://a'', JStr ''*'', JStr ''10'', JNull, JStr ''1'']]
     else if t = ''request_policy'' then [[JNum (UInt 1), JNum (UInt 0), JStr ''{}'']] else [])) recovery_tables\<rparr>"

definition demo_sealer :: sealer where
  "demo_sealer = \<lparr>se_argon2 = (\<lambda>p s. Some s), se_seal = (\<lambda>k n a m. Some (m @ replicate 16 (CHR ''t''))),
     se_open = (\<lambda>k n a c. Some (take (length c - 16) c)),
     se_text = (\<lambda>x. if x = demo_snapshot then ''a'' else ''b''),
     se_parse = (\<lambda>s. if s = ''a'' then Some demo_snapshot else None)\<rparr>"

definition demo_archive :: archive where
  "demo_archive = \<lparr>ra_format = recovery_format, ra_kdf = ''argon2id-v19'', ra_memory = recovery_memory, ra_iterations = 3,
     ra_parallelism = 1, ra_salt = replicate 32 (CHR ''s''), ra_nonce = replicate 24 (CHR ''n''),
     ra_ciphertext = (''a'' @ replicate 16 (CHR ''t'')) @ (''a'' @ replicate 16 (CHR ''t''))\<rparr>"

lemma demo_sealed:
  "encrypt demo_hex demo_sealer (replicate 16 (CHR ''s'')) (replicate 12 (CHR ''n'')) ''a'' ''synthetic passphrase'' = Inr demo_archive"
proof -
  have "replicate 16 (CHR ''s'') @ replicate 16 (CHR ''s'') = replicate 32 (CHR ''s'')"
    "replicate 12 (CHR ''n'') @ replicate 12 (CHR ''n'') = replicate 24 (CHR ''n'')" by (simp_all flip: replicate_add)
  then show ?thesis
    by (simp add: encrypt_def recovery_key_def demo_sealer_def demo_hex_def demo_archive_def max_plaintext_def ensure_def
      ok_or_def)
qed

lemma demo_dump: "dump_tables demo_hex demo_sql (map fst recovery_tables) d (0, 0) = Inr (sn_tables demo_snapshot, 3, 6)"
  by (simp add: recovery_tables_def demo_sql_def demo_rows_def demo_snapshot_def demo_hex_def demo_platform_def
      max_plaintext_def ensure_def)

lemma demo_exported: "recovery_snapshot demo_hex demo_sql demo_sealer 5 gate_db = (Inr ''a'', prune_conversations demo_hex 5 gate_db)"
proof -
  have "rfc3339 demo_hex 5 = ''5''" by (simp add: demo_hex_def)
  then have "\<lparr>sn_format = recovery_format, sn_created = rfc3339 demo_hex 5, sn_tables = sn_tables demo_snapshot\<rparr> = demo_snapshot"
    by (simp add: demo_snapshot_def)
  moreover have "tables_known demo_sql"
    by (simp add: tables_known_def demo_sql_def list_all_iff List.member_iff)
  ultimately show ?thesis by (simp add: recovery_snapshot_def demo_dump Let_def demo_sealer_def ensure_def)
qed

lemma demo_opened: "decrypt demo_hex demo_sealer demo_archive ''synthetic passphrase'' = Inr demo_snapshot"
proof -
  have "archive_supported demo_archive" by (simp add: archive_supported_def demo_archive_def max_plaintext_def)
  moreover have "schema_supported demo_snapshot" by (simp add: schema_supported_def demo_snapshot_def recovery_tables_def)
  ultimately show ?thesis
    by (simp add: decrypt_def demo_archive_def demo_hex_def demo_sealer_def recovery_key_def ensure_def ok_or_def)
qed

lemma demo_spec_compiles: "\<exists>c. compile demo_hex demo_spec = Inr c"
  by (simp add: demo_compile_simps demo_spec_def demo_hex_def demo_platform_def ensure_def list_ex_iff)

lemma demo_restored:
  "\<exists>d. restore demo_hex demo_sql demo_sealer (demo_draw 5 ''u'') demo_archive ''synthetic passphrase''
     (empty_db ''mine'' demo_spec) = (Inr (3, ''mine''), d) \<and> ''g1'' \<in> gr_id ` set (d_grants d)"
proof -
  obtain c where c: "compile demo_hex demo_spec = Inr c" using demo_spec_compiles by blast
  have e1: "audit_checks ''recovery_restored'' (no_details\<lparr>ad_count := Some 3\<rparr>) = Inr ()"
    by (simp add: audit_checks_def no_details_def opt_check_def opt_all_def valid_action_def audit_actions_def
        List.member_iff metric_def ensure_def i64_max_def)
  let ?e = "emptied (empty_db ''mine'' demo_spec)"
  obtain d1 where i: "insert_tables demo_sql recovery_tables demo_snapshot (0, ?e) = Inr (3, d1)"
    and d1: "d1 = ?e\<lparr>d_grants := d_grants demo_vault, d_policy := Some \<lparr>pr_revision = 0, pr_document = Some demo_spec\<rparr>\<rparr>"
    by (simp add: recovery_tables_def demo_sql_def demo_snapshot_def ensure_def ok_or_def i64_max_def emptied_def)
  let ?d2 = "without_access ''mine'' (rfc3339 demo_hex 5) d1"
  have pol: "d_policy ?d2 = Some \<lparr>pr_revision = 0, pr_document = Some demo_spec\<rparr>" "d_audit ?d2 = []"
    "d_grants ?d2 = map (revoke_row (rfc3339 demo_hex 5)) (d_grants demo_vault)"
    by (simp_all add: without_access_def d1 emptied_def)
  obtain d3 where a: "audited demo_hex (demo_draw 5 ''u'') 0 ''recovery_restored'' (no_details\<lparr>ad_count := Some 3\<rparr>) (3 :: nat, ''mine'') ?d2
      = Inr ((3, ''mine''), d3)"
    by (simp add: audited_def audit_on_def e1 journal_timestamp_def t_insert_def pol Let_def)
  then have au: "audit_on demo_hex (demo_draw 5 ''u'') 0 ''recovery_restored'' (no_details\<lparr>ad_count := Some 3\<rparr>) ?d2 = Inr d3"
    by (simp add: audited_Inr)
  have "d_grants d3 = map (revoke_row (rfc3339 demo_hex 5)) (d_grants demo_vault)" using audit_on_frame [OF au] pol by simp
  then have "''g1'' \<in> gr_id ` set (d_grants d3)" by (simp add: demo_vault_def)
  moreover have "restore_tables demo_hex demo_sql (demo_draw 5 ''u'') ''mine'' demo_snapshot (empty_db ''mine'' demo_spec)
      = Inr ((3, ''mine''), d3)"
    using a by (simp add: restore_tables_def i pol c ok_or_def ensure_def demo_draw_def Let_def) (simp add: demo_sql_def)
  moreover have "recovery_empty (empty_db ''mine'' demo_spec)" "d_instance (empty_db ''mine'' demo_spec)
      = Some \<lparr>wi_instance = ''mine'', wi_label = ''My installation'', wi_enabled = False\<rparr>"
    by (simp_all add: recovery_empty_def empty_db_def)
  ultimately have "restore demo_hex demo_sql demo_sealer (demo_draw 5 ''u'') demo_archive ''synthetic passphrase''
     (empty_db ''mine'' demo_spec) = (Inr (3, ''mine''), prune_conversations demo_hex 5 d3)"
    by (simp add: restore_def demo_opened restore_snapshot_def commit_def) (simp add: demo_draw_def)
  with \<open>''g1'' \<in> gr_id ` set (d_grants d3)\<close> show ?thesis by (metis prune_fields(3))
qed

section \<open>Properties\<close>

text \<open>C10: A backup restores what was stored: the archive that an export seals opens with the passphrase, passes the
  checks of format, size and schema, and what a restoration then inserts into an emptied database is cell for
  cell what the tables held when the snapshot was taken.\<close>

theorem backups_restore_what_was_stored:
  assumes "recovery_snapshot P Q C now d = (Inr bytes, d')" and "encrypt P C salt nonce bytes password = Inr a"
    and "sealer_laws P C" and "sql_laws Q" and "length salt = 16" and "length nonce = 12"
    and "\<forall>snap. se_text C snap = bytes \<longrightarrow> se_parse C bytes = Some snap"
  shows "\<exists>snap. decrypt P C a password = Inr snap
     \<and> (\<forall>e. insert_tables Q recovery_tables snap (0, e) = reinsert Q (map fst recovery_tables) d' (0, e))"
proof -
  from assms(1) obtain tables c where t: "dump_tables P Q (map fst recovery_tables) d' (0, 0) = Inr (tables, c)"
    and bytes: "bytes = se_text C \<lparr>sn_format = recovery_format, sn_created = rfc3339 P now, sn_tables = tables\<rparr>"
    by (auto simp: recovery_snapshot_def rbind_eq_Inr Let_def)
  let ?snap = "\<lparr>sn_format = recovery_format, sn_created = rfc3339 P now, sn_tables = tables\<rparr>"
  note names = dump_tables_names [OF t]
  have "dom (map_of tables) = fst ` set recovery_tables" using names by (metis dom_map_of_conv_image_fst set_map)
  moreover have "length tables = length recovery_tables" using names by (metis length_map)
  moreover from calculation have "map_of tables t \<noteq> None" if "(t, cols) \<in> set recovery_tables" for t cols
    using that by (metis domIff fst_conv image_eqI)
  ultimately have "schema_supported ?snap" by (auto simp: schema_supported_def list_all_iff)
  with encrypt_decrypt [OF assms(2,3,5,6)] assms(7) bytes have "decrypt P C a password = Inr ?snap" by simp
  moreover have "distinct (map fst tables)" using names recovery_tables_distinct by simp
  then have "\<forall>(t, rows) \<in> set tables. map_of (sn_tables ?snap) t = Some rows" by auto
  with dump_tables_reinsert [OF t assms(4) _ recovery_tables_distinct] have
    "insert_tables Q recovery_tables ?snap (0, e) = reinsert Q (map fst recovery_tables) d' (0, e)" for e by blast
  ultimately show ?thesis by blast
qed

lemma backups_restore_what_was_stored_witness:
  "\<exists>d' snap. recovery_snapshot demo_hex demo_sql demo_sealer 5 gate_db = (Inr ''a'', d')
     \<and> decrypt demo_hex demo_sealer demo_archive ''synthetic passphrase'' = Inr snap
     \<and> (\<forall>e. insert_tables demo_sql recovery_tables snap (0, e) = reinsert demo_sql (map fst recovery_tables) d' (0, e))"
proof -
  have "sealer_laws demo_hex demo_sealer" by (simp add: sealer_laws_def demo_hex_def demo_sealer_def)
  moreover have "sql_laws demo_sql"
    by (auto simp: sql_laws_def demo_sql_def demo_rows_def recovery_tables_def cell_ok_def)
  moreover have "\<forall>snap. se_text demo_sealer snap = ''a'' \<longrightarrow> se_parse demo_sealer ''a'' = Some snap"
    by (simp add: demo_sealer_def)
  ultimately show ?thesis
    using demo_exported backups_restore_what_was_stored [OF demo_exported demo_sealed] by auto
qed





end
