(* ===== verification/Runtime.thy ===== *)
theory Runtime
  imports CoreProperties
begin

text \<open>
  The processes of the core: inside a native application (runtime.rs) its configuration from explicit options,
  the lease on the vault's directory, the start, the router with its shutdown gate, the gateways of work clients
  and the bridge of the native pages; and the command line service (main.rs). The HTTP clients are those of
  http.rs.
\<close>

section \<open>Configuration\<close>

text \<open>The crates http and reqwest: what is a header value and a method, the parts of a URI (whether it has a
  scheme and an authority), and whether the builders of the clients succeed with a proxy.\<close>

record http_crate =
  hc_header_ok :: "string \<Rightarrow> bool"
  hc_method_ok :: "string \<Rightarrow> bool"
  hc_uri :: "string \<Rightarrow> (bool \<times> bool) option"
  hc_built :: "string option \<Rightarrow> bool"

record native_options =
  no_managed :: "compiled_policy option"
  no_dir :: string
  no_key :: string
  no_key_storage :: string
  no_listen :: bool
  no_llm_base :: string
  no_llm_model :: string
  no_llm_key :: string
  no_anthropic_base :: string
  no_anthropic_key :: string
  no_extractor_base :: string
  no_extractor_model :: string
  no_collector :: "string option"
  no_allowlist :: "string list option"
  no_origins :: "string list"
  no_socks :: "string option"
  no_vpn :: bool

definition new_options :: "string \<Rightarrow> string \<Rightarrow> string \<Rightarrow> native_options" where
  "new_options dir key key_storage =
     \<lparr>no_managed = None, no_dir = dir, no_key = key, no_key_storage = key_storage, no_listen = False,
      no_llm_base = ''http://127.0.0.1:11434/v1'', no_llm_model = ''qwen3:0.6b'', no_llm_key = [],
      no_anthropic_base = ''https://api.anthropic.com/v1'', no_anthropic_key = [],
      no_extractor_base = ''http://127.0.0.1:11434/v1'', no_extractor_model = ''qwen3:0.6b'', no_collector = None,
      no_allowlist = None,
      no_origins = [''tauri://localhost'', ''http://tauri.localhost'', ''https://tauri.localhost''],
      no_socks = None, no_vpn = False\<rparr>"

definition store_label_ok :: "string \<Rightarrow> bool" where
  "store_label_ok s \<longleftrightarrow> \<not> (s = [] \<or> length s > 64
     \<or> \<not> list_all (\<lambda>c. ascii_alphanumeric c \<or> c = CHR ''-'' \<or> c = CHR ''_'') s
     \<or> s = ''file'' \<or> s = ''development-file'')"

definition socks_ok :: "platform \<Rightarrow> string \<Rightarrow> unit res" where
  "socks_ok P s =
     rbind (ok_or (url_parse P s) (Decode ''url'')) (\<lambda>u.
     ensure (\<not> (u_scheme u \<noteq> ''socks5h'' \<or> u_host u = None)) ''The SOCKS proxy must use socks5h:// for proxy-side DNS'')"

definition origin_ok :: "platform \<Rightarrow> http_crate \<Rightarrow> string \<Rightarrow> unit res" where
  "origin_ok P H origin =
     rbind (ok_or (url_parse P origin) (Decode ''url'')) (\<lambda>u.
     ensure (\<not> (origin = ''null'' \<or> contains origin ''*'' \<or> u_username u \<noteq> [] \<or> u_password u \<or> u_host u = None
         \<or> u_query u \<or> u_fragment u \<or> \<not> (u_path u = [] \<or> u_path u = ''/'') \<or> \<not> hc_header_ok H origin))
       ''Native UI origins must be explicit origins without credentials or wildcards'')"

fun all_ok :: "('a \<Rightarrow> unit res) \<Rightarrow> 'a list \<Rightarrow> unit res" where
  "all_ok f [] = Inr ()"
| "all_ok f (x # xs) = rbind (f x) (\<lambda>_. all_ok f xs)"

text \<open>\<open>config\<close>; the data directory is absolute when it starts at the root.\<close>

definition native_config ::
    "platform \<Rightarrow> http_crate \<Rightarrow> draw \<Rightarrow> native_options \<Rightarrow> nat \<Rightarrow> config res" where
  "native_config P H w opts port =
     rbind (ensure (prefix ''/'' (no_dir opts)) ''The native vault directory must be an absolute application-data path'') (\<lambda>_.
     rbind (ensure (store_label_ok (no_key_storage opts))
       ''Native runtimes require a platform secure-store label, not a development key file'') (\<lambda>_.
     rbind (normalize_base P (no_llm_base opts)) (\<lambda>llm_base.
     rbind (normalize_base P (no_anthropic_base opts)) (\<lambda>anthropic_base.
     rbind (normalize_base P (no_extractor_base opts)) (\<lambda>extractor_base.
     rbind (ensure (is_loopback_url P extractor_base)
       ''Memory extraction is local-only; the extractor must use loopback'') (\<lambda>_.
     rbind (case no_allowlist opts of None \<Rightarrow> Inr [llm_base, anthropic_base]
            | Some urls \<Rightarrow> map_res (normalize_base P) urls) (\<lambda>allowlist.
     rbind (ensure (List.member allowlist llm_base)
       ''The primary provider must be included in the explicit upstream allowlist'') (\<lambda>_.
     rbind (ensure (\<not> (no_vpn opts \<and> no_socks opts = None))
       ''A required VPN needs a SOCKS proxy; direct remote fallback is forbidden'') (\<lambda>_.
     rbind (case no_socks opts of None \<Rightarrow> Inr () | Some s \<Rightarrow> socks_ok P s) (\<lambda>_.
     rbind (all_ok (origin_ok P H) (no_origins opts)) (\<lambda>_.
     rbind (case no_collector opts of None \<Rightarrow> Inr [] | Some url \<Rightarrow> normalize_base P url) (\<lambda>analytics_url.
     Inr \<lparr>cf_managed = no_managed opts, cf_data_dir = no_dir opts, cf_port = port,
          cf_local_token = hex_encode P (random w 0), cf_agent_token = hex_encode P (random w 1), cf_pairing = None,
          cf_llm_base = llm_base, cf_llm_model = no_llm_model opts, cf_llm_key = no_llm_key opts,
          cf_anthropic_base = anthropic_base, cf_anthropic_key = no_anthropic_key opts, cf_allowlist = allowlist,
          cf_allowlist_enforced = (no_allowlist opts \<noteq> None), cf_origins = no_origins opts,
          cf_analytics_opt_in = False, cf_simulation = False, cf_key_storage = no_key_storage opts,
          cf_socks_proxy = no_socks opts, cf_vpn_required = no_vpn opts, cf_extractor_base = extractor_base,
          cf_extractor_model = no_extractor_model opts, cf_analytics_url = analytics_url\<rparr>))))))))))))"

text \<open>\<open>clients\<close>: the local client never has a proxy; the result is the proxy of the remote one.\<close>

definition http_clients :: "http_crate \<Rightarrow> config \<Rightarrow> string option res" where
  "http_clients H c =
     rbind (if hc_built H None then Inr () else Inl (Io ''client'')) (\<lambda>_.
     rbind (ensure (\<not> (cf_vpn_required c \<and> cf_socks_proxy c = None))
       ''Required VPN proxy is missing; direct remote fallback is forbidden'') (\<lambda>_.
     rbind (if hc_built H (cf_socks_proxy c) then Inr () else Inl (Io ''client'')) (\<lambda>_.
     Inr (cf_socks_proxy c))))"

section \<open>The lease\<close>

text \<open>
  The machine: what \<open>symlink_metadata\<close> says of a path, the file a path names, the files that are locked,
  whether a directory can be made private and its lock file opened, and the tables SQLCipher finds at a path
  under a key once the schema is there (\<open>None\<close>: it is another vault's key).
\<close>

datatype file_kind = Directory | Regular | Link | Special

record machine =
  mc_kind :: "string \<Rightarrow> file_kind option"
  mc_file :: "string \<Rightarrow> nat"
  mc_locked :: "nat list"
  mc_ready :: "string \<Rightarrow> bool"
  mc_vault :: "string \<Rightarrow> string \<Rightarrow> db option"

definition vault_files :: "string list" where
  "vault_files = [''runtime.lock'', ''vault.db'', ''vault.db-wal'', ''vault.db-shm'']"

definition vault_lease :: "string \<Rightarrow> machine \<Rightarrow> nat res \<times> machine" where
  "vault_lease dir m =
     (let lock = path_join dir ''runtime.lock'';
          made = m\<lparr>mc_kind := (mc_kind m)(dir \<mapsto> Directory)\<rparr>;
          opened = made\<lparr>mc_kind := (mc_kind made)(lock \<mapsto> Regular)\<rparr> in
      if \<not> List.member [None, Some Directory] (mc_kind m dir)
      then (Inl (Bail ''The native vault directory must be a real directory''), m)
      else if \<not> mc_ready m dir then (Inl (Io ''directory''), m)
      else if \<not> list_all (\<lambda>f. List.member [None, Some Regular] (mc_kind made (path_join dir f))) vault_files
      then (Inl (Bail ''Native vault files must be regular files, not symbolic links''), made)
      else if List.member (mc_locked m) (mc_file m lock)
      then (Inl (Bail ''This native vault is already open in another runtime''), opened)
      else (Inr (mc_file m lock), opened\<lparr>mc_locked := mc_file m lock # mc_locked m\<rparr>))"

definition release_lease :: "nat \<Rightarrow> machine \<Rightarrow> machine" where
  "release_lease lock m = m\<lparr>mc_locked := remove1 lock (mc_locked m)\<rparr>"

section \<open>Start\<close>

definition open_vault :: "string \<Rightarrow> string \<Rightarrow> machine \<Rightarrow> db res" where
  "open_vault path key m =
     rbind (ensure (length key = 32) ''Vault key must be 256 bits'') (\<lambda>_. ok_or (mc_vault m path key) (Sql ''open''))"

definition initialize_vault :: "platform \<Rightarrow> config \<Rightarrow> draw \<Rightarrow> db \<Rightarrow> unit stmts" where
  "initialize_vault P c w d =
     then_stmt (commit (initialize_admin P c d) d) (\<lambda>_ d'. initialize_runtime_journal P w d')"

definition store_vault :: "string \<Rightarrow> string \<Rightarrow> db \<Rightarrow> machine \<Rightarrow> machine" where
  "store_vault path key d m =
     m\<lparr>mc_vault := (mc_vault m)(path := (mc_vault m path)(key := Some d))\<rparr>"

record core_process =
  cp_config :: config
  cp_proxy :: "string option"
  cp_endpoint :: "string option"
  cp_lock :: nat

definition core_address :: "core_process \<Rightarrow> string" where
  "core_address p = (case cp_endpoint p of None \<Rightarrow> ''in-process'' | Some e \<Rightarrow> e)"

text \<open>\<open>bound\<close>: the port the system gives the listener.\<close>

definition native_plan ::
    "platform \<Rightarrow> http_crate \<Rightarrow> nat option \<Rightarrow> draw \<Rightarrow> native_options \<Rightarrow> (config \<times> string option \<times> string option) res" where
  "native_plan P H bound w opts =
     rbind (native_config P H w opts 0) (\<lambda>config.
     rbind (if no_listen opts
            then rbind (ok_or bound (Bail ''Cannot start the optional local API listener'')) (\<lambda>port.
              Inr (config\<lparr>cf_port := port\<rparr>, Some (''http://127.0.0.1:'' @ show_nat port)))
            else Inr (config, None)) (\<lambda>(config, endpoint).
     rbind (http_clients H config) (\<lambda>via.
     Inr (config, endpoint, via))))"

text \<open>When the start fails after the lease is taken, the vault and with it the lease are dropped.\<close>

definition native_start ::
    "platform \<Rightarrow> http_crate \<Rightarrow> nat option \<Rightarrow> draw \<Rightarrow> draw \<Rightarrow> native_options \<Rightarrow> machine
     \<Rightarrow> (core_process \<times> db) res \<times> machine" where
  "native_start P H bound w wj opts m =
     (case native_plan P H bound w opts of
        Inl e \<Rightarrow> (Inl e, m)
      | Inr (config, endpoint, via) \<Rightarrow>
          let path = path_join (cf_data_dir config) ''vault.db'' in
          (case vault_lease (cf_data_dir config) m of
             (Inl e, m1) \<Rightarrow> (Inl e, m1)
           | (Inr lock, m1) \<Rightarrow>
               (case open_vault path (no_key opts) m1 of
                  Inl e \<Rightarrow> (Inl (Bail ''Cannot unlock the native vault with the supplied secure-store key''), release_lease lock m1)
                | Inr d \<Rightarrow>
                    (case initialize_vault P config wj d of
                       (Inl e, d') \<Rightarrow> (Inl e, release_lease lock (store_vault path (no_key opts) d' m1))
                     | (Inr _, d') \<Rightarrow>
                         (Inr (\<lparr>cp_config = config, cp_proxy = via, cp_endpoint = endpoint, cp_lock = lock\<rparr>, d'),
                          store_vault path (no_key opts) d' m1)))))"

section \<open>The command line service\<close>

datatype started = Printed string | Prepared db | Serving config "string option" db

text \<open>\<open>main\<close> with the key in a file: \<open>args\<close> are the arguments, \<open>w\<close>, \<open>wk\<close> and \<open>wj\<close> the draws for tokens,
  key and journal.\<close>

definition service_start ::
    "platform \<Rightarrow> http_crate \<Rightarrow> bool \<Rightarrow> int \<Rightarrow> draw \<Rightarrow> draw \<Rightarrow> draw \<Rightarrow> (string \<Rightarrow> policy_spec option)
     \<Rightarrow> (string \<Rightarrow> policy_file option) \<Rightarrow> environment \<Rightarrow> (nat \<Rightarrow> nat option) \<Rightarrow> machine \<Rightarrow> string list \<Rightarrow> disk
     \<Rightarrow> started res" where
  "service_start P H mac now w wk wj decode policies env bind m args fs =
     rbind (from_env P mac now w decode policies env fs) (\<lambda>(config, fs1).
     if take 1 args = [''token''] then Inr (Printed (cf_local_token config))
     else if take 1 args = [''agent-token''] then Inr (Printed (cf_agent_token config))
     else rbind (load_vault_key_file wk config fs1) (\<lambda>(key, fs2).
     rbind (open_vault (path_join (cf_data_dir config) ''vault.db'') key m) (\<lambda>d0.
     rbind (initialize_admin P config d0) (\<lambda>(_, d1).
     if take 1 args = [''init''] then Inr (Prepared d1)
     else (case initialize_runtime_journal P wj d1 of
       (Inl e, d2) \<Rightarrow> Inl e
     | (Inr _, d2) \<Rightarrow>
         rbind (ok_or (bind (cf_port config)) (Io ''listener'')) (\<lambda>port.
         rbind (http_clients H (config\<lparr>cf_port := port\<rparr>)) (\<lambda>via.
         Inr (Serving (config\<lparr>cf_port := port\<rparr>) via d2)))))))) "

section \<open>The running core\<close>

text \<open>
  Whether the core is closing, whether each client gateway it started is closed, and its world. The gate
  decides when a request arrives; a request that was admitted runs to its end.
\<close>

record running =
  rn_closing :: bool
  rn_gateways :: "bool list"
  rn_world :: world

definition started_state :: "db \<Rightarrow> running" where
  "started_state d = \<lparr>rn_closing = False, rn_gateways = [], rn_world = (d, [])\<rparr>"

datatype native_event =
    Routed site headers incoming
  | ThroughGateway nat site headers json bool
  | OpenGateway bool
  | DropGateway nat
  | BeginShutdown

text \<open>The proxies of a gateway are the routes of \<open>client_app\<close>; the router has all the others.\<close>

definition on_router :: "incoming \<Rightarrow> bool" where
  "on_router q = (case q of ClientCall _ _ \<Rightarrow> False | _ \<Rightarrow> True)"

definition gateway_open :: "nat \<Rightarrow> running \<Rightarrow> bool" where
  "gateway_open i c \<longleftrightarrow> i < length (rn_gateways c) \<and> \<not> (rn_gateways c ! i \<or> rn_closing c)"

text \<open>\<open>bound\<close>: the system gives the gateway a port.\<close>

definition start_client_gateway :: "bool \<Rightarrow> running \<Rightarrow> running res" where
  "start_client_gateway bound c =
     rbind (ensure (\<not> rn_closing c) ''The local core is shutting down'') (\<lambda>_.
     rbind (if bound then Inr () else Inl (Io ''listener'')) (\<lambda>_.
     Inr (c\<lparr>rn_gateways := rn_gateways c @ [False]\<rparr>)))"

lemma started_gateway [simp]:
  "(case start_client_gateway bound c of Inl e \<Rightarrow> c | Inr c' \<Rightarrow> c')
     = (if rn_closing c \<or> \<not> bound then c else c\<lparr>rn_gateways := rn_gateways c @ [False]\<rparr>)"
  by (simp add: start_client_gateway_def ensure_def)

fun drop_gateway :: "nat \<Rightarrow> running \<Rightarrow> running" where
  "drop_gateway i c = c\<lparr>rn_gateways := (rn_gateways c)[i := True]\<rparr>"

fun begin_shutdown :: "running \<Rightarrow> running" where
  "begin_shutdown c = c\<lparr>rn_closing := True\<rparr>"

fun native_step :: "(string \<Rightarrow> string list option) \<Rightarrow> native_event \<Rightarrow> running \<Rightarrow> running" where
  "native_step decode (Routed S hs q) c =
     (if rn_closing c \<or> \<not> on_router q then c else c\<lparr>rn_world := serve S decode hs q (rn_world c)\<rparr>)"
| "native_step decode (ThroughGateway i S hs body anthropic) c =
     (if \<not> gateway_open i c then c else c\<lparr>rn_world := serve S decode hs (ClientCall body anthropic) (rn_world c)\<rparr>)"
| "native_step decode (OpenGateway bound) c =
     (case start_client_gateway bound c of Inl e \<Rightarrow> c | Inr c' \<Rightarrow> c')"
| "native_step decode (DropGateway i) c = drop_gateway i c"
| "native_step decode BeginShutdown c = begin_shutdown c"

section \<open>The bridge of the native pages\<close>

record native_call =
  nr_method :: string
  nr_path :: string
  nr_headers :: headers
  nr_body :: string

definition request_limit :: nat where "request_limit = 1024 * 1024"

definition response_limit :: nat where "response_limit = 8 * 1024 * 1024"

definition native_request ::
    "http_crate \<Rightarrow> config \<Rightarrow> string \<Rightarrow> string \<Rightarrow> string option \<Rightarrow> native_call res" where
  "native_request H c method path body =
     rbind (ensure (\<not> (length path > 8192 \<or> \<not> prefix ''/'' path \<or> prefix ''//'' path \<or> contains path ''#''))
       ''Native API requests require a bounded local path'') (\<lambda>_.
     rbind (ok_or (hc_uri H path) (Bail ''Invalid native API path'')) (\<lambda>(scheme, authority).
     rbind (ensure (\<not> (scheme \<or> authority)) ''Native API requests cannot select another host'') (\<lambda>_.
     rbind (ensure (hc_method_ok H method) ''Invalid native API method'') (\<lambda>_.
     rbind (ensure (List.member [''GET'', ''POST'', ''PATCH'', ''DELETE''] method) ''Unsupported native API method'') (\<lambda>_.
     let content = (case body of None \<Rightarrow> [] | Some b \<Rightarrow> b) in
     rbind (ensure (length content \<le> request_limit) ''Native API request exceeds the 1 MiB limit'') (\<lambda>_.
     Inr \<lparr>nr_method = method, nr_path = path,
          nr_headers = [(''authorization'', Some (''Bearer '' @ cf_local_token c)), (''content-type'', Some ''application/json'')],
          nr_body = content\<rparr>))))))"

text \<open>What comes back: the status and the collected body, \<open>None\<close> where it was interrupted; \<open>utf8\<close> is the
  check of \<open>String::from_utf8\<close>, \<open>late\<close> says that the time ran out.\<close>

definition native_response :: "(string \<Rightarrow> bool) \<Rightarrow> bool \<Rightarrow> nat \<Rightarrow> string option \<Rightarrow> (nat \<times> string) res" where
  "native_response utf8 late status body =
     rbind (ensure (\<not> late) ''Native API request timed out'') (\<lambda>_.
     rbind (ok_or body (Bail ''Native API response exceeded its limit or was interrupted'')) (\<lambda>content.
     rbind (ensure (length content \<le> response_limit) ''Native API response exceeded its limit or was interrupted'') (\<lambda>_.
     rbind (ensure (utf8 content) ''Native API response was not UTF-8'') (\<lambda>_.
     Inr (status, content)))))"

end
