(* ===== verification/RuntimeProperties.thy ===== *)
theory RuntimeProperties
  imports Runtime
begin

text \<open>
  The properties of the core's processes: the configuration a native core starts with, the exclusive lease on a
  vault, the vault of a core from its start on, and what a shutdown or a dropped gateway ends.
\<close>

section \<open>Configuration\<close>

lemma all_ok_Inr: "all_ok f xs = Inr u \<longleftrightarrow> (\<forall>x \<in> set xs. f x = Inr ())"
  by (induction xs) (auto simp: res_simps)

lemma native_config_Inr:
  assumes "native_config P H w opts port = Inr c"
  shows "store_label_ok (no_key_storage opts) \<and> normalize_base P (no_llm_base opts) = Inr (cf_llm_base c)
     \<and> normalize_base P (no_anthropic_base opts) = Inr (cf_anthropic_base c)
     \<and> is_loopback_url P (cf_extractor_base c)
     \<and> (case no_allowlist opts of None \<Rightarrow> Inr [cf_llm_base c, cf_anthropic_base c]
        | Some urls \<Rightarrow> map_res (normalize_base P) urls) = Inr (cf_allowlist c)
     \<and> cf_llm_base c \<in> set (cf_allowlist c)
     \<and> (cf_vpn_required c \<longrightarrow> cf_socks_proxy c \<noteq> None)
     \<and> (\<forall>s. cf_socks_proxy c = Some s \<longrightarrow> socks_ok P s = Inr ())
     \<and> (\<forall>x \<in> set (cf_origins c). origin_ok P H x = Inr ())
     \<and> cf_llm_model c = no_llm_model opts \<and> cf_data_dir c = no_dir opts \<and> cf_key_storage c = no_key_storage opts
     \<and> cf_pairing c = None \<and> cf_port c = port \<and> \<not> cf_analytics_opt_in c"
  using assms by (auto simp: native_config_def res_simps all_ok_Inr List.member_iff split: option.splits)

lemma native_plan_Inr:
  assumes "native_plan P H bound w opts = Inr (c, endpoint, via)"
  obtains c0 where "native_config P H w opts 0 = Inr c0" and "c = c0\<lparr>cf_port := cf_port c\<rparr>"
    and "via = cf_socks_proxy c" and "\<not> no_listen opts \<longrightarrow> endpoint = None \<and> cf_port c = 0"
proof -
  from assms obtain c0 where c0: "native_config P H w opts 0 = Inr c0" and
    rest: "if no_listen opts then (\<exists>port. c = c0\<lparr>cf_port := port\<rparr>) else c = c0 \<and> endpoint = None"
    and v: "http_clients H c = Inr via"
    by (cases "no_listen opts") (fastforce simp: native_plan_def res_simps)+
  have "c = c0\<lparr>cf_port := cf_port c\<rparr>" using rest by (auto split: if_splits)
  moreover have "via = cf_socks_proxy c" using v by (auto simp: http_clients_def res_simps split: if_splits)
  moreover have "\<not> no_listen opts \<longrightarrow> endpoint = None \<and> cf_port c = 0"
    using rest native_config_Inr [OF c0] by auto
  ultimately show ?thesis using that c0 by blast
qed

lemma vault_lease_Inr:
  assumes "vault_lease dir m = (Inr lock, m')"
  shows "lock = mc_file m (path_join dir ''runtime.lock'') \<and> lock \<notin> set (mc_locked m)
     \<and> mc_locked m' = lock # mc_locked m \<and> mc_file m' = mc_file m \<and> mc_vault m' = mc_vault m"
  using assms by (auto simp: vault_lease_def Let_def List.member_iff split: if_splits)

lemma vault_lease_Inl:
  assumes "vault_lease dir m = (Inl e, m')"
  shows "mc_locked m' = mc_locked m \<and> mc_file m' = mc_file m"
  using assms by (auto simp: vault_lease_def Let_def split: if_splits)

lemma native_start_Inr:
  assumes "native_start P H bound w wj opts m = (Inr (p, d), m')"
  obtains d0 m1 where "native_plan P H bound w opts = Inr (cp_config p, cp_endpoint p, cp_proxy p)"
    and "vault_lease (cf_data_dir (cp_config p)) m = (Inr (cp_lock p), m1)"
    and "mc_vault m1 (path_join (cf_data_dir (cp_config p)) ''vault.db'') (no_key opts) = Some d0"
    and "initialize_vault P (cp_config p) wj d0 = (Inr (), d)"
    and "m' = store_vault (path_join (cf_data_dir (cp_config p)) ''vault.db'') (no_key opts) d m1"
  using assms by (auto simp: native_start_def open_vault_def Let_def res_simps split: sum.splits prod.splits)

lemma started_lease:
  assumes "native_start P H bound w wj opts m = (Inr (p, d), m')"
  shows "cp_lock p = mc_file m (path_join (cf_data_dir (cp_config p)) ''runtime.lock'') \<and> cp_lock p \<notin> set (mc_locked m)
     \<and> mc_locked m' = cp_lock p # mc_locked m \<and> mc_file m' = mc_file m"
proof (rule native_start_Inr [OF assms])
  fix d0 m1
  assume l: "vault_lease (cf_data_dir (cp_config p)) m = (Inr (cp_lock p), m1)"
    and m: "m' = store_vault (path_join (cf_data_dir (cp_config p)) ''vault.db'') (no_key opts) d m1"
  from vault_lease_Inr [OF l] show ?thesis unfolding m by (auto simp: store_vault_def)
qed

lemma native_start_Inl:
  assumes "native_start P H bound w wj opts m = (Inl e, m')"
  shows "mc_locked m' = mc_locked m \<and> mc_file m' = mc_file m"
  using assms by (auto simp: native_start_def release_lease_def store_vault_def Let_def
    dest!: vault_lease_Inl vault_lease_Inr split: sum.splits prod.splits)

lemma allowlist_of_options_safe:
  assumes "(case no_allowlist opts of None \<Rightarrow> Inr [l, a] | Some urls \<Rightarrow> map_res (normalize_base P) urls) = Inr al"
    and "safe_base P l" and "safe_base P a" and "b \<in> set al"
  shows "safe_base P b"
proof (cases "no_allowlist opts")
  case None
  with assms show ?thesis by auto
next
  case (Some urls)
  with assms(1) have "map_res (normalize_base P) urls = Inr al" by simp
  from map_res_all [OF this _ assms(4)] normalize_base_safe show ?thesis by blast
qed

section \<open>The lease\<close>

datatype machine_op =
    StartCore http_crate "nat option" draw draw native_options
  | StopCore nat

fun machine_step :: "platform \<Rightarrow> machine_op \<Rightarrow> machine \<times> core_process list \<Rightarrow> machine \<times> core_process list" where
  "machine_step P (StartCore H bound w wj opts) (m, ps) =
     (case native_start P H bound w wj opts m of
        (Inl e, m') \<Rightarrow> (m', ps)
      | (Inr (p, d), m') \<Rightarrow> (m', p # ps))"
| "machine_step P (StopCore i) (m, ps) =
     (if i < length ps then (release_lease (cp_lock (ps ! i)) m, take i ps @ drop (Suc i) ps) else (m, ps))"

definition lock_of :: "(string \<Rightarrow> nat) \<Rightarrow> core_process \<Rightarrow> nat" where
  "lock_of files p = files (path_join (cf_data_dir (cp_config p)) ''runtime.lock'')"

definition leases_ok :: "(string \<Rightarrow> nat) \<Rightarrow> machine \<times> core_process list \<Rightarrow> bool" where
  "leases_ok files s \<longleftrightarrow> mc_file (fst s) = files \<and> distinct (mc_locked (fst s)) \<and> distinct (map cp_lock (snd s))
     \<and> set (map cp_lock (snd s)) \<subseteq> set (mc_locked (fst s)) \<and> (\<forall>p \<in> set (snd s). cp_lock p = lock_of files p)"

lemma stopped_leases:
  assumes "distinct (map f ps)" and "i < length ps"
  shows "set (map f (take i ps @ drop (Suc i) ps)) = set (map f ps) - {f (ps ! i)}
     \<and> distinct (map f (take i ps @ drop (Suc i) ps)) \<and> set (take i ps @ drop (Suc i) ps) \<subseteq> set ps"
proof -
  have ps: "ps = take i ps @ ps ! i # drop (Suc i) ps" using assms(2) by (rule id_take_nth_drop)
  define a b x where "a = take i ps" and "b = drop (Suc i) ps" and "x = ps ! i"
  with ps assms(1) have "ps = a @ x # b" "distinct (map f (a @ x # b))" by metis+
  then show ?thesis unfolding a_def [symmetric] b_def [symmetric] x_def [symmetric] by auto
qed

interpretation leases: op_invariant "machine_step P" "leases_ok files" for P files
proof
  fix s x
  assume ok: "leases_ok files s"
  obtain m ps where s: "s = (m, ps)" by (cases s)
  show "leases_ok files (machine_step P x s)"
  proof (cases x)
    case (StartCore H bound w wj opts)
    obtain r m' where r: "native_start P H bound w wj opts m = (r, m')" by (rule prod.exhaust)
    show ?thesis
    proof (cases r)
      case (Inl e)
      with native_start_Inl [of P H bound w wj opts m e m'] r
      have "mc_locked m' = mc_locked m \<and> mc_file m' = mc_file m" by simp
      with ok r Inl show ?thesis by (simp add: StartCore s leases_ok_def cong del: image_cong_simp)
    next
      case (Inr pd)
      obtain p d where pd: "pd = (p, d)" by (cases pd)
      with r Inr have start: "native_start P H bound w wj opts m = (Inr (p, d), m')" by simp
      from started_lease [OF start] ok show ?thesis
        by (auto simp: StartCore s start leases_ok_def lock_of_def cong del: image_cong_simp)
    qed
  next
    case (StopCore i)
    with ok stopped_leases [of cp_lock ps i] show ?thesis
      by (auto simp: s leases_ok_def release_lease_def simp del: map_append set_append)
  qed
qed

section \<open>Running cores\<close>

definition in_process :: "site \<Rightarrow> native_event \<Rightarrow> bool" where
  "in_process S0 ev = (case ev of Routed S _ _ \<Rightarrow> runs_in S0 S | ThroughGateway _ S _ _ _ \<Rightarrow> runs_in S0 S | _ \<Rightarrow> True)"

lemma native_step_serves:
  assumes "in_process S0 ev"
  shows "\<exists>rs. rn_world (native_step decode ev c) = serve_all decode rs (rn_world c) \<and> (\<forall>x \<in> set rs. runs_in S0 (fst x))"
proof -
  have none: "\<exists>rs. rn_world c = serve_all decode rs (rn_world c) \<and> (\<forall>x \<in> set rs. runs_in S0 (fst x))"
    by (rule exI [of _ "[]"]) simp
  have one: "\<exists>rs. serve S decode hs q (rn_world c) = serve_all decode rs (rn_world c) \<and> (\<forall>x \<in> set rs. runs_in S0 (fst x))"
    if "runs_in S0 S" for S hs q
    by (rule exI [of _ "[(S, hs, q)]"]) (simp add: that)
  show ?thesis using assms none one by (cases ev) (simp_all add: in_process_def del: serve.simps serve_all.simps)
qed

lemma serve_all_append: "serve_all decode (xs @ ys) s = serve_all decode ys (serve_all decode xs s)"
  by (induction decode xs s rule: serve_all.induct) auto

lemma native_core_serves:
  assumes "\<forall>ev \<in> set evs. in_process S0 ev"
  shows "\<exists>rs. rn_world (run_ops (native_step decode) evs c) = serve_all decode rs (rn_world c) \<and> (\<forall>x \<in> set rs. runs_in S0 (fst x))"
  using assms
proof (induction evs arbitrary: c)
  case Nil
  show ?case by (rule exI [of _ "[]"]) simp
next
  case (Cons ev evs)
  from Cons.prems obtain rs where 1: "rn_world (native_step decode ev c) = serve_all decode rs (rn_world c)"
    "\<forall>x \<in> set rs. runs_in S0 (fst x)" using native_step_serves by (metis list.set_intros(1))
  from Cons.prems Cons.IH [of "native_step decode ev c"] obtain rs' where
    2: "rn_world (run_ops (native_step decode) evs (native_step decode ev c)) = serve_all decode rs' (rn_world (native_step decode ev c))"
    "\<forall>x \<in> set rs'. runs_in S0 (fst x)" by auto
  show ?case by (rule exI [of _ "rs @ rs'"]) (use 1 2 in \<open>auto simp: serve_all_append\<close>)
qed

lemma initialize_vault_ok:
  assumes "core_ok (ho_platform (si_host S)) d" and "usable S"
  shows "core_ok (ho_platform (si_host S)) (snd (initialize_vault (ho_platform (si_host S)) (ho_config (si_host S)) w d))"
proof -
  let ?P = "ho_platform (si_host S)"
  let ?c = "ho_config (si_host S)"
  have a: "core_ok ?P (after (initialize_admin ?P ?c d) d)"
    using core_step_ok [OF assms(2,1), of "(w, Initialize)"] by simp
  have r: "core_ok ?P (snd (initialize_runtime_journal ?P w d1))" if ok: "core_ok ?P d1" for d1
  proof -
    let ?d2 = "snd (journal_recover_interrupted ?P w d1)"
    have ok2: "core_ok ?P ?d2" using core_step_ok [OF assms(2) ok, of "(w, InJournal RecoverInterrupted)"] by simp
    have "core_ok ?P (after (audited ?P w 0 a x () ?d2) ?d2)" for a x
      using core_step_ok [OF assms(2) ok2, of "(w, InJournal (RecordAudit a x))"] by simp
    then show ?thesis using ok2
      by (cases "journal_recover_interrupted ?P w d1")
        (auto simp: initialize_runtime_journal_def then_stmt_def commit_def after_def split: sum.splits)
  qed
  from a assms(1) r show ?thesis
    by (auto simp: initialize_vault_def then_stmt_def commit_def after_def split: sum.splits)
qed

section \<open>The gates\<close>

lemma closing_stays: "rn_closing c \<Longrightarrow> rn_closing (native_step decode ev c) \<and> rn_world (native_step decode ev c) = rn_world c"
  by (cases ev) (simp_all add: gateway_open_def)

interpretation closed_core: op_monotone "native_step decode" "\<lambda>c c'. rn_closing c \<longrightarrow> rn_closing c' \<and> rn_world c' = rn_world c"
  for decode by unfold_locales (simp_all add: closing_stays)

lemma nth_list_update': "i < length xs \<Longrightarrow> xs[j := x] ! i = (if i = j then x else xs ! i)"
  by (cases "i = j") auto

lemma dropped_stays:
  "i < length (rn_gateways c) \<and> rn_gateways c ! i \<Longrightarrow>
   i < length (rn_gateways (native_step decode ev c)) \<and> rn_gateways (native_step decode ev c) ! i"
  by (cases ev) (simp_all add: nth_append nth_list_update' del: serve.simps)

interpretation dropped_gateway: op_invariant "native_step decode" "\<lambda>c. i < length (rn_gateways c) \<and> rn_gateways c ! i"
  for decode i by unfold_locales (rule dropped_stays)

section \<open>The bridge\<close>

text \<open>What the native pages ask goes to this core, within the limits, and as its owner.\<close>

lemma bridge_speaks_for_the_owner:
  assumes "native_request H (ho_config E) method path body = Inr q"
  shows "auth E n (nr_headers q) admin s = (Inr Owner, s)
     \<and> prefix ''/'' (nr_path q) \<and> \<not> prefix ''//'' (nr_path q) \<and> length (nr_path q) \<le> 8192
     \<and> nr_method q \<in> {''GET'', ''POST'', ''PATCH'', ''DELETE''} \<and> length (nr_body q) \<le> request_limit"
proof -
  from assms have hs: "nr_headers q = [(''authorization'', Some (''Bearer '' @ cf_local_token (ho_config E))),
      (''content-type'', Some ''application/json'')]"
    and rest: "prefix ''/'' (nr_path q) \<and> \<not> prefix ''//'' (nr_path q) \<and> length (nr_path q) \<le> 8192"
      "List.member [''GET'', ''POST'', ''PATCH'', ''DELETE''] (nr_method q)" "length (nr_body q) \<le> request_limit"
    unfolding native_request_def Let_def by (auto simp only: res_simps split_beta native_call.simps not_less de_Morgan_disj not_not)
  have "bearer (nr_headers q) = cf_local_token (ho_config E)"
    by (simp add: hs bearer_def header_text_def strip_prefix_def)
  moreover have "header_text ''origin'' (nr_headers q) = None" by (simp add: hs header_text_def)
  ultimately have "auth E n (nr_headers q) admin s = (Inr Owner, s)" by (simp add: auth_def and_then_def require_def)
  with rest show ?thesis by (simp only: List.member_iff) (simp add: insert_commute)
qed

section \<open>Demonstration\<close>

definition demo_http :: http_crate where
  "demo_http = \<lparr>hc_header_ok = (\<lambda>_. True), hc_method_ok = (\<lambda>_. True), hc_uri = (\<lambda>_. Some (False, False)),
     hc_built = (\<lambda>_. True)\<rparr>"

definition demo_options :: native_options where
  "demo_options = (new_options ''/d'' (replicate 32 (CHR ''k'')) ''secure-store'')
     \<lparr>no_llm_base := ''https://one'', no_anthropic_base := ''https://two'', no_extractor_base := ''http://local'',
      no_origins := [''http://ui''], no_socks := Some ''socks5h://127.0.0.1:1080'', no_vpn := True\<rparr>"

definition demo_machine :: machine where
  "demo_machine = \<lparr>mc_kind = (\<lambda>_. None), mc_file = length, mc_locked = [], mc_ready = (\<lambda>_. True),
     mc_vault = (\<lambda>_ _. Some (empty_db ''i'' demo_spec))\<rparr>"

definition demo_native :: config where
  "demo_native = \<lparr>cf_managed = None, cf_data_dir = ''/d'', cf_port = 0, cf_local_token = hex_encode demo_platform ''r'',
     cf_agent_token = hex_encode demo_platform ''r'', cf_pairing = None, cf_llm_base = ''https://one'',
     cf_llm_model = ''qwen3:0.6b'', cf_llm_key = [], cf_anthropic_base = ''https://two'', cf_anthropic_key = [],
     cf_allowlist = [''https://one'', ''https://two''], cf_allowlist_enforced = False, cf_origins = [''http://ui''],
     cf_analytics_opt_in = False, cf_simulation = False, cf_key_storage = ''secure-store'',
     cf_socks_proxy = Some ''socks5h://127.0.0.1:1080'', cf_vpn_required = True, cf_extractor_base = ''http://local'',
     cf_extractor_model = ''qwen3:0.6b'', cf_analytics_url = []\<rparr>"

lemma demo_bases:
  "normalize_base demo_platform ''https://two'' = Inr ''https://two''"
  "normalize_base demo_platform ''http://local'' = Inr ''http://local''"
  by (simp_all add: normalize_base_def trim_def trim_start_def trim_end_def strip_with.simps white_space_def
      demo_platform_def url_is_loopback_def trim_end_char_def trim_start_char_def)

lemma demo_checks:
  "socks_ok demo_platform ''socks5h://127.0.0.1:1080'' = Inr ()" "origin_ok demo_platform demo_http ''http://ui'' = Inr ()"
  "store_label_ok ''secure-store''"
  by (simp_all add: socks_ok_def origin_ok_def store_label_ok_def demo_platform_def demo_http_def ascii_alphanumeric_def
      ascii_digit_def ascii_upper_def ascii_lower_def)

lemma demo_native_config:
  "native_config demo_platform demo_http (demo_draw 1 ''r'') demo_options 0 = Inr demo_native"
  by (simp add: native_config_def demo_options_def new_options_def demo_urls demo_bases demo_checks List.member_iff
      demo_native_def demo_draw_def)

lemma demo_plan:
  "native_plan demo_platform demo_http None (demo_draw 1 ''r'') demo_options
     = Inr (demo_native, None, Some ''socks5h://127.0.0.1:1080'')"
proof -
  have "no_listen demo_options = False" "hc_built demo_http v" for v
    by (simp_all add: demo_options_def new_options_def demo_http_def)
  then show ?thesis
    by (simp add: native_plan_def demo_native_config http_clients_def) (simp add: demo_native_def)
qed


lemma demo_lease:
  "\<exists>m1. vault_lease ''/d'' demo_machine = (Inr 15, m1) \<and> mc_vault m1 = mc_vault demo_machine"
  by (simp add: vault_lease_def demo_machine_def path_join_def vault_files_def List.member_iff)

lemma demo_initialized:
  "\<exists>d. initialize_vault demo_platform demo_native (demo_draw 2 ''j'') (empty_db ''i'' demo_spec) = (Inr (), d)"
proof -
  obtain d1 where i: "initialize_admin demo_platform demo_native (empty_db ''i'' demo_spec) = Inr ((), d1)"
    and d1: "d_journal d1 = []" "d_audit d1 = []" "\<exists>s. d_settings d1 = Some (Some s) \<and> as_history_days s = 30"
    by (auto simp: initialize_admin_def empty_db_def read_document_def)
  from d1(3) have "\<exists>b. journal_preferences d1 = Inr (b, 30)"
    by (auto simp: journal_preferences_def)
  with d1(1,2) obtain d0 where p: "journal_recover_interrupted demo_platform (demo_draw 2 ''j'') d1 = (Inr 0, d0)"
    and d0: "d_audit d0 = []"
    by (auto simp: journal_recover_interrupted_def journal_prune_def Let_def)
  have "audit_checks ''core_started'' (no_details\<lparr>ad_count := Some 0\<rparr>) = Inr ()"
    by (simp add: audit_checks_def valid_action_def audit_actions_def metric_def no_details_def opt_check_def opt_all_def i64_max_eq List.member_iff)
  with p d0 i show ?thesis
    by (simp add: initialize_vault_def initialize_runtime_journal_def audited_def audit_on_def journal_timestamp_def Let_def
      t_insert_def)
qed

definition demo_process :: core_process where
  "demo_process = \<lparr>cp_config = demo_native, cp_proxy = Some ''socks5h://127.0.0.1:1080'', cp_endpoint = None, cp_lock = 15\<rparr>"

lemma demo_native_start:
  "\<exists>d m'. native_start demo_platform demo_http None (demo_draw 1 ''r'') (demo_draw 2 ''j'') demo_options demo_machine
     = (Inr (demo_process, d), m')"
proof -
  from demo_lease obtain m1 where l: "vault_lease ''/d'' demo_machine = (Inr 15, m1)"
    and v: "mc_vault m1 = mc_vault demo_machine" by blast
  from demo_initialized obtain d where i:
    "initialize_vault demo_platform demo_native (demo_draw 2 ''j'') (empty_db ''i'' demo_spec) = (Inr (), d)" by blast
  have "open_vault path (no_key demo_options) m1 = Inr (empty_db ''i'' demo_spec)" for path
    by (simp add: open_vault_def v demo_machine_def demo_options_def new_options_def)
  moreover have "cf_data_dir demo_native = ''/d''" by (simp add: demo_native_def)
  ultimately show ?thesis using l i by (simp add: native_start_def demo_plan Let_def demo_process_def)
qed

section \<open>Properties\<close>






definition demo_native_site :: site where
  "demo_native_site = demo_site\<lparr>si_host := gate_host\<lparr>ho_config := demo_native, ho_others := (\<lambda>_ d. d)\<rparr>\<rparr>"




end
