(* ===== verification/Spec2Isabelle.thy ===== *)
theory Spec2Isabelle
  imports JournalProperties ServerProperties Wire RecoveryProperties RuntimeProperties
begin

text \<open>
  A verification library for OMNI-OS.

  OMNI-OS keeps a person's memories in an encrypted vault on their machine and discloses them to model
  providers only under permissions that expire and can be withdrawn. The Rust code has two programs. The core
  (\<open>src/crates/omni-core\<close>) owns the vault and serves an owner's API, a chat, two proxies that speak the
  protocols of OpenAI and Anthropic, a restricted listener for individually approved work clients, the capture
  of text with a local extractor, and tools over the model context protocol; it runs as a command line service
  or inside a native application. The VPN (\<open>src/crates/omni-vpn\<close>) hides a WireGuard hub behind authenticated
  admission requests and rotates the identities of its clients.

  \<^bold>\<open>The parts and how they interact.\<close> A request enters at a handler of http.rs, is authenticated, and
  works on the vault in critical sections. A handler that talks to a provider builds the outgoing request from
  the disclosed memories, has it inspected by the request policy, checks the permission a last time, writes a
  receipt and an interaction record, and only then hands it to the HTTP client; the answer is read within
  bounds and the record is completed exactly once. All tables live in one database, so that every operation of
  every component is one transaction or one statement on it.

  \<^item> \<open>Prelude\<close>: results with errors as values, Rust strings and integers, tables with a primary key, and the
    two locales of state machines; \<open>Store\<close>: JSON, the rows of all tables (the schema statements of vault.rs,
    journal.rs, policy.rs, work.rs, continuity.rs) and the record \<open>db\<close> of the tables.
  \<^item> \<open>AuditTrail\<close>, \<open>Journal\<close>, \<open>JournalProperties\<close>: journal.rs; the allowlisted audit actions, the records of
    interactions from start to completion, retention, recovery after a crash, and usage with exact costs.
  \<^item> \<open>Vault\<close>: vault.rs; memories with their sources and history, grants, the selection of the context that a
    grant permits, receipts, consent and statistics.
  \<^item> \<open>Policy\<close>: policy.rs; the compilation of policies, the inspection of requests with attached files, the
    decision of the managed and the local layer, revisions and the decision log.
  \<^item> \<open>Work\<close>: work.rs; approval, authentication and revocation of work clients, grants bound to a client.
  \<^item> \<open>Continuity\<close>: continuity.rs; saved conversations with one request in flight and replays of answers.
  \<^item> \<open>Administration\<close>: administration.rs; settings, provider profiles, and the choice of a provider.
  \<^item> \<open>Analytics\<close>: analytics.rs; weekly histograms, their noisy release, and the privacy budget.
  \<^item> \<open>Config\<close>: config.rs; the pairing gate, addresses, secrets on disk, the configuration from the environment.
  \<^item> \<open>Exchange\<close>, \<open>Gateway\<close>, \<open>Capture\<close>, \<open>OwnerApi\<close> with \<open>GatewayProperties\<close> and \<open>OwnerProperties\<close>: http.rs,
    http/professional.rs and sender.rs; the trace of an exchange and its readers; authentication, the path to
    a provider, chat, proxies and the restricted listener; capture and tools; every handler of the owner.
  \<^item> \<open>Core\<close>, \<open>CoreProperties\<close>: all handlers together (\<open>app\<close> and \<open>client_app\<close> of http.rs), as a refinement of the
    state machine whose steps are the atomic operations of the components above.
  \<^item> \<open>Recovery\<close>, \<open>RecoveryProperties\<close>: recovery.rs; encrypted archives and their restoration.
  \<^item> \<open>Runtime\<close>, \<open>RuntimeProperties\<close>: runtime.rs and main.rs; starting a core, the lease on its vault, the gates of
    its router and of its gateways.
  \<^item> \<open>Knock\<close>: knock.rs and lib.rs of the VPN; signed admission requests, the bounded table against replays,
    acknowledgements. \<open>VpnServer\<close>, \<open>ServerProperties\<close>: server.rs; the start of the hub and one iteration of its
    control loop. \<open>Rotation\<close>: rotation.rs. \<open>Wire\<close>: wire.rs; IPv4 and UDP frames on machine words and the loops
    around the WireGuard implementation.

  \<^bold>\<open>How the code is represented.\<close>

  \<^item> Definitions carry the names of the code. A struct is a record whose fields have a prefix of two letters, an
    enum a datatype. A function that can fail returns \<open>'a res\<close>, the error or the value; the text of an error is
    the code's message, or a tag where the message comes from a library.
  \<^item> A transaction is a function to \<open>('a \<times> db) res\<close>: an error leaves the tables as they were. Statements outside a
    transaction return \<open>'a res \<times> db\<close>: what was done before the error stays. Handlers return the answer and the
    world, which is the database and the list of all requests that were handed to the network.
  \<^item> A Rust string is the list of its bytes in UTF-8, so that \<open>length\<close> is the code's \<open>len()\<close>. Unsigned integers are
    \<open>nat\<close> with the range checks, the checked and the saturating operations written out; the frames of
    \<open>Wire\<close> are on words, where the sums wrap. Costs in \<open>f64\<close> are exact rationals: rounding is not modelled.
  \<^item> Time, identifiers and random bytes of an operation are its \<open>draw\<close>; one reading of the clock serves the whole
    operation. A handler waits at numbered points; at each of them \<open>ho_others\<close> is what the other handlers do to
    the database meanwhile, an arbitrary function in the properties of one request, and operations of the same
    process in those of the core as a whole.
  \<^item> Code outside the repository is a parameter: chrono, sha2, hex, serde, regex, url and uuid are the fields of
    \<open>platform\<close>; HMAC, base64 and the wire encodings of \<open>crypto\<close>; wg, nft, the state file and the socket of
    \<open>os\<close>; boringtun of \<open>tunnel\<close>; dates of \<open>calendar\<close>; the Laplace mechanism of \<open>mechanism\<close>; the HTTP client of
    \<open>host\<close> and \<open>site\<close>; SQLite's rows of \<open>sql\<close>; Argon2id and AES-GCM of \<open>sealer\<close>; the file system, the lock files
    and SQLCipher's opening of \<open>machine\<close>. What a property needs of them is a named hypothesis, and its witness
    instantiates them with concrete functions.

  \<^bold>\<open>Recursion and bounds.\<close> Every definition is total. Recursion is on the data, or has a termination proof
  (the trimming of strings, the folding of a checksum's carries). The two counters are the code's own: a
  tunnel is asked at most 256 times for what it has pending, which the receiving loop of \<open>Wire\<close> counts down and
  which the relation \<open>drain\<close> describes without a counter, and the excerpt of a source looks for the last
  character boundary from its limit down. Limits that the code states (the depth of inspected content, the size
  of bodies, lines, tables and archives) are constants of the same value.

  \<^bold>\<open>What the lemmas show.\<close>

  \<^item> Disclosure: a context has only confirmed memories, from sources of the scope, under an active grant for that
    destination, within the budget; nothing is handed to a provider that was not permitted and inspected by both
    policy layers at that moment; after a grant or a client is revoked, nothing is disclosed under it, through any
    requests in any interleaving; captures stay on the machine and await review.
  \<^item> Authority: who a request is from, that the owner's API is the owner's, that it sends no content, that
    permissions are for configured destinations, and that a credential stays with its endpoint.
  \<^item> Records: interactions are completed once, streams are relayed within bounds and recorded once, an answered
    request of a conversation is not sent again, and there is one request in flight per conversation.
  \<^item> The core as a whole: whatever a request does to the vault is a sequence of atomic operations, and the
    invariant \<open>core_ok\<close> of the vault holds after any requests, from the start of a core to its shutdown. A vault
    has one native core, a shutdown is final, and its configuration keeps its boundaries.
  \<^item> Recovery: an archive opens to what was sealed, and only restores into an unused installation; access is not
    restored with it; a restoration that fails changes nothing.
  \<^item> Analytics: two histories that differ in one interaction have histograms at a bounded distance.
  \<^item> The VPN: a request is accepted once, acknowledged only when it is on disk, no key has two holders, the
    identity of a client moves forward along its phases, and a saved state can be resumed; frames round-trip and
    a corrupted byte is noticed; receiving ends.

  Two locales of \<open>Prelude\<close> carry the state machines: \<open>op_invariant\<close> (a predicate that every operation keeps
  holds after any sequence of them) and \<open>op_monotone\<close> (a relation that every operation satisfies relates the
  state before and after a sequence); each component's invariants and histories are interpretations. \<open>Knock\<close> has
  \<open>replay_guard\<close> for tables that accept a key once, \<open>VpnServer\<close> \<open>ctl_relation\<close> and its extension
  \<open>loop_relation\<close> for relations that the commands, and the whole control loop, of the hub respect. In \<open>Core\<close> the
  collections \<open>sound_ops\<close> and \<open>sound_acts\<close> compose the refinement of a handler from those of its parts.

  \<^bold>\<open>Not modelled.\<close>

  \<^item> The restoration of an archive is not among the operations of \<open>serve\<close>: the rows of an archive are whatever
    its password authenticates, and the code does not check them beyond the schema, so \<open>core_ok\<close> is not kept by
    it. Its own properties are in \<open>RecoveryProperties\<close>. Likewise \<open>core_ok\<close> needs a configuration with a model,
    since the first provider profile is not validated.
  \<^item> Cancellation is modelled at the points where a handler waits for the network. Panics and poisoned locks are
    the branch in which the vault is unavailable. Time limits of the HTTP client are part of its answers.
  \<^item> The macOS keychain, the creation of directories by config.rs, the drain of the listener's task at the end of
    a shutdown, and the parsing of requests by axum: their effects on the model's state are none.
  \<^item> The command line of the VPN (main.rs) and its simulation over local sockets, the device plugin and the
    desktop shell (glue to Tauri and the platforms' key stores), the TypeScript clients, extensions and
    installers: no logic of their own beyond input and output, or not Rust code.
\<close>

end
